theory Spec2Isabelle
  imports
    Main
    "HOL-Library.Char_ord"
    "HOL-Library.List_Lexorder"
    "HOL-Library.Product_Lexorder"
    "HOL-Library.Sublist"
    "HOL-Library.AList"
begin

section \<open>Python values, errors and the world outside \<^verbatim>\<open>config.py\<close>\<close>

text \<open>
  The configuration handed to \<^verbatim>\<open>BuilderConfig\<close> is a parsed TOML tree. A value is a
  boolean, an integer (standing for every scalar that is neither a boolean nor a string), a
  string, an array or a table. A table is an association list in insertion order; a
  well-formed table has pairwise distinct keys, so that \<^verbatim>\<open>k in d\<close>, \<^verbatim>\<open>d[k]\<close> and
  \<^verbatim>\<open>d.get(k, default)\<close> are lookups with \<open>map_of\<close> and \<^verbatim>\<open>d.items()\<close> is the list
  itself.
\<close>

datatype pyval =
    PBool bool
  | PInt int
  | PStr string
  | PList "pyval list"
  | PDict "(string \<times> pyval) list"

type_synonym pydict = "(string \<times> pyval) list"

datatype error = TypeError string | ValueError string

text \<open>Python's truth value of an object (\<^verbatim>\<open>if x:\<close>).\<close>

fun truthy :: "pyval \<Rightarrow> bool" where
  "truthy (PBool b) = b"
| "truthy (PInt i) = (i \<noteq> 0)"
| "truthy (PStr x) = (x \<noteq> [])"
| "truthy (PList xs) = (xs \<noteq> [])"
| "truthy (PDict d) = (d \<noteq> [])"

definition dict_contains :: "'k \<Rightarrow> ('k \<times> 'v) list \<Rightarrow> bool" where
  "dict_contains k d = (map_of d k \<noteq> None)"

definition dict_get :: "('k \<times> 'v) list \<Rightarrow> 'k \<Rightarrow> 'v \<Rightarrow> 'v" where
  "dict_get d k dflt = (case map_of d k of Some v \<Rightarrow> v | None \<Rightarrow> dflt)"

text \<open>\<^verbatim>\<open>d.setdefault(k, v)\<close> on an insertion-ordered dictionary; \<^verbatim>\<open>d[k] = v\<close> is
  \<^const>\<open>AList.update\<close> (in place when the key is present, appended otherwise).\<close>

definition dict_setdefault :: "'k \<Rightarrow> 'v \<Rightarrow> ('k \<times> 'v) list \<Rightarrow> ('k \<times> 'v) list" where
  "dict_setdefault k v d = (if dict_contains k d then d else d @ [(k, v)])"

text \<open>\<^verbatim>\<open>d.update(e)\<close>.\<close>

definition dict_update :: "('k \<times> 'v) list \<Rightarrow> ('k \<times> 'v) list \<Rightarrow> ('k \<times> 'v) list" where
  "dict_update d e = fold (\<lambda>(k, v). AList.update k v) e d"

text \<open>An \<^verbatim>\<open>OrderedDict\<close> used as an ordered set: \<^verbatim>\<open>d[x] = None\<close> keeps the first
  position of \<open>x\<close>; \<^verbatim>\<open>list(d)\<close> is the list of keys.\<close>

definition ordered_set_add :: "'a \<Rightarrow> 'a list \<Rightarrow> 'a list" where
  "ordered_set_add x xs = (if x \<in> set xs then xs else xs @ [x])"

definition ordered_set_extend :: "'a list \<Rightarrow> 'a list \<Rightarrow> 'a list" where
  "ordered_set_extend xs ys = fold ordered_set_add ys xs"

text \<open>\<^verbatim>\<open>'{}'.format(i)\<close> for a non-negative integer: its decimal digits.\<close>

definition digit :: "nat \<Rightarrow> char" where
  "digit n = char_of (48 + n)"

function str_nat :: "nat \<Rightarrow> string" where
  "str_nat n = (if n < 10 then [digit n] else str_nat (n div 10) @ [digit (n mod 10)])"
  by pat_completeness auto
termination
  by (relation "measure id") auto

declare str_nat.simps [simp del]

text \<open>\<^verbatim>\<open>sep.join(xs)\<close>.\<close>

fun join :: "string \<Rightarrow> string list \<Rightarrow> string" where
  "join s [] = []"
| "join s [x] = x"
| "join s (x # y # ys) = x @ s @ join s (y # ys)"

text \<open>\<^verbatim>\<open>s.replace(old, new, 1)\<close>: the first occurrence of \<open>old\<close> is replaced; an empty
  \<open>old\<close> occurs at the very start.\<close>

fun replace_first :: "string \<Rightarrow> string \<Rightarrow> string \<Rightarrow> string" where
  "replace_first old new [] = (if old = [] then new else [])"
| "replace_first old new (c # cs) =
     (if prefix old (c # cs) then new @ drop (length old) (c # cs)
      else c # replace_first old new cs)"

text \<open>
  What \<^verbatim>\<open>config.py\<close> imports and does not define is a parameter of the model: the
  process environment, the functions of \<^verbatim>\<open>os.path\<close>, \<^verbatim>\<open>str.upper\<close>, the location and the
  lines of the ignore file, the \<^verbatim>\<open>pathspec\<close> library (\<open>pattern_error w lines\<close> is the
  error that \<^verbatim>\<open>PathSpec.from_lines(GitWildMatchPattern, lines)\<close> raises, if it raises, and
  \<open>match_file w lines path\<close> is what \<^verbatim>\<open>match_file(path)\<close> of the compiled lines
  returns), the helpers of
  \<^verbatim>\<open>.utils\<close> and the constants of \<^verbatim>\<open>.constants\<close>. \<^verbatim>\<open>os.path.sep\<close> is a string of one
  character on every platform and is kept as that character. The world is fixed during the
  life of a configuration object.
\<close>

record world =
  os_environ :: "string \<rightharpoonup> string"
  os_path_sep :: char
  os_path_split :: "string \<Rightarrow> string \<times> string"
  os_path_isabs :: "string \<Rightarrow> bool"
  os_path_join :: "string \<Rightarrow> string \<Rightarrow> string"
  os_path_normpath :: "string \<Rightarrow> string"
  str_upper :: "string \<Rightarrow> string"
  locate_file :: "string \<Rightarrow> string \<Rightarrow> string option"
  readlines :: "string \<Rightarrow> string list"
  pattern_error :: "string list \<Rightarrow> error option"
  match_file :: "string list \<Rightarrow> string \<Rightarrow> bool"
  normalize_relative_path :: "string \<Rightarrow> string"
  normalize_relative_directory :: "string \<Rightarrow> string"
  normalize_inclusion_map :: "(string \<times> string) list \<Rightarrow> string \<Rightarrow> error + (string \<times> string) list"
  DEFAULT_BUILD_DIRECTORY :: string
  NO_HOOKS :: string
  HOOKS_ENABLE :: string
  HOOK_ENABLE_PREFIX :: string

text \<open>What the configuration asks of its builder: \<^verbatim>\<open>get_default_versions()\<close>, the keys of
  \<^verbatim>\<open>get_version_api()\<close> and \<^verbatim>\<open>metadata.core.dependencies\<close>.\<close>

record builder =
  get_default_versions :: "string list"
  get_version_api :: "string list"
  metadata_core_dependencies :: "string list"

text \<open>A compiled \<^verbatim>\<open>pathspec.PathSpec\<close> is kept as the lines it was compiled from.
  \<^verbatim>\<open>PathSpec.from_lines(GitWildMatchPattern, lines)\<close> raises on lines the library refuses
  (the line \<^verbatim>\<open>!\<close>, for one).\<close>

datatype PathSpec = PathSpec "string list"

definition from_lines :: "world \<Rightarrow> string list \<Rightarrow> error + PathSpec" where
  "from_lines w lines =
     (case pattern_error w lines of
        Some e \<Rightarrow> Inl e
      | None \<Rightarrow> Inr (PathSpec lines))"

text \<open>The recurring \<^verbatim>\<open>if patterns: spec = PathSpec.from_lines(..., patterns)\<close>: the new
  specification, or \<open>None\<close> when the patterns are empty and the field is left as it is.\<close>

definition compile_patterns :: "world \<Rightarrow> string list \<Rightarrow> error + PathSpec option" where
  "compile_patterns w patterns =
     (if patterns \<noteq> [] then
        (case from_lines w patterns of
           Inl e \<Rightarrow> Inl e
         | Inr spec \<Rightarrow> Inr (Some spec))
      else Inr None)"

section \<open>The configuration object\<close>

text \<open>
  The fields are those of \<^verbatim>\<open>BuilderConfig.__init__\<close>; \<open>c_x\<close> is the private backing field
  \<^verbatim>\<open>self.__x\<close> of the memoized property \<open>x\<close>, \<open>None\<close> until it is computed.
\<close>

record BuilderConfig =
  builder :: builder
  root :: string
  plugin_name :: string
  build_config :: pydict
  target_config :: pydict
  c_hook_config :: "(string \<times> pydict) list option"
  c_versions :: "string list option"
  c_dependencies :: "string list option"
  c_sources :: "(string \<times> string) list option"
  c_packages :: "string list option"
  c_force_include :: "(string \<times> string) list option"
  c_include_spec :: "PathSpec option"
  c_exclude_spec :: "PathSpec option"
  c_artifact_spec :: "PathSpec option"
  c_include_patterns :: "string list option"
  c_exclude_patterns :: "string list option"
  c_artifact_patterns :: "string list option"
  build_artifact_spec :: "PathSpec option"
  build_force_include :: "(string \<times> string) list"
  c_directory :: "string option"
  c_ignore_vcs :: "bool option"
  c_only_packages :: "bool option"
  c_reproducible :: "bool option"
  c_dev_mode_dirs :: "string list option"
  c_dev_mode_exact :: "bool option"
  c_require_runtime_dependencies :: "bool option"

text \<open>\<^verbatim>\<open>BuilderConfig(builder, root, plugin_name, build_config, target_config)\<close>.\<close>

definition init :: "builder \<Rightarrow> string \<Rightarrow> string \<Rightarrow> pydict \<Rightarrow> pydict \<Rightarrow> BuilderConfig" where
  "init b r p bc tc =
     \<lparr> builder = b, root = r, plugin_name = p, build_config = bc, target_config = tc,
       c_hook_config = None, c_versions = None, c_dependencies = None, c_sources = None,
       c_packages = None, c_force_include = None,
       c_include_spec = None, c_exclude_spec = None, c_artifact_spec = None,
       c_include_patterns = None, c_exclude_patterns = None, c_artifact_patterns = None,
       build_artifact_spec = None, build_force_include = [],
       c_directory = None, c_ignore_vcs = None, c_only_packages = None,
       c_reproducible = None, c_dev_mode_dirs = None, c_dev_mode_exact = None,
       c_require_runtime_dependencies = None \<rparr>"

text \<open>A property or method runs on the object and returns a value or raises; either way
  it leaves the object in some state.\<close>

type_synonym 'a run = "BuilderConfig \<Rightarrow> (error + 'a) \<times> BuilderConfig"

section \<open>Validation loops shared by the options\<close>

text \<open>
  \<^verbatim>\<open>for i, x in enumerate(xs, 1):\<close> raising a type error on a non-string and a value error
  on an empty string, and collecting the elements in order. \<open>kind\<close> is the first word of
  the message (\<^verbatim>\<open>Pattern\<close>, \<^verbatim>\<open>Directory\<close>, \<^verbatim>\<open>Version\<close>, \<^verbatim>\<open>Source\<close>, \<^verbatim>\<open>Package\<close>).
\<close>

definition must_be_string :: "string \<Rightarrow> nat \<Rightarrow> string \<Rightarrow> error" where
  "must_be_string kind i loc =
     TypeError (kind @ '' #'' @ str_nat i @ '' in field `'' @ loc @ ''` must be a string'')"

definition cannot_be_empty :: "string \<Rightarrow> nat \<Rightarrow> string \<Rightarrow> error" where
  "cannot_be_empty kind i loc =
     ValueError (kind @ '' #'' @ str_nat i @ '' in field `'' @ loc @ ''` cannot be an empty string'')"

definition must_be_array_of_strings :: "string \<Rightarrow> error" where
  "must_be_array_of_strings loc = TypeError (''Field `'' @ loc @ ''` must be an array of strings'')"

fun check_strings :: "string \<Rightarrow> string \<Rightarrow> nat \<Rightarrow> pyval list \<Rightarrow> error + string list" where
  "check_strings kind loc i [] = Inr []"
| "check_strings kind loc i (x # xs) =
     (case x of
        PStr str \<Rightarrow>
          if str = [] then Inl (cannot_be_empty kind i loc)
          else (case check_strings kind loc (Suc i) xs of
                  Inl e \<Rightarrow> Inl e
                | Inr r \<Rightarrow> Inr (str # r))
      | _ \<Rightarrow> Inl (must_be_string kind i loc))"

definition string_array :: "string \<Rightarrow> string \<Rightarrow> pyval \<Rightarrow> error + string list" where
  "string_array kind loc v =
     (case v of
        PList xs \<Rightarrow> check_strings kind loc 1 xs
      | _ \<Rightarrow> Inl (must_be_array_of_strings loc))"

text \<open>
  The recurring choice \<^verbatim>\<open>if key in self.target_config: ... else: ...\<close> of the table an
  option is read from and of the key path its messages name.
\<close>

definition target_location :: "string \<Rightarrow> BuilderConfig \<Rightarrow> string" where
  "target_location key s = ''tool.hatch.build.targets.'' @ plugin_name s @ ''.'' @ key"

definition global_location :: "string \<Rightarrow> string" where
  "global_location key = ''tool.hatch.build.'' @ key"

definition option_config :: "string \<Rightarrow> BuilderConfig \<Rightarrow> pydict \<times> string" where
  "option_config key s =
     (if dict_contains key (target_config s) then (target_config s, target_location key s)
      else (build_config s, global_location key))"

section \<open>Scalar options\<close>

text \<open>
  The five boolean options are five copies of one body, which differ in the key and the
  default: the target-level value when the key is there, else the global-level value, else
  the default; the value must be a boolean.
\<close>

definition must_be_boolean :: "string \<Rightarrow> error" where
  "must_be_boolean loc = TypeError (''Field `'' @ loc @ ''` must be a boolean'')"

definition boolean_option :: "string \<Rightarrow> bool \<Rightarrow> BuilderConfig \<Rightarrow> error + bool" where
  "boolean_option key dflt s =
     (case map_of (target_config s) key of
        Some v \<Rightarrow>
          (case v of
             PBool b \<Rightarrow> Inr b
           | _ \<Rightarrow> Inl (must_be_boolean (target_location key s)))
      | None \<Rightarrow>
          (case dict_get (build_config s) key (PBool dflt) of
             PBool b \<Rightarrow> Inr b
           | _ \<Rightarrow> Inl (must_be_boolean (global_location key))))"

definition ignore_vcs :: "bool run" where
  "ignore_vcs s =
     (case c_ignore_vcs s of
        Some v \<Rightarrow> (Inr v, s)
      | None \<Rightarrow>
          (case boolean_option ''ignore-vcs'' False s of
             Inl e \<Rightarrow> (Inl e, s)
           | Inr v \<Rightarrow> (Inr v, s\<lparr>c_ignore_vcs := Some v\<rparr>)))"

definition require_runtime_dependencies :: "bool run" where
  "require_runtime_dependencies s =
     (case c_require_runtime_dependencies s of
        Some v \<Rightarrow> (Inr v, s)
      | None \<Rightarrow>
          (case boolean_option ''require-runtime-dependencies'' False s of
             Inl e \<Rightarrow> (Inl e, s)
           | Inr v \<Rightarrow> (Inr v, s\<lparr>c_require_runtime_dependencies := Some v\<rparr>)))"

definition only_packages :: "bool run" where
  "only_packages s =
     (case c_only_packages s of
        Some v \<Rightarrow> (Inr v, s)
      | None \<Rightarrow>
          (case boolean_option ''only-packages'' False s of
             Inl e \<Rightarrow> (Inl e, s)
           | Inr v \<Rightarrow> (Inr v, s\<lparr>c_only_packages := Some v\<rparr>)))"

definition reproducible :: "bool run" where
  "reproducible s =
     (case c_reproducible s of
        Some v \<Rightarrow> (Inr v, s)
      | None \<Rightarrow>
          (case boolean_option ''reproducible'' True s of
             Inl e \<Rightarrow> (Inl e, s)
           | Inr v \<Rightarrow> (Inr v, s\<lparr>c_reproducible := Some v\<rparr>)))"

definition dev_mode_exact :: "bool run" where
  "dev_mode_exact s =
     (case c_dev_mode_exact s of
        Some v \<Rightarrow> (Inr v, s)
      | None \<Rightarrow>
          (case boolean_option ''dev-mode-exact'' False s of
             Inl e \<Rightarrow> (Inl e, s)
           | Inr v \<Rightarrow> (Inr v, s\<lparr>c_dev_mode_exact := Some v\<rparr>)))"

definition normalize_build_directory :: "world \<Rightarrow> string \<Rightarrow> BuilderConfig \<Rightarrow> string" where
  "normalize_build_directory w build_directory s =
     os_path_normpath w
       (if \<not> os_path_isabs w build_directory then os_path_join w (root s) build_directory
        else build_directory)"

definition must_be_a_string :: "string \<Rightarrow> error" where
  "must_be_a_string loc = TypeError (''Field `'' @ loc @ ''` must be a string'')"

definition configured_directory :: "world \<Rightarrow> BuilderConfig \<Rightarrow> error + string" where
  "configured_directory w s =
     (case map_of (target_config s) ''directory'' of
        Some v \<Rightarrow>
          (case v of
             PStr d \<Rightarrow> Inr d
           | _ \<Rightarrow> Inl (must_be_a_string (target_location ''directory'' s)))
      | None \<Rightarrow>
          (case dict_get (build_config s) ''directory'' (PStr (DEFAULT_BUILD_DIRECTORY w)) of
             PStr d \<Rightarrow> Inr d
           | _ \<Rightarrow> Inl (must_be_a_string (global_location ''directory''))))"

definition directory_option :: "world \<Rightarrow> BuilderConfig \<Rightarrow> error + string" where
  "directory_option w s =
     (case configured_directory w s of
        Inl e \<Rightarrow> Inl e
      | Inr d \<Rightarrow> Inr (normalize_build_directory w d s))"

definition directory :: "world \<Rightarrow> string run" where
  "directory w s =
     (case c_directory s of
        Some v \<Rightarrow> (Inr v, s)
      | None \<Rightarrow>
          (case directory_option w s of
             Inl e \<Rightarrow> (Inl e, s)
           | Inr v \<Rightarrow> (Inr v, s\<lparr>c_directory := Some v\<rparr>)))"

section \<open>List-valued options\<close>

definition dev_mode_dirs_option :: "BuilderConfig \<Rightarrow> error + string list" where
  "dev_mode_dirs_option s =
     (let (dev_mode_dirs_config, dev_mode_dirs_location) = option_config ''dev-mode-dirs'' s
      in string_array ''Directory'' dev_mode_dirs_location
           (dict_get dev_mode_dirs_config ''dev-mode-dirs'' (PList [])))"

definition dev_mode_dirs :: "string list run" where
  "dev_mode_dirs s =
     (case c_dev_mode_dirs s of
        Some v \<Rightarrow> (Inr v, s)
      | None \<Rightarrow>
          (case dev_mode_dirs_option s of
             Inl e \<Rightarrow> (Inl e, s)
           | Inr v \<Rightarrow> (Inr v, s\<lparr>c_dev_mode_dirs := Some v\<rparr>)))"

text \<open>\<^verbatim>\<open>default_include\<close>, \<^verbatim>\<open>default_exclude\<close>, \<^verbatim>\<open>default_packages\<close> and
  \<^verbatim>\<open>default_global_exclude\<close> of the base class.\<close>

definition default_include :: "pyval list" where
  "default_include = []"

definition default_exclude :: "pyval list" where
  "default_exclude = []"

definition default_packages :: "pyval list" where
  "default_packages = []"

definition default_global_exclude :: "string list" where
  "default_global_exclude = [''.git'', ''__pycache__'', ''*.py[cod]'']"

definition packages_option :: "world \<Rightarrow> BuilderConfig \<Rightarrow> error + string list" where
  "packages_option w s =
     (let (package_config, package_location) = option_config ''packages'' s
      in case string_array ''Package'' package_location
                (dict_get package_config ''packages'' (PList default_packages)) of
           Inl e \<Rightarrow> Inl e
         | Inr pkgs \<Rightarrow> Inr (sort (map (normalize_relative_path w) pkgs)))"

definition packages :: "world \<Rightarrow> string list run" where
  "packages w s =
     (case c_packages s of
        Some v \<Rightarrow> (Inr v, s)
      | None \<Rightarrow>
          (case packages_option w s of
             Inl e \<Rightarrow> (Inl e, s)
           | Inr v \<Rightarrow> (Inr v, s\<lparr>c_packages := Some v\<rparr>)))"

text \<open>\<^verbatim>\<open>versions\<close> reads the target-level table only.\<close>

definition versions_option :: "BuilderConfig \<Rightarrow> error + string list" where
  "versions_option s =
     (case string_array ''Version'' (target_location ''versions'' s)
             (dict_get (target_config s) ''versions'' (PList [])) of
        Inl e \<Rightarrow> Inl e
      | Inr vs \<Rightarrow>
          (let all_versions = ordered_set_extend [] vs
           in if all_versions = [] then
                Inr (ordered_set_extend all_versions (get_default_versions (builder s)))
              else
                (let unknown_versions = set all_versions - set (get_version_api (builder s))
                 in if unknown_versions \<noteq> {} then
                      Inl (ValueError
                        (''Unknown versions in field `'' @ target_location ''versions'' s @ ''`: ''
                          @ join '', '' (sorted_list_of_set unknown_versions)))
                    else Inr all_versions)))"

definition versions :: "string list run" where
  "versions s =
     (case c_versions s of
        Some v \<Rightarrow> (Inr v, s)
      | None \<Rightarrow>
          (case versions_option s of
             Inl e \<Rightarrow> (Inl e, s)
           | Inr v \<Rightarrow> (Inr v, s\<lparr>c_versions := Some v\<rparr>)))"

section \<open>Build hooks\<close>

text \<open>\<^verbatim>\<open>env_var_enabled(env_var, default=False)\<close>.\<close>

definition env_var_enabled :: "world \<Rightarrow> string \<Rightarrow> bool \<Rightarrow> bool" where
  "env_var_enabled w env_var dflt =
     (case os_environ w env_var of
        Some v \<Rightarrow> v = ''1'' \<or> v = ''true''
      | None \<Rightarrow> dflt)"

definition must_be_table :: "string \<Rightarrow> error" where
  "must_be_table loc = TypeError (''Field `'' @ loc @ ''` must be a table'')"

text \<open>The check of one hook table, entry by entry: every hook's options must be a table.
  \<open>loc\<close> is the key path of the hook table.\<close>

fun check_tables :: "string \<Rightarrow> pydict \<Rightarrow> error + (string \<times> pydict) list" where
  "check_tables loc [] = Inr []"
| "check_tables loc ((hook_name, config) # rest) =
     (case config of
        PDict d \<Rightarrow>
          (case check_tables loc rest of
             Inl e \<Rightarrow> Inl e
           | Inr r \<Rightarrow> Inr ((hook_name, d) # r))
      | _ \<Rightarrow> Inl (must_be_table (loc @ ''.'' @ hook_name)))"

text \<open>The last loop of \<^verbatim>\<open>hook_config\<close>: the hooks that stay.\<close>

definition hook_enabled :: "world \<Rightarrow> bool \<Rightarrow> string \<Rightarrow> pydict \<Rightarrow> bool" where
  "hook_enabled w all_hooks_enabled hook_name config =
     (all_hooks_enabled
      \<or> truthy (dict_get config ''enable-by-default'' (PBool True))
      \<or> env_var_enabled w (HOOK_ENABLE_PREFIX w @ str_upper w hook_name) False)"

definition final_hook_config :: "world \<Rightarrow> (string \<times> pydict) list \<Rightarrow> (string \<times> pydict) list" where
  "final_hook_config w hook_config =
     (if \<not> env_var_enabled w (NO_HOOKS w) False then
        (let all_hooks_enabled = env_var_enabled w (HOOKS_ENABLE w) False
         in fold (\<lambda>(hook_name, config) final.
                    if hook_enabled w all_hooks_enabled hook_name config
                    then AList.update hook_name config final else final)
              hook_config [])
      else [])"

definition hook_config_option :: "world \<Rightarrow> BuilderConfig \<Rightarrow> error + (string \<times> pydict) list" where
  "hook_config_option w s =
     (case dict_get (target_config s) ''hooks'' (PDict []) of
        PDict target_hook_config \<Rightarrow>
          (case check_tables (target_location ''hooks'' s) target_hook_config of
             Inl e \<Rightarrow> Inl e
           | Inr target_hooks \<Rightarrow>
               (case dict_get (build_config s) ''hooks'' (PDict []) of
                  PDict global_hook_config \<Rightarrow>
                    (case check_tables (global_location ''hooks'') global_hook_config of
                       Inl e \<Rightarrow> Inl e
                     | Inr global_hooks \<Rightarrow>
                         Inr (final_hook_config w
                                (fold (\<lambda>(hook_name, config). dict_setdefault hook_name config)
                                   global_hooks (dict_update [] target_hooks))))
                | _ \<Rightarrow> Inl (must_be_table (global_location ''hooks''))))
      | _ \<Rightarrow> Inl (must_be_table (target_location ''hooks'' s)))"

definition hook_config :: "world \<Rightarrow> (string \<times> pydict) list run" where
  "hook_config w s =
     (case c_hook_config s of
        Some v \<Rightarrow> (Inr v, s)
      | None \<Rightarrow>
          (case hook_config_option w s of
             Inl e \<Rightarrow> (Inl e, s)
           | Inr v \<Rightarrow> (Inr v, s\<lparr>c_hook_config := Some v\<rparr>)))"

section \<open>Dependencies\<close>

text \<open>The loops over a dependency list: every element must be a string (an empty one is
  accepted). \<open>place\<close> is the part of the message after the index.\<close>

fun check_dependencies :: "string \<Rightarrow> nat \<Rightarrow> pyval list \<Rightarrow> error + string list" where
  "check_dependencies place i [] = Inr []"
| "check_dependencies place i (x # xs) =
     (case x of
        PStr dependency \<Rightarrow>
          (case check_dependencies place (Suc i) xs of
             Inl e \<Rightarrow> Inl e
           | Inr r \<Rightarrow> Inr (dependency # r))
      | _ \<Rightarrow> Inl (TypeError (''Dependency #'' @ str_nat i @ '' of '' @ place @ '' must be a string'')))"

definition dependency_array :: "string \<Rightarrow> pyval \<Rightarrow> error + string list" where
  "dependency_array loc v =
     (case v of
        PList xs \<Rightarrow> check_dependencies (''field `'' @ loc @ ''`'') 1 xs
      | _ \<Rightarrow> Inl (TypeError (''Field `'' @ loc @ ''` must be an array'')))"

text \<open>The loop over the enabled hooks: it carries \<^verbatim>\<open>require_runtime_dependencies\<close> and the
  ordered set of dependencies.\<close>

fun hook_dependencies ::
  "(string \<times> pydict) list \<Rightarrow> bool \<times> string list \<Rightarrow> error + bool \<times> string list" where
  "hook_dependencies [] acc = Inr acc"
| "hook_dependencies ((hook_name, config) # rest) (rrd, deps) =
     (case dict_get config ''require-runtime-dependencies'' (PBool False) of
        PBool hook_rrd \<Rightarrow>
          (case dict_get config ''dependencies'' (PList []) of
             PList hook_deps \<Rightarrow>
               (case check_dependencies
                        (''option `dependencies` of build hook `'' @ hook_name @ ''`'') 1 hook_deps of
                  Inl e \<Rightarrow> Inl e
                | Inr ds \<Rightarrow>
                    hook_dependencies rest (rrd \<or> hook_rrd, ordered_set_extend deps ds))
           | _ \<Rightarrow>
               Inl (TypeError (''Option `dependencies` of build hook `'' @ hook_name
                                 @ ''` must be an array'')))
      | _ \<Rightarrow>
          Inl (TypeError (''Option `require-runtime-dependencies` of build hook `'' @ hook_name
                            @ ''` must be a boolean'')))"

text \<open>The first two loops of \<^verbatim>\<open>dependencies\<close>: the target-level list, then the
  global-level list, both added to one ordered set.\<close>

definition configured_dependencies :: "BuilderConfig \<Rightarrow> error + string list" where
  "configured_dependencies s =
     (case dependency_array (target_location ''dependencies'' s)
             (dict_get (target_config s) ''dependencies'' (PList [])) of
        Inl e \<Rightarrow> Inl e
      | Inr target_dependencies \<Rightarrow>
          (case dependency_array (global_location ''dependencies'')
                  (dict_get (build_config s) ''dependencies'' (PList [])) of
             Inl e \<Rightarrow> Inl e
           | Inr global_dependencies \<Rightarrow>
               Inr (ordered_set_extend (ordered_set_extend [] target_dependencies)
                      global_dependencies)))"

text \<open>The end of \<^verbatim>\<open>dependencies\<close>: the hooks' loop and the runtime dependencies.\<close>

definition all_dependencies ::
  "builder \<Rightarrow> (string \<times> pydict) list \<Rightarrow> bool \<Rightarrow> string list \<Rightarrow> error + string list" where
  "all_dependencies b hooks rrd deps =
     (case hook_dependencies hooks (rrd, deps) of
        Inl e \<Rightarrow> Inl e
      | Inr (rrd', deps') \<Rightarrow>
          Inr (if rrd' then ordered_set_extend deps' (metadata_core_dependencies b) else deps'))"

definition dependencies :: "world \<Rightarrow> string list run" where
  "dependencies w s =
     (case c_dependencies s of
        Some v \<Rightarrow> (Inr v, s)
      | None \<Rightarrow>
          (case configured_dependencies s of
             Inl e \<Rightarrow> (Inl e, s)
           | Inr deps \<Rightarrow>
               (case require_runtime_dependencies s of
                  (Inl e, s1) \<Rightarrow> (Inl e, s1)
                | (Inr rrd, s1) \<Rightarrow>
                    (case hook_config w s1 of
                       (Inl e, s2) \<Rightarrow> (Inl e, s2)
                     | (Inr hooks, s2) \<Rightarrow>
                         (case all_dependencies (builder s2) hooks rrd deps of
                            Inl e \<Rightarrow> (Inl e, s2)
                          | Inr v \<Rightarrow> (Inr v, s2\<lparr>c_dependencies := Some v\<rparr>))))))"

section \<open>The source map\<close>

definition path_must_be_string :: "string \<Rightarrow> string \<Rightarrow> error" where
  "path_must_be_string source loc =
     TypeError (''Path for source `'' @ source @ ''` in field `'' @ loc @ ''` must be a string'')"

text \<open>The mapping form of \<^verbatim>\<open>sources\<close>: the loop over \<^verbatim>\<open>raw_sources.items()\<close>.\<close>

fun mapping_sources ::
  "world \<Rightarrow> string \<Rightarrow> nat \<Rightarrow> pydict \<Rightarrow> (string \<times> string) list \<Rightarrow> error + (string \<times> string) list" where
  "mapping_sources w loc i [] sources = Inr sources"
| "mapping_sources w loc i ((source, path) # rest) sources =
     (if source = [] then Inl (cannot_be_empty ''Source'' i loc)
      else
        (case path of
           PStr p \<Rightarrow>
             (let normalized_path = normalize_relative_path w p;
                  normalized_path = (if normalized_path \<noteq> []
                                     then normalized_path @ [os_path_sep w]
                                     else normalized_path)
              in mapping_sources w loc (Suc i) rest
                   (AList.update (normalize_relative_directory w source) normalized_path sources))
         | _ \<Rightarrow> Inl (path_must_be_string source loc)))"

definition explicit_sources :: "world \<Rightarrow> string \<Rightarrow> pyval \<Rightarrow> error + (string \<times> string) list" where
  "explicit_sources w loc raw_sources =
     (case raw_sources of
        PList xs \<Rightarrow>
          (case check_strings ''Source'' loc 1 xs of
             Inl e \<Rightarrow> Inl e
           | Inr srcs \<Rightarrow>
               Inr (fold (\<lambda>source. AList.update (normalize_relative_directory w source) [])
                      srcs []))
      | PDict d \<Rightarrow> mapping_sources w loc 1 d []
      | _ \<Rightarrow> Inl (TypeError (''Field `'' @ loc @ ''` must be a mapping or array of strings'')))"

text \<open>The loop \<^verbatim>\<open>for relative_path in self.packages:\<close> of \<^verbatim>\<open>sources\<close>.\<close>

definition add_package_source ::
  "world \<Rightarrow> string \<Rightarrow> (string \<times> string) list \<Rightarrow> (string \<times> string) list" where
  "add_package_source w relative_path sources =
     (let (source, package) = os_path_split w relative_path
      in if source \<noteq> []
            \<and> \<not> dict_contains (normalize_relative_directory w relative_path) sources
         then AList.update (normalize_relative_directory w source) [] sources
         else sources)"

definition package_sources ::
  "world \<Rightarrow> string list \<Rightarrow> (string \<times> string) list \<Rightarrow> (string \<times> string) list" where
  "package_sources w pkgs sources = fold (add_package_source w) pkgs sources"

definition sources_option :: "world \<Rightarrow> BuilderConfig \<Rightarrow> error + (string \<times> string) list" where
  "sources_option w s =
     (let (sources_config, sources_location) = option_config ''sources'' s
      in explicit_sources w sources_location (dict_get sources_config ''sources'' (PList [])))"

definition sources :: "world \<Rightarrow> (string \<times> string) list run" where
  "sources w s =
     (case c_sources s of
        Some v \<Rightarrow> (Inr v, s)
      | None \<Rightarrow>
          (case sources_option w s of
             Inl e \<Rightarrow> (Inl e, s)
           | Inr srcs \<Rightarrow>
               (case packages w s of
                  (Inl e, s1) \<Rightarrow> (Inl e, s1)
                | (Inr pkgs, s1) \<Rightarrow>
                    (let v = sort (package_sources w pkgs srcs)
                     in (Inr v, s1\<lparr>c_sources := Some v\<rparr>)))))"

text \<open>\<^verbatim>\<open>get_distribution_path\<close>: the loop over the items of the source map, and the
  method.\<close>

fun distribution_path :: "(string \<times> string) list \<Rightarrow> string \<Rightarrow> string" where
  "distribution_path [] relative_path = relative_path"
| "distribution_path ((source, replacement) # rest) relative_path =
     (if prefix source relative_path then replace_first source replacement relative_path
      else distribution_path rest relative_path)"

definition get_distribution_path :: "world \<Rightarrow> string \<Rightarrow> string run" where
  "get_distribution_path w relative_path s =
     (case sources w s of
        (Inl e, s1) \<Rightarrow> (Inl e, s1)
      | (Inr srcs, s1) \<Rightarrow> (Inr (distribution_path srcs relative_path), s1))"

section \<open>Forced inclusion\<close>

fun check_force_include :: "string \<Rightarrow> nat \<Rightarrow> pydict \<Rightarrow> error + (string \<times> string) list" where
  "check_force_include loc i [] = Inr []"
| "check_force_include loc i ((source, relative_path) # rest) =
     (if source = [] then Inl (cannot_be_empty ''Source'' i loc)
      else
        (case relative_path of
           PStr p \<Rightarrow>
             if p = [] then
               Inl (ValueError (''Path for source `'' @ source @ ''` in field `'' @ loc
                                  @ ''` cannot be an empty string''))
             else
               (case check_force_include loc (Suc i) rest of
                  Inl e \<Rightarrow> Inl e
                | Inr r \<Rightarrow> Inr ((source, p) # r))
         | _ \<Rightarrow> Inl (path_must_be_string source loc)))"

definition force_include_option :: "world \<Rightarrow> BuilderConfig \<Rightarrow> error + (string \<times> string) list" where
  "force_include_option w s =
     (let (force_include_config, force_include_location) = option_config ''force-include'' s
      in case dict_get force_include_config ''force-include'' (PDict []) of
           PDict d \<Rightarrow>
             (case check_force_include force_include_location 1 d of
                Inl e \<Rightarrow> Inl e
              | Inr m \<Rightarrow> normalize_inclusion_map w m (root s))
         | _ \<Rightarrow> Inl (TypeError (''Field `'' @ force_include_location @ ''` must be a mapping'')))"

definition force_include :: "world \<Rightarrow> (string \<times> string) list run" where
  "force_include w s =
     (case c_force_include s of
        Some v \<Rightarrow> (Inr v, s)
      | None \<Rightarrow>
          (case force_include_option w s of
             Inl e \<Rightarrow> (Inl e, s)
           | Inr v \<Rightarrow> (Inr v, s\<lparr>c_force_include := Some v\<rparr>)))"

definition get_force_include :: "world \<Rightarrow> (string \<times> string) list run" where
  "get_force_include w s =
     (case force_include w s of
        (Inl e, s1) \<Rightarrow> (Inl e, s1)
      | (Inr fi, s1) \<Rightarrow> (Inr (dict_update fi (build_force_include s1)), s1))"

section \<open>Pattern specifications\<close>

text \<open>The pattern a declared package adds to the include patterns: the path with
  \<^verbatim>\<open>os.path.sep\<close> replaced by a forward slash, between two forward slashes.\<close>

definition package_pattern :: "world \<Rightarrow> string \<Rightarrow> string" where
  "package_pattern w relative_path =
     ''/'' @ map (\<lambda>c. if c = os_path_sep w then CHR ''/'' else c) relative_path @ ''/''"

definition include_patterns_option :: "BuilderConfig \<Rightarrow> error + string list" where
  "include_patterns_option s =
     (let (include_config, include_location) = option_config ''include'' s
      in string_array ''Pattern'' include_location
           (dict_get include_config ''include'' (PList default_include)))"

definition include_spec :: "world \<Rightarrow> PathSpec option run" where
  "include_spec w s =
     (if c_include_patterns s = None then
        (case include_patterns_option s of
           Inl e \<Rightarrow> (Inl e, s)
         | Inr include_patterns \<Rightarrow>
             (case packages w s of
                (Inl e, s1) \<Rightarrow> (Inl e, s1)
              | (Inr pkgs, s1) \<Rightarrow>
                  (let all_include_patterns = include_patterns @ map (package_pattern w) pkgs
                   in case compile_patterns w all_include_patterns of
                        Inl e \<Rightarrow> (Inl e, s1)
                      | Inr compiled \<Rightarrow>
                          (let s2 = (case compiled of
                                       Some spec \<Rightarrow> s1\<lparr>c_include_spec := Some spec\<rparr>
                                     | None \<Rightarrow> s1);
                               s3 = s2\<lparr>c_include_patterns := Some all_include_patterns\<rparr>
                           in (Inr (c_include_spec s3), s3)))))
      else (Inr (c_include_spec s), s))"

definition load_vcs_ignore_patterns :: "world \<Rightarrow> BuilderConfig \<Rightarrow> string list" where
  "load_vcs_ignore_patterns w s =
     (case locate_file w (root s) ''.gitignore'' of
        None \<Rightarrow> []
      | Some default_exclusion_file \<Rightarrow> readlines w default_exclusion_file)"

definition exclude_patterns_option :: "BuilderConfig \<Rightarrow> error + string list" where
  "exclude_patterns_option s =
     (let (exclude_config, exclude_location) = option_config ''exclude'' s
      in string_array ''Pattern'' exclude_location
           (dict_get exclude_config ''exclude'' (PList default_exclude)))"

definition exclude_spec :: "world \<Rightarrow> PathSpec option run" where
  "exclude_spec w s =
     (if c_exclude_patterns s = None then
        (case exclude_patterns_option s of
           Inl e \<Rightarrow> (Inl e, s)
         | Inr exclude_patterns \<Rightarrow>
             (case ignore_vcs s of
                (Inl e, s1) \<Rightarrow> (Inl e, s1)
              | (Inr no_vcs, s1) \<Rightarrow>
                  (let all_exclude_patterns =
                         default_global_exclude @ exclude_patterns
                         @ (if \<not> no_vcs then load_vcs_ignore_patterns w s1 else [])
                   in case compile_patterns w all_exclude_patterns of
                        Inl e \<Rightarrow> (Inl e, s1)
                      | Inr compiled \<Rightarrow>
                          (let s2 = (case compiled of
                                       Some spec \<Rightarrow> s1\<lparr>c_exclude_spec := Some spec\<rparr>
                                     | None \<Rightarrow> s1);
                               s3 = s2\<lparr>c_exclude_patterns := Some all_exclude_patterns\<rparr>
                           in (Inr (c_exclude_spec s3), s3)))))
      else (Inr (c_exclude_spec s), s))"

definition artifact_patterns_option :: "BuilderConfig \<Rightarrow> error + string list" where
  "artifact_patterns_option s =
     (let (artifact_config, artifact_location) = option_config ''artifacts'' s
      in string_array ''Pattern'' artifact_location
           (dict_get artifact_config ''artifacts'' (PList [])))"

definition artifact_spec :: "world \<Rightarrow> PathSpec option run" where
  "artifact_spec w s =
     (if c_artifact_patterns s = None then
        (case artifact_patterns_option s of
           Inl e \<Rightarrow> (Inl e, s)
         | Inr all_artifact_patterns \<Rightarrow>
             (case compile_patterns w all_artifact_patterns of
                Inl e \<Rightarrow> (Inl e, s)
              | Inr compiled \<Rightarrow>
                  (let s2 = (case compiled of
                               Some spec \<Rightarrow> s\<lparr>c_artifact_spec := Some spec\<rparr>
                             | None \<Rightarrow> s);
                       s3 = s2\<lparr>c_artifact_patterns := Some all_artifact_patterns\<rparr>
                   in (Inr (c_artifact_spec s3), s3))))
      else (Inr (c_artifact_spec s), s))"

section \<open>The inclusion decision\<close>

text \<open>\<^verbatim>\<open>spec.match_file(relative_path)\<close> on a compiled specification.\<close>

fun spec_match :: "world \<Rightarrow> PathSpec \<Rightarrow> string \<Rightarrow> bool" where
  "spec_match w (PathSpec lines) relative_path = match_file w lines relative_path"

definition path_is_included :: "world \<Rightarrow> string \<Rightarrow> bool run" where
  "path_is_included w relative_path s =
     (case include_spec w s of
        (Inl e, s1) \<Rightarrow> (Inl e, s1)
      | (Inr None, s1) \<Rightarrow> (Inr True, s1)
      | (Inr (Some spec), s1) \<Rightarrow> (Inr (spec_match w spec relative_path), s1))"

definition path_is_excluded :: "world \<Rightarrow> string \<Rightarrow> bool run" where
  "path_is_excluded w relative_path s =
     (case exclude_spec w s of
        (Inl e, s1) \<Rightarrow> (Inl e, s1)
      | (Inr None, s1) \<Rightarrow> (Inr False, s1)
      | (Inr (Some spec), s1) \<Rightarrow> (Inr (spec_match w spec relative_path), s1))"

definition path_is_artifact :: "world \<Rightarrow> string \<Rightarrow> bool run" where
  "path_is_artifact w relative_path s =
     (case artifact_spec w s of
        (Inl e, s1) \<Rightarrow> (Inl e, s1)
      | (Inr None, s1) \<Rightarrow> (Inr False, s1)
      | (Inr (Some spec), s1) \<Rightarrow> (Inr (spec_match w spec relative_path), s1))"

definition path_is_build_artifact :: "world \<Rightarrow> string \<Rightarrow> BuilderConfig \<Rightarrow> bool" where
  "path_is_build_artifact w relative_path s =
     (case build_artifact_spec s of
        None \<Rightarrow> False
      | Some spec \<Rightarrow> spec_match w spec relative_path)"

text \<open>\<^verbatim>\<open>include_path\<close>: Python's \<^verbatim>\<open>or\<close> and \<^verbatim>\<open>and\<close> evaluate their right operand only
  when the left one does not decide.\<close>

definition include_path :: "world \<Rightarrow> string \<Rightarrow> bool \<Rightarrow> bool run" where
  "include_path w relative_path is_package s =
     (if path_is_build_artifact w relative_path s then (Inr True, s)
      else
        (case path_is_artifact w relative_path s of
           (Inl e, s1) \<Rightarrow> (Inl e, s1)
         | (Inr True, s1) \<Rightarrow> (Inr True, s1)
         | (Inr False, s1) \<Rightarrow>
             (case only_packages s1 of
                (Inl e, s2) \<Rightarrow> (Inl e, s2)
              | (Inr only_pkgs, s2) \<Rightarrow>
                  if only_pkgs \<and> \<not> is_package then (Inr False, s2)
                  else
                    (case path_is_included w relative_path s2 of
                       (Inl e, s3) \<Rightarrow> (Inl e, s3)
                     | (Inr False, s3) \<Rightarrow> (Inr False, s3)
                     | (Inr True, s3) \<Rightarrow>
                         (case path_is_excluded w relative_path s3 of
                            (Inl e, s4) \<Rightarrow> (Inl e, s4)
                          | (Inr excluded, s4) \<Rightarrow> (Inr (\<not> excluded), s4))))))"

section \<open>The build-time overlay\<close>

text \<open>The build data of a hook: the \<^verbatim>\<open>artifacts\<close> pattern list and the
  \<^verbatim>\<open>force-include\<close> mapping.\<close>

record build_data =
  bd_artifacts :: "string list"
  bd_force_include :: "(string \<times> string) list"

text \<open>The \<^verbatim>\<open>finally\<close> block of \<^verbatim>\<open>set_build_data\<close>.\<close>

definition clear_build_data :: "BuilderConfig \<Rightarrow> BuilderConfig" where
  "clear_build_data s = s\<lparr>build_artifact_spec := None, build_force_include := []\<rparr>"

text \<open>The part of \<^verbatim>\<open>set_build_data\<close> before \<^verbatim>\<open>yield\<close>.\<close>

definition enter_build_data :: "world \<Rightarrow> build_data \<Rightarrow> unit run" where
  "enter_build_data w bd s =
     (case compile_patterns w (bd_artifacts bd) of
        Inl e \<Rightarrow> (Inl e, s)
      | Inr compiled \<Rightarrow>
          (let s1 = (case compiled of
                       Some spec \<Rightarrow> s\<lparr>build_artifact_spec := Some spec\<rparr>
                     | None \<Rightarrow> s)
           in case normalize_inclusion_map w (bd_force_include bd) (root s1) of
                Inl e \<Rightarrow> (Inl e, s1)
              | Inr m \<Rightarrow>
                  (Inr (), s1\<lparr>build_force_include := dict_update (build_force_include s1) m\<rparr>)))"

text \<open>\<^verbatim>\<open>with config.set_build_data(build_data): body\<close>. The context manager wraps entry
  and \<^verbatim>\<open>yield\<close> in \<^verbatim>\<open>try: ... finally:\<close>, so the \<^verbatim>\<open>finally\<close> block runs when the entry
  raises, when the body raises and when the body returns.\<close>

definition set_build_data :: "world \<Rightarrow> build_data \<Rightarrow> 'a run \<Rightarrow> 'a run" where
  "set_build_data w bd body s =
     (case enter_build_data w bd s of
        (Inl e, s1) \<Rightarrow> (Inl e, clear_build_data s1)
      | (Inr u, s1) \<Rightarrow> (case body s1 of (r, s2) \<Rightarrow> (r, clear_build_data s2)))"

section \<open>Memoization is sound\<close>

text \<open>
  A backing field, once set, holds what its property computes from the configuration. The
  predicate \<open>consistent\<close> says so of every backing field; it holds of a new object and
  every property preserves it, so it holds in every state the object reaches. \<open>fresh s\<close> is
  \<open>s\<close> with every backing field unset and no build data: the five arguments of the
  constructor. What a property computes depends on \<open>fresh s\<close> only.
\<close>

definition fresh :: "BuilderConfig \<Rightarrow> BuilderConfig" where
  "fresh s =
     s\<lparr> c_hook_config := None, c_versions := None, c_dependencies := None, c_sources := None,
        c_packages := None, c_force_include := None,
        c_include_spec := None, c_exclude_spec := None, c_artifact_spec := None,
        c_include_patterns := None, c_exclude_patterns := None, c_artifact_patterns := None,
        c_directory := None, c_ignore_vcs := None, c_only_packages := None,
        c_reproducible := None, c_dev_mode_dirs := None, c_dev_mode_exact := None,
        c_require_runtime_dependencies := None,
        build_artifact_spec := None, build_force_include := [] \<rparr>"

definition on_config :: "(BuilderConfig \<Rightarrow> 'a) \<Rightarrow> BuilderConfig \<Rightarrow> 'a" where
  "on_config f s = f (fresh s)"

definition agrees :: "'a option \<Rightarrow> error + 'a \<Rightarrow> bool" where
  "agrees cache v = (case cache of None \<Rightarrow> True | Some x \<Rightarrow> v = Inr x)"

definition spec_of :: "string list \<Rightarrow> PathSpec option" where
  "spec_of pats = (if pats \<noteq> [] then Some (PathSpec pats) else None)"

text \<open>A pattern list that is cached has been compiled: \<open>compiled w v\<close> is the list \<open>v\<close>,
  or the error of compiling it.\<close>

definition compiled :: "world \<Rightarrow> error + string list \<Rightarrow> error + string list" where
  "compiled w v =
     (case v of
        Inl e \<Rightarrow> Inl e
      | Inr pats \<Rightarrow>
          (case compile_patterns w pats of
             Inl e \<Rightarrow> Inl e
           | Inr spec \<Rightarrow> Inr pats))"

definition include_patterns_value :: "world \<Rightarrow> BuilderConfig \<Rightarrow> error + string list" where
  "include_patterns_value w s =
     (case include_patterns_option s of
        Inl e \<Rightarrow> Inl e
      | Inr include_patterns \<Rightarrow>
          (case packages_option w s of
             Inl e \<Rightarrow> Inl e
           | Inr pkgs \<Rightarrow> Inr (include_patterns @ map (package_pattern w) pkgs)))"

definition exclude_patterns_value :: "world \<Rightarrow> BuilderConfig \<Rightarrow> error + string list" where
  "exclude_patterns_value w s =
     (case exclude_patterns_option s of
        Inl e \<Rightarrow> Inl e
      | Inr exclude_patterns \<Rightarrow>
          (case boolean_option ''ignore-vcs'' False s of
             Inl e \<Rightarrow> Inl e
           | Inr no_vcs \<Rightarrow>
               Inr (default_global_exclude @ exclude_patterns
                    @ (if \<not> no_vcs then load_vcs_ignore_patterns w s else []))))"

definition sources_value :: "world \<Rightarrow> BuilderConfig \<Rightarrow> error + (string \<times> string) list" where
  "sources_value w s =
     (case sources_option w s of
        Inl e \<Rightarrow> Inl e
      | Inr srcs \<Rightarrow>
          (case packages_option w s of
             Inl e \<Rightarrow> Inl e
           | Inr pkgs \<Rightarrow> Inr (sort (package_sources w pkgs srcs))))"

definition dependencies_value :: "world \<Rightarrow> BuilderConfig \<Rightarrow> error + string list" where
  "dependencies_value w s =
     (case configured_dependencies s of
        Inl e \<Rightarrow> Inl e
      | Inr deps \<Rightarrow>
          (case boolean_option ''require-runtime-dependencies'' False s of
             Inl e \<Rightarrow> Inl e
           | Inr rrd \<Rightarrow>
               (case hook_config_option w s of
                  Inl e \<Rightarrow> Inl e
                | Inr hooks \<Rightarrow> all_dependencies (builder s) hooks rrd deps)))"

definition consistent :: "world \<Rightarrow> BuilderConfig \<Rightarrow> bool" where
  "consistent w s =
     (agrees (c_hook_config s) (hook_config_option w s)
      \<and> agrees (c_versions s) (versions_option s)
      \<and> agrees (c_dependencies s) (dependencies_value w s)
      \<and> agrees (c_sources s) (sources_value w s)
      \<and> agrees (c_packages s) (packages_option w s)
      \<and> agrees (c_force_include s) (force_include_option w s)
      \<and> agrees (c_include_patterns s) (compiled w (include_patterns_value w s))
      \<and> c_include_spec s = Option.bind (c_include_patterns s) spec_of
      \<and> agrees (c_exclude_patterns s) (compiled w (exclude_patterns_value w s))
      \<and> c_exclude_spec s = Option.bind (c_exclude_patterns s) spec_of
      \<and> agrees (c_artifact_patterns s) (compiled w (artifact_patterns_option s))
      \<and> c_artifact_spec s = Option.bind (c_artifact_patterns s) spec_of
      \<and> agrees (c_directory s) (directory_option w s)
      \<and> agrees (c_ignore_vcs s) (boolean_option ''ignore-vcs'' False s)
      \<and> agrees (c_only_packages s) (boolean_option ''only-packages'' False s)
      \<and> agrees (c_reproducible s) (boolean_option ''reproducible'' True s)
      \<and> agrees (c_dev_mode_dirs s) (dev_mode_dirs_option s)
      \<and> agrees (c_dev_mode_exact s) (boolean_option ''dev-mode-exact'' False s)
      \<and> agrees (c_require_runtime_dependencies s)
            (boolean_option ''require-runtime-dependencies'' False s))"

lemma agrees_simps [simp]:
  "agrees None v" "agrees (Some x) v = (v = Inr x)" "agrees c (Inl e) = (c = None)"
  by (simp_all add: agrees_def split: option.splits)

lemma agrees_Inr: "agrees c (Inr x) = (c = None \<or> c = Some x)"
  by (auto simp: agrees_def split: option.splits)

lemma fresh_fields [simp]:
  "builder (fresh s) = builder s" "root (fresh s) = root s" "plugin_name (fresh s) = plugin_name s"
  "build_config (fresh s) = build_config s" "target_config (fresh s) = target_config s"
  by (simp_all add: fresh_def)

lemma fresh_update [simp]:
  "fresh (s\<lparr>c_hook_config := a1\<rparr>) = fresh s"
  "fresh (s\<lparr>c_versions := a2\<rparr>) = fresh s"
  "fresh (s\<lparr>c_dependencies := a3\<rparr>) = fresh s"
  "fresh (s\<lparr>c_sources := a4\<rparr>) = fresh s"
  "fresh (s\<lparr>c_packages := a5\<rparr>) = fresh s"
  "fresh (s\<lparr>c_force_include := a6\<rparr>) = fresh s"
  "fresh (s\<lparr>c_include_spec := a7\<rparr>) = fresh s"
  "fresh (s\<lparr>c_exclude_spec := a8\<rparr>) = fresh s"
  "fresh (s\<lparr>c_artifact_spec := a9\<rparr>) = fresh s"
  "fresh (s\<lparr>c_include_patterns := a10\<rparr>) = fresh s"
  "fresh (s\<lparr>c_exclude_patterns := a11\<rparr>) = fresh s"
  "fresh (s\<lparr>c_artifact_patterns := a12\<rparr>) = fresh s"
  "fresh (s\<lparr>c_directory := a13\<rparr>) = fresh s"
  "fresh (s\<lparr>c_ignore_vcs := a14\<rparr>) = fresh s"
  "fresh (s\<lparr>c_only_packages := a15\<rparr>) = fresh s"
  "fresh (s\<lparr>c_reproducible := a16\<rparr>) = fresh s"
  "fresh (s\<lparr>c_dev_mode_dirs := a17\<rparr>) = fresh s"
  "fresh (s\<lparr>c_dev_mode_exact := a18\<rparr>) = fresh s"
  "fresh (s\<lparr>c_require_runtime_dependencies := a19\<rparr>) = fresh s"
  "fresh (s\<lparr>build_artifact_spec := a20\<rparr>) = fresh s"
  "fresh (s\<lparr>build_force_include := a21\<rparr>) = fresh s"
  by (simp_all add: fresh_def)

lemma fresh_fresh [simp]: "fresh (fresh s) = fresh s"
  by (simp add: fresh_def)

lemma on_config_update [simp]:
  "on_config f (s\<lparr>c_hook_config := a1\<rparr>) = on_config f s"
  "on_config f (s\<lparr>c_versions := a2\<rparr>) = on_config f s"
  "on_config f (s\<lparr>c_dependencies := a3\<rparr>) = on_config f s"
  "on_config f (s\<lparr>c_sources := a4\<rparr>) = on_config f s"
  "on_config f (s\<lparr>c_packages := a5\<rparr>) = on_config f s"
  "on_config f (s\<lparr>c_force_include := a6\<rparr>) = on_config f s"
  "on_config f (s\<lparr>c_include_spec := a7\<rparr>) = on_config f s"
  "on_config f (s\<lparr>c_exclude_spec := a8\<rparr>) = on_config f s"
  "on_config f (s\<lparr>c_artifact_spec := a9\<rparr>) = on_config f s"
  "on_config f (s\<lparr>c_include_patterns := a10\<rparr>) = on_config f s"
  "on_config f (s\<lparr>c_exclude_patterns := a11\<rparr>) = on_config f s"
  "on_config f (s\<lparr>c_artifact_patterns := a12\<rparr>) = on_config f s"
  "on_config f (s\<lparr>c_directory := a13\<rparr>) = on_config f s"
  "on_config f (s\<lparr>c_ignore_vcs := a14\<rparr>) = on_config f s"
  "on_config f (s\<lparr>c_only_packages := a15\<rparr>) = on_config f s"
  "on_config f (s\<lparr>c_reproducible := a16\<rparr>) = on_config f s"
  "on_config f (s\<lparr>c_dev_mode_dirs := a17\<rparr>) = on_config f s"
  "on_config f (s\<lparr>c_dev_mode_exact := a18\<rparr>) = on_config f s"
  "on_config f (s\<lparr>c_require_runtime_dependencies := a19\<rparr>) = on_config f s"
  "on_config f (s\<lparr>build_artifact_spec := a20\<rparr>) = on_config f s"
  "on_config f (s\<lparr>build_force_include := a21\<rparr>) = on_config f s"
  by (simp_all add: on_config_def)

named_theorems on_cfg

lemma target_location_cfg [on_cfg]: "target_location key s = on_config (target_location key) s"
  unfolding on_config_def target_location_def fresh_fields by (rule refl)

lemma option_config_cfg [on_cfg]: "option_config key s = on_config (option_config key) s"
  unfolding on_config_def option_config_def target_location_def fresh_fields by (rule refl)

lemma boolean_option_cfg [on_cfg]: "boolean_option key d s = on_config (boolean_option key d) s"
  unfolding on_config_def boolean_option_def target_location_def fresh_fields by (rule refl)

lemma directory_option_cfg [on_cfg]: "directory_option w s = on_config (directory_option w) s"
  unfolding on_config_def directory_option_def configured_directory_def
    normalize_build_directory_def target_location_def fresh_fields by (rule refl)

lemma dev_mode_dirs_option_cfg [on_cfg]: "dev_mode_dirs_option s = on_config dev_mode_dirs_option s"
  unfolding on_config_def dev_mode_dirs_option_def option_config_def target_location_def fresh_fields by (rule refl)

lemma packages_option_cfg [on_cfg]: "packages_option w s = on_config (packages_option w) s"
  unfolding on_config_def packages_option_def option_config_def target_location_def fresh_fields by (rule refl)

lemma versions_option_cfg [on_cfg]: "versions_option s = on_config versions_option s"
  unfolding on_config_def versions_option_def target_location_def fresh_fields by (rule refl)

lemma hook_config_option_cfg [on_cfg]: "hook_config_option w s = on_config (hook_config_option w) s"
  unfolding on_config_def hook_config_option_def target_location_def fresh_fields by (rule refl)

lemma configured_dependencies_cfg [on_cfg]:
  "configured_dependencies s = on_config configured_dependencies s"
  unfolding on_config_def configured_dependencies_def target_location_def fresh_fields by (rule refl)

lemma sources_option_cfg [on_cfg]: "sources_option w s = on_config (sources_option w) s"
  unfolding on_config_def sources_option_def option_config_def target_location_def fresh_fields by (rule refl)

lemma force_include_option_cfg [on_cfg]:
  "force_include_option w s = on_config (force_include_option w) s"
  unfolding on_config_def force_include_option_def option_config_def target_location_def fresh_fields by (rule refl)

lemma include_patterns_option_cfg [on_cfg]:
  "include_patterns_option s = on_config include_patterns_option s"
  unfolding on_config_def include_patterns_option_def option_config_def target_location_def fresh_fields by (rule refl)

lemma exclude_patterns_option_cfg [on_cfg]:
  "exclude_patterns_option s = on_config exclude_patterns_option s"
  unfolding on_config_def exclude_patterns_option_def option_config_def target_location_def fresh_fields by (rule refl)

lemma artifact_patterns_option_cfg [on_cfg]:
  "artifact_patterns_option s = on_config artifact_patterns_option s"
  unfolding on_config_def artifact_patterns_option_def option_config_def target_location_def fresh_fields by (rule refl)

lemma load_vcs_ignore_patterns_cfg [on_cfg]:
  "load_vcs_ignore_patterns w s = on_config (load_vcs_ignore_patterns w) s"
  unfolding on_config_def load_vcs_ignore_patterns_def fresh_fields by (rule refl)


lemma include_patterns_value_cfg [on_cfg]:
  "include_patterns_value w s = on_config (include_patterns_value w) s"
  unfolding on_config_def include_patterns_value_def include_patterns_option_def
    packages_option_def option_config_def target_location_def fresh_fields by (rule refl)

lemma exclude_patterns_value_cfg [on_cfg]:
  "exclude_patterns_value w s = on_config (exclude_patterns_value w) s"
  unfolding on_config_def exclude_patterns_value_def exclude_patterns_option_def
    boolean_option_def load_vcs_ignore_patterns_def option_config_def target_location_def
    fresh_fields by (rule refl)

lemma sources_value_cfg [on_cfg]: "sources_value w s = on_config (sources_value w) s"
  unfolding on_config_def sources_value_def sources_option_def
    packages_option_def option_config_def target_location_def fresh_fields by (rule refl)

lemma dependencies_value_cfg [on_cfg]:
  "dependencies_value w s = on_config (dependencies_value w) s"
  unfolding on_config_def dependencies_value_def configured_dependencies_def
    boolean_option_def hook_config_option_def target_location_def fresh_fields by (rule refl)

lemma frameD:
  assumes "fresh t = fresh s"
  shows "on_config f t = on_config f s"
    and "builder t = builder s" and "root t = root s" and "plugin_name t = plugin_name s"
    and "build_config t = build_config s" and "target_config t = target_config s"
  using assms fresh_fields by (simp add: on_config_def, metis+)

lemma ignore_vcs_fresh: "fresh (snd (ignore_vcs s)) = fresh s"
  by (simp add: ignore_vcs_def split: option.splits sum.splits)

lemmas ignore_vcs_frame [simp] = frameD [OF ignore_vcs_fresh]

lemma ignore_vcs_value:
  "consistent w s \<Longrightarrow> fst (ignore_vcs s) = boolean_option ''ignore-vcs'' False s"
  by (auto simp: ignore_vcs_def consistent_def split: option.splits sum.splits)

lemma ignore_vcs_inv: "consistent w s \<Longrightarrow> consistent w (snd (ignore_vcs s))"
  by (auto simp: ignore_vcs_def consistent_def on_cfg split: option.splits sum.splits)


lemma require_runtime_dependencies_fresh: "fresh (snd (require_runtime_dependencies s)) = fresh s"
  by (simp add: require_runtime_dependencies_def Let_def split: option.splits sum.splits)

lemmas require_runtime_dependencies_frame [simp] = frameD [OF require_runtime_dependencies_fresh]

lemma require_runtime_dependencies_value:
  "consistent w s \<Longrightarrow> fst (require_runtime_dependencies s) = boolean_option ''require-runtime-dependencies'' False s"
  by (auto simp: require_runtime_dependencies_def consistent_def Let_def  split: option.splits sum.splits)

lemma require_runtime_dependencies_inv: "consistent w s \<Longrightarrow> consistent w (snd (require_runtime_dependencies s))"
  by (auto simp: require_runtime_dependencies_def consistent_def on_cfg Let_def  split: option.splits sum.splits)

lemma only_packages_fresh: "fresh (snd (only_packages s)) = fresh s"
  by (simp add: only_packages_def Let_def split: option.splits sum.splits)

lemmas only_packages_frame [simp] = frameD [OF only_packages_fresh]

lemma only_packages_value:
  "consistent w s \<Longrightarrow> fst (only_packages s) = boolean_option ''only-packages'' False s"
  by (auto simp: only_packages_def consistent_def Let_def  split: option.splits sum.splits)

lemma only_packages_inv: "consistent w s \<Longrightarrow> consistent w (snd (only_packages s))"
  by (auto simp: only_packages_def consistent_def on_cfg Let_def  split: option.splits sum.splits)

lemma reproducible_fresh: "fresh (snd (reproducible s)) = fresh s"
  by (simp add: reproducible_def Let_def split: option.splits sum.splits)

lemmas reproducible_frame [simp] = frameD [OF reproducible_fresh]

lemma reproducible_value:
  "consistent w s \<Longrightarrow> fst (reproducible s) = boolean_option ''reproducible'' True s"
  by (auto simp: reproducible_def consistent_def Let_def  split: option.splits sum.splits)

lemma reproducible_inv: "consistent w s \<Longrightarrow> consistent w (snd (reproducible s))"
  by (auto simp: reproducible_def consistent_def on_cfg Let_def  split: option.splits sum.splits)

lemma dev_mode_exact_fresh: "fresh (snd (dev_mode_exact s)) = fresh s"
  by (simp add: dev_mode_exact_def Let_def split: option.splits sum.splits)

lemmas dev_mode_exact_frame [simp] = frameD [OF dev_mode_exact_fresh]

lemma dev_mode_exact_value:
  "consistent w s \<Longrightarrow> fst (dev_mode_exact s) = boolean_option ''dev-mode-exact'' False s"
  by (auto simp: dev_mode_exact_def consistent_def Let_def  split: option.splits sum.splits)

lemma dev_mode_exact_inv: "consistent w s \<Longrightarrow> consistent w (snd (dev_mode_exact s))"
  by (auto simp: dev_mode_exact_def consistent_def on_cfg Let_def  split: option.splits sum.splits)

lemma directory_fresh: "fresh (snd (directory w s)) = fresh s"
  by (simp add: directory_def Let_def split: option.splits sum.splits)

lemmas directory_frame [simp] = frameD [OF directory_fresh]

lemma directory_value:
  "consistent w s \<Longrightarrow> fst (directory w s) = directory_option w s"
  by (auto simp: directory_def consistent_def Let_def  split: option.splits sum.splits)

lemma directory_inv: "consistent w s \<Longrightarrow> consistent w (snd (directory w s))"
  by (auto simp: directory_def consistent_def on_cfg Let_def  split: option.splits sum.splits)

lemma dev_mode_dirs_fresh: "fresh (snd (dev_mode_dirs s)) = fresh s"
  by (simp add: dev_mode_dirs_def Let_def split: option.splits sum.splits)

lemmas dev_mode_dirs_frame [simp] = frameD [OF dev_mode_dirs_fresh]

lemma dev_mode_dirs_value:
  "consistent w s \<Longrightarrow> fst (dev_mode_dirs s) = dev_mode_dirs_option s"
  by (auto simp: dev_mode_dirs_def consistent_def Let_def  split: option.splits sum.splits)

lemma dev_mode_dirs_inv: "consistent w s \<Longrightarrow> consistent w (snd (dev_mode_dirs s))"
  by (auto simp: dev_mode_dirs_def consistent_def on_cfg Let_def  split: option.splits sum.splits)

lemma packages_fresh: "fresh (snd (packages w s)) = fresh s"
  by (simp add: packages_def Let_def split: option.splits sum.splits)

lemmas packages_frame [simp] = frameD [OF packages_fresh]

lemma packages_value:
  "consistent w s \<Longrightarrow> fst (packages w s) = packages_option w s"
  by (auto simp: packages_def consistent_def Let_def  split: option.splits sum.splits)

lemma packages_inv: "consistent w s \<Longrightarrow> consistent w (snd (packages w s))"
  by (auto simp: packages_def consistent_def on_cfg Let_def  split: option.splits sum.splits)

lemma versions_fresh: "fresh (snd (versions s)) = fresh s"
  by (simp add: versions_def Let_def split: option.splits sum.splits)

lemmas versions_frame [simp] = frameD [OF versions_fresh]

lemma versions_value:
  "consistent w s \<Longrightarrow> fst (versions s) = versions_option s"
  by (auto simp: versions_def consistent_def Let_def  split: option.splits sum.splits)

lemma versions_inv: "consistent w s \<Longrightarrow> consistent w (snd (versions s))"
  by (auto simp: versions_def consistent_def on_cfg Let_def  split: option.splits sum.splits)

lemma hook_config_fresh: "fresh (snd (hook_config w s)) = fresh s"
  by (simp add: hook_config_def Let_def split: option.splits sum.splits)

lemmas hook_config_frame [simp] = frameD [OF hook_config_fresh]

lemma hook_config_value:
  "consistent w s \<Longrightarrow> fst (hook_config w s) = hook_config_option w s"
  by (auto simp: hook_config_def consistent_def Let_def  split: option.splits sum.splits)

lemma hook_config_inv: "consistent w s \<Longrightarrow> consistent w (snd (hook_config w s))"
  by (auto simp: hook_config_def consistent_def on_cfg Let_def  split: option.splits sum.splits)

lemma force_include_fresh: "fresh (snd (force_include w s)) = fresh s"
  by (simp add: force_include_def Let_def split: option.splits sum.splits)

lemmas force_include_frame [simp] = frameD [OF force_include_fresh]

lemma force_include_value:
  "consistent w s \<Longrightarrow> fst (force_include w s) = force_include_option w s"
  by (auto simp: force_include_def consistent_def Let_def  split: option.splits sum.splits)

lemma force_include_inv: "consistent w s \<Longrightarrow> consistent w (snd (force_include w s))"
  by (auto simp: force_include_def consistent_def on_cfg Let_def  split: option.splits sum.splits)


definition spec_result :: "error + string list \<Rightarrow> error + PathSpec option" where
  "spec_result v = (case v of Inl e \<Rightarrow> Inl e | Inr pats \<Rightarrow> Inr (spec_of pats))"

lemma spec_result_simps [simp]:
  "spec_result (Inl e) = Inl e" "spec_result (Inr pats) = Inr (spec_of pats)"
  by (simp_all add: spec_result_def)

lemma compile_patterns_Inr: "compile_patterns w pats = Inr c \<Longrightarrow> c = spec_of pats"
  by (auto simp: compile_patterns_def from_lines_def spec_of_def split: if_splits option.splits)

lemma compiled_simps [simp]:
  "compiled w (Inl e) = Inl e"
  "compile_patterns w pats = Inl e \<Longrightarrow> compiled w (Inr pats) = Inl e"
  "compile_patterns w pats = Inr c \<Longrightarrow> compiled w (Inr pats) = Inr pats"
  by (simp_all add: compiled_def)

lemma compiled_Inr: "compiled w v = Inr pats \<Longrightarrow> v = Inr pats"
  by (auto simp: compiled_def split: sum.splits)

lemma value_frame:
  assumes "fresh t = fresh s"
  shows "include_patterns_value w t = include_patterns_value w s"
    and "exclude_patterns_value w t = exclude_patterns_value w s"
    and "sources_value w t = sources_value w s"
    and "dependencies_value w t = dependencies_value w s"
    and "hook_config_option w t = hook_config_option w s"
    and "load_vcs_ignore_patterns w t = load_vcs_ignore_patterns w s"
  using frameD(1) [OF assms] by (simp_all add: on_cfg)

lemma consistentD:
  assumes "consistent w s"
  shows "agrees (c_hook_config s) (hook_config_option w s)"
    and "agrees (c_versions s) (versions_option s)"
    and "agrees (c_dependencies s) (dependencies_value w s)"
    and "agrees (c_sources s) (sources_value w s)"
    and "agrees (c_packages s) (packages_option w s)"
    and "agrees (c_force_include s) (force_include_option w s)"
    and "agrees (c_include_patterns s) (compiled w (include_patterns_value w s))"
    and "c_include_spec s = Option.bind (c_include_patterns s) spec_of"
    and "agrees (c_exclude_patterns s) (compiled w (exclude_patterns_value w s))"
    and "c_exclude_spec s = Option.bind (c_exclude_patterns s) spec_of"
    and "agrees (c_artifact_patterns s) (compiled w (artifact_patterns_option s))"
    and "c_artifact_spec s = Option.bind (c_artifact_patterns s) spec_of"
  using assms by (simp_all add: consistent_def)

lemma artifact_spec_fresh: "fresh (snd (artifact_spec w s)) = fresh s"
  by (simp add: artifact_spec_def Let_def split: option.splits sum.splits)

lemmas artifact_spec_frame [simp] = frameD [OF artifact_spec_fresh]

lemma consistent_set_artifact:
  "consistent w t \<Longrightarrow> c_artifact_patterns t = None \<Longrightarrow>
   compiled w (artifact_patterns_option t) = Inr pats \<Longrightarrow>
   consistent w ((case spec_of pats of Some spec \<Rightarrow> t\<lparr>c_artifact_spec := Some spec\<rparr> | None \<Rightarrow> t)
                   \<lparr>c_artifact_patterns := Some pats\<rparr>)"
  by (auto simp: consistent_def on_cfg spec_of_def)

lemma artifact_spec_run:
  assumes "consistent w s"
  shows "fst (artifact_spec w s) = spec_result (compiled w (artifact_patterns_option s))
         \<and> consistent w (snd (artifact_spec w s))"
proof (cases "c_artifact_patterns s")
  case (Some a)
  then show ?thesis
    using assms consistentD(11,12) [OF assms] by (simp add: artifact_spec_def)
next
  case None
  then have n: "c_artifact_spec s = None"
    using consistentD(12) [OF assms] by simp
  show ?thesis
  proof (cases "artifact_patterns_option s")
    case (Inl e)
    then show ?thesis using assms None by (simp add: artifact_spec_def)
  next
    case (Inr pats)
    show ?thesis
    proof (cases "compile_patterns w pats")
      case (Inl e)
      then show ?thesis using assms None Inr by (simp add: artifact_spec_def)
    next
      case c: (Inr c)
      have cs: "c = spec_of pats" using c by (rule compile_patterns_Inr)
      have cv: "compiled w (artifact_patterns_option s) = Inr pats"
        using Inr c by simp
      have "artifact_spec w s =
              (Inr (spec_of pats),
               (case spec_of pats of Some spec \<Rightarrow> s\<lparr>c_artifact_spec := Some spec\<rparr> | None \<Rightarrow> s)
                 \<lparr>c_artifact_patterns := Some pats\<rparr>)"
        using None Inr c cs n
        by (cases "spec_of pats") (simp_all add: artifact_spec_def Let_def)
      then show ?thesis
        using consistent_set_artifact [OF assms None cv] cv by simp
    qed
  qed
qed

lemma artifact_spec_value:
  "consistent w s \<Longrightarrow> fst (artifact_spec w s) = spec_result (compiled w (artifact_patterns_option s))"
  by (simp add: artifact_spec_run)

lemma artifact_spec_inv: "consistent w s \<Longrightarrow> consistent w (snd (artifact_spec w s))"
  by (simp add: artifact_spec_run)

subsection \<open>Properties that read other properties\<close>

lemma packages_others [simp]:
  "c_include_spec (snd (packages w s)) = c_include_spec s"
  "c_include_patterns (snd (packages w s)) = c_include_patterns s"
  "c_sources (snd (packages w s)) = c_sources s"
  by (simp_all add: packages_def split: option.splits sum.splits)

lemma include_spec_fresh: "fresh (snd (include_spec w s)) = fresh s"
  using packages_fresh [of w s]
  by (auto simp: include_spec_def Let_def case_prod_unfold split: option.splits sum.splits)

lemmas include_spec_frame [simp] = frameD [OF include_spec_fresh]

lemma consistent_set_include:
  "consistent w t \<Longrightarrow> c_include_patterns t = None \<Longrightarrow>
   compiled w (include_patterns_value w t) = Inr pats \<Longrightarrow>
   consistent w ((case spec_of pats of Some spec \<Rightarrow> t\<lparr>c_include_spec := Some spec\<rparr> | None \<Rightarrow> t)
                   \<lparr>c_include_patterns := Some pats\<rparr>)"
  by (auto simp: consistent_def on_cfg spec_of_def)

lemma include_spec_run:
  assumes "consistent w s"
  shows "fst (include_spec w s) = spec_result (compiled w (include_patterns_value w s))
         \<and> consistent w (snd (include_spec w s))"
proof -
  define t where "t = snd (packages w s)"
  have t: "consistent w t" "fresh t = fresh s"
    unfolding t_def using assms by (simp_all add: packages_inv packages_fresh)
  have v: "fst (packages w s) = packages_option w s"
    using assms by (rule packages_value)
  show ?thesis
  proof (cases "c_include_patterns s")
    case (Some a)
    then show ?thesis
      using assms consistentD(7,8) [OF assms] by (simp add: include_spec_def)
  next
    case None
    then have n: "c_include_spec t = None" "c_include_patterns t = None"
      using consistentD(8) [OF assms] by (simp_all add: t_def)
    show ?thesis
    proof (cases "include_patterns_option s")
      case (Inl e)
      then show ?thesis using assms None
        by (simp add: include_spec_def include_patterns_value_def)
    next
      case (Inr pats)
      show ?thesis
      proof (cases "packages_option w s")
        case (Inl e)
        then show ?thesis using None Inr v t
          by (simp add: include_spec_def include_patterns_value_def case_prod_unfold t_def)
      next
        case pk: (Inr pkgs)
        define all where "all = pats @ map (package_pattern w) pkgs"
        have iv: "include_patterns_value w s = Inr all"
          using Inr pk by (simp add: include_patterns_value_def all_def)
        show ?thesis
        proof (cases "compile_patterns w all")
          case (Inl e)
          then have "include_spec w s = (Inl e, t)"
            using None Inr pk v
            by (simp add: include_spec_def case_prod_unfold t_def [symmetric] Let_def
                  all_def [symmetric])
          then show ?thesis using t(1) iv Inl by simp
        next
          case c: (Inr c)
          have cs: "c = spec_of all" using c by (rule compile_patterns_Inr)
          have cv: "compiled w (include_patterns_value w t) = Inr all"
            using iv c value_frame(1) [OF t(2)] by simp
          have "include_spec w s =
                  (Inr (spec_of all),
                   (case spec_of all of Some spec \<Rightarrow> t\<lparr>c_include_spec := Some spec\<rparr> | None \<Rightarrow> t)
                     \<lparr>c_include_patterns := Some all\<rparr>)"
            using None Inr pk v c cs n
            by (cases "spec_of all")
              (simp_all add: include_spec_def case_prod_unfold t_def [symmetric] Let_def
                all_def [symmetric])
          then show ?thesis
            using consistent_set_include [OF t(1) n(2) cv] iv c by simp
        qed
      qed
    qed
  qed
qed

lemma include_spec_value:
  "consistent w s \<Longrightarrow>
   fst (include_spec w s) = spec_result (compiled w (include_patterns_value w s))"
  by (simp add: include_spec_run)

lemma include_spec_inv: "consistent w s \<Longrightarrow> consistent w (snd (include_spec w s))"
  by (simp add: include_spec_run)

lemma ignore_vcs_others [simp]:
  "c_exclude_spec (snd (ignore_vcs s)) = c_exclude_spec s"
  "c_exclude_patterns (snd (ignore_vcs s)) = c_exclude_patterns s"
  by (simp_all add: ignore_vcs_def split: option.splits sum.splits)

lemma exclude_spec_fresh: "fresh (snd (exclude_spec w s)) = fresh s"
  using ignore_vcs_fresh [of s]
  by (auto simp: exclude_spec_def Let_def case_prod_unfold split: option.splits sum.splits)

lemmas exclude_spec_frame [simp] = frameD [OF exclude_spec_fresh]

lemma consistent_set_exclude:
  "consistent w t \<Longrightarrow> c_exclude_patterns t = None \<Longrightarrow>
   compiled w (exclude_patterns_value w t) = Inr pats \<Longrightarrow>
   consistent w ((case spec_of pats of Some spec \<Rightarrow> t\<lparr>c_exclude_spec := Some spec\<rparr> | None \<Rightarrow> t)
                   \<lparr>c_exclude_patterns := Some pats\<rparr>)"
  by (auto simp: consistent_def on_cfg spec_of_def)

lemma exclude_spec_run:
  assumes "consistent w s"
  shows "fst (exclude_spec w s) = spec_result (compiled w (exclude_patterns_value w s))
         \<and> consistent w (snd (exclude_spec w s))"
proof -
  define t where "t = snd (ignore_vcs s)"
  have t: "consistent w t" "fresh t = fresh s"
    unfolding t_def using assms by (simp_all add: ignore_vcs_inv ignore_vcs_fresh)
  have v: "fst (ignore_vcs s) = boolean_option ''ignore-vcs'' False s"
    using assms by (rule ignore_vcs_value)
  have l: "load_vcs_ignore_patterns w t = load_vcs_ignore_patterns w s"
    using value_frame(6) [OF t(2)] by simp
  show ?thesis
  proof (cases "c_exclude_patterns s")
    case (Some a)
    then show ?thesis
      using assms consistentD(9,10) [OF assms] by (simp add: exclude_spec_def)
  next
    case None
    then have n: "c_exclude_spec t = None" "c_exclude_patterns t = None"
      using consistentD(10) [OF assms] by (simp_all add: t_def)
    show ?thesis
    proof (cases "exclude_patterns_option s")
      case (Inl e)
      then show ?thesis using assms None
        by (simp add: exclude_spec_def exclude_patterns_value_def)
    next
      case (Inr pats)
      show ?thesis
      proof (cases "boolean_option ''ignore-vcs'' False s")
        case (Inl e)
        then show ?thesis using None Inr v t
          by (simp add: exclude_spec_def exclude_patterns_value_def case_prod_unfold t_def)
      next
        case b: (Inr no_vcs)
        define all where "all = default_global_exclude @ pats
                            @ (if \<not> no_vcs then load_vcs_ignore_patterns w s else [])"
        have iv: "exclude_patterns_value w s = Inr all"
          using Inr b by (simp add: exclude_patterns_value_def all_def)
        show ?thesis
        proof (cases "compile_patterns w all")
          case (Inl e)
          then have "exclude_spec w s = (Inl e, t)"
            using None Inr b v l
            by (cases no_vcs)
              (simp_all add: exclude_spec_def case_prod_unfold t_def [symmetric] Let_def all_def)
          then show ?thesis using t(1) iv Inl by simp
        next
          case c: (Inr c)
          have cs: "c = spec_of all" using c by (rule compile_patterns_Inr)
          have cv: "compiled w (exclude_patterns_value w t) = Inr all"
            using iv c value_frame(2) [OF t(2)] by simp
          have "exclude_spec w s =
                  (Inr (spec_of all),
                   (case spec_of all of Some spec \<Rightarrow> t\<lparr>c_exclude_spec := Some spec\<rparr> | None \<Rightarrow> t)
                     \<lparr>c_exclude_patterns := Some all\<rparr>)"
            using None Inr b v l c cs n
            by (cases "spec_of all"; cases no_vcs)
              (simp_all add: exclude_spec_def case_prod_unfold t_def [symmetric] Let_def all_def)
          then show ?thesis
            using consistent_set_exclude [OF t(1) n(2) cv] iv c by simp
        qed
      qed
    qed
  qed
qed

lemma exclude_spec_value:
  "consistent w s \<Longrightarrow>
   fst (exclude_spec w s) = spec_result (compiled w (exclude_patterns_value w s))"
  by (simp add: exclude_spec_run)

lemma exclude_spec_inv: "consistent w s \<Longrightarrow> consistent w (snd (exclude_spec w s))"
  by (simp add: exclude_spec_run)

lemma sources_fresh: "fresh (snd (sources w s)) = fresh s"
  using packages_fresh [of w s]
  by (auto simp: sources_def Let_def case_prod_unfold split: option.splits sum.splits)

lemmas sources_frame [simp] = frameD [OF sources_fresh]

lemma sources_run_value:
  assumes "consistent w s"
  shows "fst (sources w s) = sources_value w s"
  using consistentD(4) [OF assms] packages_value [OF assms]
  by (auto simp: sources_def Let_def sources_value_def
        case_prod_unfold split: option.splits sum.splits)

lemma consistent_set_sources:
  "consistent w t \<Longrightarrow> sources_value w t = Inr v \<Longrightarrow> consistent w (t\<lparr>c_sources := Some v\<rparr>)"
  by (auto simp: consistent_def on_cfg)

lemma sources_inv:
  assumes "consistent w s"
  shows "consistent w (snd (sources w s))"
proof -
  define t where "t = snd (packages w s)"
  have t: "consistent w t" "fresh t = fresh s"
    unfolding t_def using assms by (simp_all add: packages_inv packages_fresh)
  have v: "fst (packages w s) = packages_option w s"
    using assms by (rule packages_value)
  show ?thesis
  proof (cases "c_sources s")
    case (Some a)
    then show ?thesis using assms by (simp add: sources_def)
  next
    case None
    show ?thesis
    proof (cases "sources_option w s")
      case (Inl e)
      then show ?thesis using assms None by (simp add: sources_def)
    next
      case (Inr srcs)
      show ?thesis
      proof (cases "packages_option w s")
        case (Inl e)
        then show ?thesis using None Inr v t
          by (simp add: sources_def case_prod_unfold t_def)
      next
        case pk: (Inr pkgs)
        have "sources_value w s = Inr (sort (package_sources w pkgs srcs))"
          using Inr pk by (simp add: sources_value_def)
        then have sv: "sources_value w t = Inr (sort (package_sources w pkgs srcs))"
          using value_frame(3) [OF t(2)] by simp
        have "snd (sources w s) = t\<lparr>c_sources := Some (sort (package_sources w pkgs srcs))\<rparr>"
          using None Inr pk v
          by (simp add: sources_def case_prod_unfold t_def [symmetric] Let_def)
        then show ?thesis using consistent_set_sources [OF t(1) sv] by simp
      qed
    qed
  qed
qed


lemma require_runtime_dependencies_others [simp]:
  "c_dependencies (snd (require_runtime_dependencies s)) = c_dependencies s"
  by (simp_all add: require_runtime_dependencies_def split: option.splits sum.splits)

lemma hook_config_others [simp]:
  "c_dependencies (snd (hook_config w s)) = c_dependencies s"
  by (simp_all add: hook_config_def split: option.splits sum.splits)

lemma dependencies_fresh: "fresh (snd (dependencies w s)) = fresh s"
proof -
  have "fresh (snd (hook_config w (snd (require_runtime_dependencies s)))) = fresh s"
    by (simp add: hook_config_fresh require_runtime_dependencies_fresh)
  then show ?thesis
    using require_runtime_dependencies_fresh [of s]
    by (auto simp: dependencies_def Let_def case_prod_unfold split: option.splits sum.splits)
qed

lemmas dependencies_frame [simp] = frameD [OF dependencies_fresh]

lemma consistent_set_dependencies:
  "consistent w t \<Longrightarrow> dependencies_value w t = Inr v \<Longrightarrow>
   consistent w (t\<lparr>c_dependencies := Some v\<rparr>)"
  by (auto simp: consistent_def on_cfg)

text \<open>What \<^verbatim>\<open>dependencies\<close> does on an object whose backing fields are consistent.\<close>

lemma dependencies_run:
  assumes "consistent w s"
  shows "fst (dependencies w s) = dependencies_value w s
         \<and> consistent w (snd (dependencies w s))"
proof -
  define t where "t = snd (require_runtime_dependencies s)"
  define u where "u = snd (hook_config w t)"
  have t: "consistent w t" "fresh t = fresh s"
    unfolding t_def using assms
    by (simp_all add: require_runtime_dependencies_inv require_runtime_dependencies_fresh)
  have u: "consistent w u" "fresh u = fresh s"
    unfolding u_def using t by (simp_all add: hook_config_inv hook_config_fresh)
  have v: "fst (require_runtime_dependencies s)
             = boolean_option ''require-runtime-dependencies'' False s"
    using assms by (rule require_runtime_dependencies_value)
  have h: "fst (hook_config w t) = hook_config_option w s"
    using hook_config_value [OF t(1)] value_frame(5) [OF t(2)] by simp
  have bu: "builder u = builder s"
    using frameD(2) [OF u(2)] .
  show ?thesis
  proof (cases "c_dependencies s")
    case (Some a)
    then show ?thesis using assms consistentD(3) [OF assms] by (simp add: dependencies_def)
  next
    case None
    show ?thesis
    proof (cases "configured_dependencies s")
      case (Inl e)
      then show ?thesis using assms None by (simp add: dependencies_def dependencies_value_def)
    next
      case (Inr deps)
      show ?thesis
      proof (cases "boolean_option ''require-runtime-dependencies'' False s")
        case (Inl e)
        then show ?thesis using None Inr v t
          by (simp add: dependencies_def dependencies_value_def case_prod_unfold t_def)
      next
        case b: (Inr rrd)
        show ?thesis
        proof (cases "hook_config_option w s")
          case (Inl e)
          then show ?thesis using None Inr b v h u
            by (simp add: dependencies_def dependencies_value_def case_prod_unfold
                  t_def [symmetric] u_def)
        next
          case hk: (Inr hooks)
          show ?thesis
          proof (cases "all_dependencies (builder s) hooks rrd deps")
            case (Inl e)
            then show ?thesis using None Inr b hk v h u bu
              by (simp add: dependencies_def dependencies_value_def case_prod_unfold
                    t_def [symmetric] u_def [symmetric])
          next
            case r: (Inr res)
            have "dependencies_value w s = Inr res"
              using Inr b hk r by (simp add: dependencies_value_def)
            then have dv: "dependencies_value w u = Inr res"
              using value_frame(4) [OF u(2)] by simp
            have "dependencies w s = (Inr res, u\<lparr>c_dependencies := Some res\<rparr>)"
              using None Inr b hk r v h bu
              by (simp add: dependencies_def case_prod_unfold
                    t_def [symmetric] u_def [symmetric])
            then show ?thesis
              using consistent_set_dependencies [OF u(1) dv] \<open>dependencies_value w s = Inr res\<close>
              by simp
          qed
        qed
      qed
    qed
  qed
qed

section \<open>Ordered sets and validated lists\<close>

lemma check_strings_valid:
  "[] \<notin> set vs \<Longrightarrow> check_strings kind loc i (map PStr vs) = Inr vs"
  by (induction vs arbitrary: i) auto

lemma set_ordered_set_extend [simp]: "set (ordered_set_extend xs ys) = set xs \<union> set ys"
  unfolding ordered_set_extend_def
  by (induction ys arbitrary: xs) (auto simp: ordered_set_add_def)

lemma distinct_ordered_set_extend:
  "distinct xs \<Longrightarrow> distinct (ordered_set_extend xs ys)"
  unfolding ordered_set_extend_def
  by (induction ys arbitrary: xs) (auto simp: ordered_set_add_def)

lemma ordered_set_extend_distinct:
  "distinct (xs @ ys) \<Longrightarrow> ordered_set_extend xs ys = xs @ ys"
  unfolding ordered_set_extend_def
  by (induction ys arbitrary: xs) (auto simp: ordered_set_add_def)

lemma ordered_set_extend_Nil [simp]: "ordered_set_extend xs [] = xs"
  by (simp add: ordered_set_extend_def)

lemma ordered_set_extend_eq_Nil [simp]: "ordered_set_extend xs ys = [] \<longleftrightarrow> xs = [] \<and> ys = []"
  using set_ordered_set_extend [of xs ys] by (metis Un_empty set_empty)

section \<open>A concrete world and builder for the examples\<close>

text \<open>A POSIX-like world with no environment variable set and no ignore file, whose pattern
  compiler accepts every line and whose matcher accepts the paths listed literally; and a
  builder with two known versions.\<close>

definition plain_world :: world where
  "plain_world =
     \<lparr> os_environ = Map.empty, os_path_sep = CHR ''/'',
       os_path_split = (\<lambda>p. (rev (drop 1 (dropWhile (\<lambda>c. c \<noteq> CHR ''/'') (rev p))),
                             rev (takeWhile (\<lambda>c. c \<noteq> CHR ''/'') (rev p)))), os_path_isabs = (\<lambda>p. True),
       os_path_join = (\<lambda>a b. a @ ''/'' @ b), os_path_normpath = (\<lambda>p. p),
       str_upper = (\<lambda>x. x), locate_file = (\<lambda>r f. None), readlines = (\<lambda>f. []),
       pattern_error = (\<lambda>lines. None), match_file = (\<lambda>lines p. p \<in> set lines),
       normalize_relative_path = (\<lambda>p. p), normalize_relative_directory = (\<lambda>p. p @ ''/''),
       normalize_inclusion_map = (\<lambda>m r. Inr m),
       DEFAULT_BUILD_DIRECTORY = ''dist'', NO_HOOKS = ''HATCH_BUILD_NO_HOOKS'',
       HOOKS_ENABLE = ''HATCH_BUILD_HOOKS_ENABLE'',
       HOOK_ENABLE_PREFIX = ''HATCH_BUILD_HOOK_ENABLE_'' \<rparr>"

definition wheel_builder :: builder where
  "wheel_builder =
     \<lparr> get_default_versions = [''standard''],
       get_version_api = [''standard'', ''editable''],
       metadata_core_dependencies = [''requests''] \<rparr>"

lemma compile_patterns_plain [simp]:
  "compile_patterns plain_world pats = Inr (if pats \<noteq> [] then Some (PathSpec pats) else None)"
  by (simp add: compile_patterns_def from_lines_def plain_world_def)

section \<open>Unknown and default versions\<close>

text \<open>
  Claim C8. On first access of \<^verbatim>\<open>versions\<close>: when the configured list is a non-empty
  list of non-empty strings and some of them are not keys of the builder's version API, the
  access raises the value error whose message lists the unknown identifiers sorted and
  without duplicates, and caches nothing; when the configured list is empty (or the key is
  absent), the access raises nothing and returns the builder's default versions.
\<close>

theorem versions_unknown_or_default:
  assumes "c_versions s = None"
  shows
   "(dict_get (target_config s) ''versions'' (PList []) = PList (map PStr vs)
       \<and> vs \<noteq> [] \<and> [] \<notin> set vs \<and> \<not> set vs \<subseteq> set (get_version_api (builder s))
     \<longrightarrow> (let unknown = sorted_list_of_set (set vs - set (get_version_api (builder s)))
          in versions s =
               (Inl (ValueError (''Unknown versions in field `tool.hatch.build.targets.''
                       @ plugin_name s @ ''.versions`: '' @ join '', '' unknown)), s)
             \<and> sorted unknown \<and> distinct unknown
             \<and> set unknown = set vs - set (get_version_api (builder s))))
    \<and> (dict_get (target_config s) ''versions'' (PList []) = PList []
     \<longrightarrow> (let dflt = ordered_set_extend [] (get_default_versions (builder s))
          in versions s = (Inr dflt, s\<lparr>c_versions := Some dflt\<rparr>)
             \<and> set dflt = set (get_default_versions (builder s))
             \<and> (distinct (get_default_versions (builder s))
                  \<longrightarrow> dflt = get_default_versions (builder s))))"
proof (intro conjI impI)
  assume a: "dict_get (target_config s) ''versions'' (PList []) = PList (map PStr vs)
       \<and> vs \<noteq> [] \<and> [] \<notin> set vs \<and> \<not> set vs \<subseteq> set (get_version_api (builder s))"
  then have "versions_option s =
     Inl (ValueError (''Unknown versions in field `tool.hatch.build.targets.''
            @ plugin_name s @ ''.versions`: ''
            @ join '', '' (sorted_list_of_set (set vs - set (get_version_api (builder s))))))"
    by (auto simp: versions_option_def string_array_def check_strings_valid Let_def
          target_location_def)
  then show "let unknown = sorted_list_of_set (set vs - set (get_version_api (builder s)))
          in versions s =
               (Inl (ValueError (''Unknown versions in field `tool.hatch.build.targets.''
                       @ plugin_name s @ ''.versions`: '' @ join '', '' unknown)), s)
             \<and> sorted unknown \<and> distinct unknown
             \<and> set unknown = set vs - set (get_version_api (builder s))"
    using assms by (simp add: versions_def Let_def)
next
  assume "dict_get (target_config s) ''versions'' (PList []) = PList []"
  then have "versions_option s = Inr (ordered_set_extend [] (get_default_versions (builder s)))"
    by (simp add: versions_option_def string_array_def Let_def)
  then show "let dflt = ordered_set_extend [] (get_default_versions (builder s))
          in versions s = (Inr dflt, s\<lparr>c_versions := Some dflt\<rparr>)
             \<and> set dflt = set (get_default_versions (builder s))
             \<and> (distinct (get_default_versions (builder s))
                  \<longrightarrow> dflt = get_default_versions (builder s))"
    using assms by (simp add: versions_def Let_def ordered_set_extend_distinct)
qed

theorem versions_unknown_or_default_witness:
  "versions (init wheel_builder ''/p'' ''wheel'' []
      [(''versions'', PList [PStr ''zz'', PStr ''editable'', PStr ''aa'', PStr ''zz''])])
   = (Inl (ValueError ''Unknown versions in field `tool.hatch.build.targets.wheel.versions`: aa, zz''),
      init wheel_builder ''/p'' ''wheel'' []
      [(''versions'', PList [PStr ''zz'', PStr ''editable'', PStr ''aa'', PStr ''zz''])])
   \<and> fst (versions (init wheel_builder ''/p'' ''wheel'' [] [(''versions'', PList [])]))
     = Inr [''standard'']"
proof -
  let ?s = "init wheel_builder ''/p'' ''wheel'' []
      [(''versions'', PList [PStr ''zz'', PStr ''editable'', PStr ''aa'', PStr ''zz''])]"
  let ?t = "init wheel_builder ''/p'' ''wheel'' [] [(''versions'', PList [])]"
  have u: "sorted_list_of_set ({''zz'', ''editable'', ''aa''} - {''standard'', ''editable''}) = [''aa'', ''zz'']"
    by (simp add: insert_Diff_if)
  have 1: "c_versions ?s = None" "c_versions ?t = None" by (simp_all add: init_def)
  show ?thesis
    using versions_unknown_or_default [OF 1(1), of "[''zz'', ''editable'', ''aa'', ''zz'']"]
      versions_unknown_or_default [OF 1(2), of "[]"] u
    by (simp add: init_def dict_get_def wheel_builder_def Let_def insert_commute)
qed


section \<open>The inclusion decision is the claimed formula\<close>

text \<open>Whether a specification that may be absent matches a path; \<open>dflt\<close> is the answer of
  the absent one.\<close>

definition matches :: "world \<Rightarrow> bool \<Rightarrow> PathSpec option \<Rightarrow> string \<Rightarrow> bool" where
  "matches w dflt spec relative_path =
     (case spec of None \<Rightarrow> dflt | Some sp \<Rightarrow> spec_match w sp relative_path)"

text \<open>The claim's formula, over the five specifications and the \<^verbatim>\<open>only_packages\<close> flag.\<close>

definition include_path_claim ::
  "world \<Rightarrow> PathSpec option \<Rightarrow> PathSpec option \<Rightarrow> bool \<Rightarrow> PathSpec option \<Rightarrow> PathSpec option
     \<Rightarrow> string \<Rightarrow> bool \<Rightarrow> bool" where
  "include_path_claim w build_spec artifact only_pkgs incl excl relative_path is_package =
     (matches w False build_spec relative_path
      \<or> matches w False artifact relative_path
      \<or> (\<not> (only_pkgs \<and> \<not> is_package)
          \<and> matches w True incl relative_path
          \<and> \<not> matches w False excl relative_path))"

text \<open>The same, evaluated lazily over results that may be errors: an operand is looked at
  only when the ones before it do not decide.\<close>

definition include_path_lazy ::
  "bool \<Rightarrow> (error + bool) \<Rightarrow> (error + bool) \<Rightarrow> bool \<Rightarrow> (error + bool) \<Rightarrow> (error + bool)
     \<Rightarrow> error + bool" where
  "include_path_lazy build_artifact artifact only_pkgs is_package included excluded =
     (if build_artifact then Inr True
      else
        (case artifact of
           Inl e \<Rightarrow> Inl e
         | Inr a \<Rightarrow>
             if a then Inr True
             else
               (case only_pkgs of
                  Inl e \<Rightarrow> Inl e
                | Inr op \<Rightarrow>
                    if op \<and> \<not> is_package then Inr False
                    else
                      (case included of
                         Inl e \<Rightarrow> Inl e
                       | Inr i \<Rightarrow>
                           if \<not> i then Inr False
                           else
                             (case excluded of
                                Inl e \<Rightarrow> Inl e
                              | Inr x \<Rightarrow> Inr (\<not> x))))))"

definition match_result :: "world \<Rightarrow> bool \<Rightarrow> string \<Rightarrow> error + PathSpec option \<Rightarrow> error + bool" where
  "match_result w dflt relative_path r =
     (case r of Inl e \<Rightarrow> Inl e | Inr spec \<Rightarrow> Inr (matches w dflt spec relative_path))"

lemma match_result_simps [simp]:
  "match_result w d p (Inl e) = Inl e"
  "match_result w d p (Inr spec) = Inr (matches w d spec p)"
  by (simp_all add: match_result_def)

lemma path_is_artifact_eq:
  "path_is_artifact w p s = (match_result w False p (fst (artifact_spec w s)), snd (artifact_spec w s))"
  by (simp add: path_is_artifact_def matches_def case_prod_unfold
        split: sum.splits option.splits)

lemma path_is_included_eq:
  "path_is_included w p s
     = (match_result w True p (fst (include_spec w s)), snd (include_spec w s))"
  by (simp add: path_is_included_def matches_def case_prod_unfold
        split: sum.splits option.splits)

lemma path_is_excluded_eq:
  "path_is_excluded w p s
     = (match_result w False p (fst (exclude_spec w s)), snd (exclude_spec w s))"
  by (simp add: path_is_excluded_def matches_def case_prod_unfold
        split: sum.splits option.splits)

lemma path_is_build_artifact_eq:
  "path_is_build_artifact w p s = matches w False (build_artifact_spec s) p"
  by (simp add: path_is_build_artifact_def matches_def)

lemma option_frame:
  assumes "fresh t = fresh s"
  shows "boolean_option key d t = boolean_option key d s"
    and "artifact_patterns_option t = artifact_patterns_option s"
    and "packages_option w t = packages_option w s"
    and "force_include_option w t = force_include_option w s"
  using frameD(1) [OF assms] by (simp_all add: on_cfg)

lemma include_path_threaded:
  "include_path w p ip s =
     (let s1 = snd (artifact_spec w s); s2 = snd (only_packages s1);
          s3 = snd (include_spec w s2); s4 = snd (exclude_spec w s3);
          a = match_result w False p (fst (artifact_spec w s));
          op = fst (only_packages s1);
          i = match_result w True p (fst (include_spec w s2));
          x = match_result w False p (fst (exclude_spec w s3))
      in (include_path_lazy (path_is_build_artifact w p s) a op ip i x,
          if path_is_build_artifact w p s then s
          else if a \<noteq> Inr False then s1
          else if op \<noteq> Inr False \<and> (op \<noteq> Inr True \<or> \<not> ip) then s2
          else if i \<noteq> Inr True then s3 else s4))"
  by (auto simp: include_path_def include_path_lazy_def path_is_artifact_eq path_is_included_eq
        path_is_excluded_eq case_prod_unfold Let_def split: sum.splits bool.splits)


lemma include_path_run:
  assumes "consistent w s"
  shows "fst (include_path w p ip s) =
           include_path_lazy (path_is_build_artifact w p s)
             (match_result w False p (fst (artifact_spec w s)))
             (fst (only_packages s)) ip
             (match_result w True p (fst (include_spec w s)))
             (match_result w False p (fst (exclude_spec w s)))"
    and "consistent w (snd (include_path w p ip s))"
    and "fresh (snd (include_path w p ip s)) = fresh s"
proof -
  define s1 where "s1 = snd (artifact_spec w s)"
  define s2 where "s2 = snd (only_packages s1)"
  define s3 where "s3 = snd (include_spec w s2)"
  define s4 where "s4 = snd (exclude_spec w s3)"
  have c1: "consistent w s1" and f1: "fresh s1 = fresh s"
    unfolding s1_def using assms by (simp_all add: artifact_spec_inv artifact_spec_fresh)
  have c2: "consistent w s2" and f2: "fresh s2 = fresh s"
    unfolding s2_def using c1 f1 by (simp_all add: only_packages_inv only_packages_fresh)
  have c3: "consistent w s3" and f3: "fresh s3 = fresh s"
    unfolding s3_def using c2 f2 by (simp_all add: include_spec_inv include_spec_fresh)
  have c4: "consistent w s4" and f4: "fresh s4 = fresh s"
    unfolding s4_def using c3 f3 by (simp_all add: exclude_spec_inv exclude_spec_fresh)
  have op: "fst (only_packages s1) = fst (only_packages s)"
    using only_packages_value [OF c1] only_packages_value [OF assms] option_frame(1) [OF f1]
    by simp
  have i: "fst (include_spec w s2) = fst (include_spec w s)"
    using include_spec_value [OF c2] include_spec_value [OF assms] value_frame(1) [OF f2]
    by simp
  have x: "fst (exclude_spec w s3) = fst (exclude_spec w s)"
    using exclude_spec_value [OF c3] exclude_spec_value [OF assms] value_frame(2) [OF f3]
    by simp
  note th = include_path_threaded [of w p ip s, unfolded Let_def,
      folded s1_def, folded s2_def, folded s3_def, folded s4_def, unfolded op i x]
  show "fst (include_path w p ip s) =
           include_path_lazy (path_is_build_artifact w p s)
             (match_result w False p (fst (artifact_spec w s)))
             (fst (only_packages s)) ip
             (match_result w True p (fst (include_spec w s)))
             (match_result w False p (fst (exclude_spec w s)))"
    by (simp add: th)
  show "consistent w (snd (include_path w p ip s))"
    using assms c1 c2 c3 c4 by (simp add: th)
  show "fresh (snd (include_path w p ip s)) = fresh s"
    using f1 f2 f3 f4 by (simp add: th)
qed

lemmas include_path_frame [simp] = frameD [OF include_path_run(3)]


lemma consistent_init: "consistent w (init b r p bc tc)"
  by (simp add: consistent_def init_def)

text \<open>
  Claim C1. In every consistent state, \<^verbatim>\<open>include_path(p, is_package)\<close> is the lazy
  evaluation, in this order, of: \<open>p\<close> matches the build-time artifact specification, \<open>p\<close>
  matches the static artifact specification, \<^verbatim>\<open>only_packages\<close> and not \<open>is_package\<close>,
  \<open>p\<close> matches the include specification, \<open>p\<close> matches the exclude specification; an
  error of a property is raised only when the operands before it do not decide. When the
  four properties return, the result is the claimed formula, in which an absent include
  specification matches every path and an absent exclude or artifact specification matches
  none. A path that matches either artifact specification is included, whatever the exclude
  specification says.
\<close>

theorem include_path_decision:
  assumes "consistent w s"
  shows
    "fst (include_path w p is_package s) =
       include_path_lazy (path_is_build_artifact w p s)
         (match_result w False p (fst (artifact_spec w s)))
         (fst (only_packages s)) is_package
         (match_result w True p (fst (include_spec w s)))
         (match_result w False p (fst (exclude_spec w s)))
     \<and> (fst (artifact_spec w s) = Inr artifact \<and> fst (only_packages s) = Inr only_pkgs
          \<and> fst (include_spec w s) = Inr incl \<and> fst (exclude_spec w s) = Inr excl
        \<longrightarrow> fst (include_path w p is_package s) =
              Inr (include_path_claim w (build_artifact_spec s) artifact only_pkgs incl excl
                     p is_package))
     \<and> (matches w False (build_artifact_spec s) p
        \<longrightarrow> include_path w p is_package s = (Inr True, s))
     \<and> (fst (artifact_spec w s) = Inr artifact \<and> matches w False artifact p
        \<longrightarrow> fst (include_path w p is_package s) = Inr True)"
proof (intro conjI impI)
  note r = include_path_run(1) [OF assms, of p is_package]
  show "fst (include_path w p is_package s) =
       include_path_lazy (path_is_build_artifact w p s)
         (match_result w False p (fst (artifact_spec w s)))
         (fst (only_packages s)) is_package
         (match_result w True p (fst (include_spec w s)))
         (match_result w False p (fst (exclude_spec w s)))"
    by (rule r)
  show "fst (include_path w p is_package s) =
              Inr (include_path_claim w (build_artifact_spec s) artifact only_pkgs incl excl
                     p is_package)"
    if "fst (artifact_spec w s) = Inr artifact \<and> fst (only_packages s) = Inr only_pkgs
          \<and> fst (include_spec w s) = Inr incl \<and> fst (exclude_spec w s) = Inr excl"
    using that
    by (auto simp: r include_path_lazy_def include_path_claim_def path_is_build_artifact_eq)
  show "include_path w p is_package s = (Inr True, s)"
    if "matches w False (build_artifact_spec s) p"
    using that by (simp add: include_path_def path_is_build_artifact_eq)
  show "fst (include_path w p is_package s) = Inr True"
    if "fst (artifact_spec w s) = Inr artifact \<and> matches w False artifact p"
    using that by (simp add: r include_path_lazy_def)
qed

definition artifact_example :: BuilderConfig where
  "artifact_example =
     init wheel_builder ''/p'' ''wheel''
       [(''artifacts'', PList [PStr ''gen.py'']), (''exclude'', PList [PStr ''gen.py''])] []"

theorem include_path_decision_witness:
  "consistent plain_world artifact_example
   \<and> fst (exclude_spec plain_world artifact_example)
       = Inr (Some (PathSpec [''.git'', ''__pycache__'', ''*.py[cod]'', ''gen.py'']))
   \<and> fst (include_path plain_world ''gen.py'' True artifact_example) = Inr True
   \<and> fst (include_path plain_world ''.git'' True artifact_example) = Inr False"
proof -
  have c: "consistent plain_world artifact_example"
    by (simp add: artifact_example_def consistent_init)
  have a: "fst (artifact_spec plain_world artifact_example) = Inr (Some (PathSpec [''gen.py'']))"
    by (simp add: artifact_example_def init_def artifact_spec_def artifact_patterns_option_def
          option_config_def dict_contains_def dict_get_def global_location_def string_array_def)
  have op: "fst (only_packages artifact_example) = Inr False"
    by (simp add: artifact_example_def init_def only_packages_def boolean_option_def dict_get_def)
  have i: "fst (include_spec plain_world artifact_example) = Inr None"
    by (simp add: artifact_example_def init_def include_spec_def include_patterns_option_def
          option_config_def dict_contains_def dict_get_def global_location_def string_array_def
          default_include_def packages_def packages_option_def default_packages_def)
  have x: "fst (exclude_spec plain_world artifact_example)
             = Inr (Some (PathSpec [''.git'', ''__pycache__'', ''*.py[cod]'', ''gen.py'']))"
    by (simp add: artifact_example_def init_def exclude_spec_def exclude_patterns_option_def
          option_config_def dict_contains_def dict_get_def global_location_def string_array_def
          ignore_vcs_def boolean_option_def default_global_exclude_def
          load_vcs_ignore_patterns_def plain_world_def compile_patterns_def from_lines_def Let_def)
  have b: "build_artifact_spec artifact_example = None"
    by (simp add: artifact_example_def init_def)
  have m: "match_file plain_world lines q = (q \<in> set lines)" for lines q
    by (simp add: plain_world_def)
  let ?x = "Some (PathSpec [''.git'', ''__pycache__'', ''*.py[cod]'', ''gen.py''])"
  have "fst (include_path plain_world ''gen.py'' True artifact_example) =
          Inr (include_path_claim plain_world (build_artifact_spec artifact_example)
                 (Some (PathSpec [''gen.py''])) False None ?x ''gen.py'' True)"
    using include_path_decision [OF c, of "''gen.py''" True "Some (PathSpec [''gen.py''])"
        False None ?x] a op i x by blast
  moreover have "fst (include_path plain_world ''.git'' True artifact_example) =
          Inr (include_path_claim plain_world (build_artifact_spec artifact_example)
                 (Some (PathSpec [''gen.py''])) False None ?x ''.git'' True)"
    using include_path_decision [OF c, of "''.git''" True "Some (PathSpec [''gen.py''])"
        False None ?x] a op i x by blast
  ultimately show ?thesis
    using c x by (simp add: include_path_claim_def matches_def b m)
qed


section \<open>The build-time overlay is scoped\<close>

lemma dict_update_Nil [simp]: "dict_update d [] = d"
  by (simp add: dict_update_def)

lemma map_of_dict_update: "map_of (dict_update d e) = map_of d ++ map_of (rev e)"
  unfolding dict_update_def
  by (induction e arbitrary: d) (auto simp: update_conv' map_add_def fun_eq_iff split: option.splits)

lemma distinct_dict_update:
  "distinct (map fst d) \<Longrightarrow> distinct (map fst (dict_update d e))"
  unfolding dict_update_def
  by (induction e arbitrary: d) (auto simp: distinct_update)

lemma map_of_rev_distinct: "distinct (map fst xs) \<Longrightarrow> map_of (rev xs) = map_of xs"
  by (subst map_of_inject_set) (simp_all add: rev_map [symmetric])

lemma overlay_lookup:
  assumes "distinct (map fst d)" "k \<in> fst ` set m"
  shows "map_of (dict_update fi (dict_update d m)) k = map_of (rev m) k"
proof -
  obtain v where v: "map_of (rev m) k = Some v"
    using assms(2) by (cases "map_of (rev m) k") (auto simp: map_of_eq_None_iff)
  have "map_of (rev (dict_update d m)) = map_of d ++ map_of (rev m)"
    using assms(1) by (simp add: map_of_rev_distinct distinct_dict_update map_of_dict_update)
  then show ?thesis
    using v by (simp add: map_of_dict_update map_add_def)
qed

lemma consistent_overlay [simp]:
  "consistent w (s\<lparr>build_artifact_spec := a\<rparr>) = consistent w s"
  "consistent w (s\<lparr>build_force_include := b\<rparr>) = consistent w s"
  by (simp_all add: consistent_def on_cfg)

lemma consistent_clear_build_data [simp]: "consistent w (clear_build_data s) = consistent w s"
  by (simp add: clear_build_data_def)

lemma fresh_clear_build_data [simp]: "fresh (clear_build_data s) = fresh s"
  by (simp add: clear_build_data_def)

lemma force_include_overlay [simp]:
  "build_force_include (snd (force_include w s)) = build_force_include s"
  "build_artifact_spec (snd (force_include w s)) = build_artifact_spec s"
  by (simp_all add: force_include_def split: option.splits sum.splits)

lemma get_force_include_eq:
  "get_force_include w s =
     ((case fst (force_include w s) of
         Inl e \<Rightarrow> Inl e
       | Inr fi \<Rightarrow> Inr (dict_update fi (build_force_include s))),
      snd (force_include w s))"
  by (simp add: get_force_include_def case_prod_unfold split: sum.splits)

text \<open>The state in which the body of the \<^verbatim>\<open>with\<close> statement starts, when the entry does not
  raise: \<open>m\<close> is the normalized force-include mapping of the build data.\<close>

definition overlay_state :: "build_data \<Rightarrow> (string \<times> string) list \<Rightarrow> BuilderConfig \<Rightarrow> BuilderConfig" where
  "overlay_state bd m s =
     s\<lparr> build_artifact_spec :=
          (if bd_artifacts bd \<noteq> [] then Some (PathSpec (bd_artifacts bd))
           else build_artifact_spec s),
        build_force_include := dict_update (build_force_include s) m \<rparr>"

lemma clear_build_data_overlay [simp]:
  "clear_build_data (s\<lparr>build_artifact_spec := a\<rparr>) = clear_build_data s"
  "clear_build_data (s\<lparr>build_force_include := b\<rparr>) = clear_build_data s"
  by (simp_all add: clear_build_data_def)

lemma compile_patterns_eq:
  "compile_patterns w pats =
     (if pats = [] then Inr None
      else case from_lines w pats of Inl e \<Rightarrow> Inl e | Inr spec \<Rightarrow> Inr (Some (PathSpec pats)))"
  by (simp add: compile_patterns_def from_lines_def split: option.splits)

lemma enter_build_data_eq:
  "enter_build_data w bd s =
     (if bd_artifacts bd \<noteq> [] \<and> isl (from_lines w (bd_artifacts bd))
      then (Inl (projl (from_lines w (bd_artifacts bd))), s)
      else
        (case normalize_inclusion_map w (bd_force_include bd) (root s) of
           Inl e \<Rightarrow>
             (Inl e, if bd_artifacts bd \<noteq> []
                     then s\<lparr>build_artifact_spec := Some (PathSpec (bd_artifacts bd))\<rparr> else s)
         | Inr m \<Rightarrow> (Inr (), overlay_state bd m s)))"
  by (cases "from_lines w (bd_artifacts bd)")
    (auto simp: enter_build_data_def compile_patterns_eq overlay_state_def Let_def
      split: sum.splits)

lemma include_path_value_cong:
  assumes "consistent w s" "consistent w t" "fresh t = fresh s"
    "build_artifact_spec t = build_artifact_spec s"
  shows "fst (include_path w p ip t) = fst (include_path w p ip s)"
proof -
  have "fst (artifact_spec w t) = fst (artifact_spec w s)"
    using artifact_spec_value [OF assms(1)] artifact_spec_value [OF assms(2)]
      option_frame(2) [OF assms(3)] by simp
  moreover have "fst (only_packages t) = fst (only_packages s)"
    using only_packages_value [OF assms(1)] only_packages_value [OF assms(2)]
      option_frame(1) [OF assms(3)] by simp
  moreover have "fst (include_spec w t) = fst (include_spec w s)"
    using include_spec_value [OF assms(1)] include_spec_value [OF assms(2)]
      value_frame(1) [OF assms(3)] by simp
  moreover have "fst (exclude_spec w t) = fst (exclude_spec w s)"
    using exclude_spec_value [OF assms(1)] exclude_spec_value [OF assms(2)]
      value_frame(2) [OF assms(3)] by simp
  ultimately show ?thesis
    using include_path_run(1) [OF assms(1)] include_path_run(1) [OF assms(2)] assms(4)
    by (simp add: path_is_build_artifact_def)
qed

lemma get_force_include_value_cong:
  assumes "consistent w s" "consistent w t" "fresh t = fresh s"
    "build_force_include t = build_force_include s"
  shows "fst (get_force_include w t) = fst (get_force_include w s)"
  using force_include_value [OF assms(1)] force_include_value [OF assms(2)]
    option_frame(4) [OF assms(3)] assms(4)
  by (simp add: get_force_include_eq split: sum.splits)

text \<open>
  Claim C2. For every build data, body and state: after \<^verbatim>\<open>with set_build_data(...)\<close>
  the build artifact specification is absent and the build force-include fragment is
  empty, whether the entry raised, the body raised or the body returned. The entry raises
  when the build artifacts are not empty and the pattern compiler refuses them, or when
  the force-include mapping cannot be normalized; then its error is the result, the body
  does not run (the outcome is the same for every body) and the object is the one before
  the scope, cleared. When the entry does not raise, the body runs in \<open>overlay_state\<close>,
  where \<^verbatim>\<open>include_path\<close> accepts every path the build artifacts match and
  \<^verbatim>\<open>get_force_include\<close> maps every source of the build data to its destination. If the
  object was consistent and carried no build data before, and the body leaves it
  consistent with its configuration untouched (as every property and method does), then
  after the scope \<^verbatim>\<open>include_path\<close> and \<^verbatim>\<open>get_force_include\<close> return what they returned
  before it, and \<^verbatim>\<open>get_force_include\<close> is the static \<^verbatim>\<open>force_include\<close>.
\<close>

theorem build_data_overlay_scoped:
  "build_artifact_spec (snd (set_build_data w bd body s)) = None
   \<and> build_force_include (snd (set_build_data w bd body s)) = []
   \<and> (bd_artifacts bd \<noteq> [] \<and> from_lines w (bd_artifacts bd) = Inl e
      \<longrightarrow> set_build_data w bd body s = (Inl e, clear_build_data s))
   \<and> ((bd_artifacts bd = [] \<or> from_lines w (bd_artifacts bd) = Inr spec)
       \<and> normalize_inclusion_map w (bd_force_include bd) (root s) = Inl e
      \<longrightarrow> set_build_data w bd body s = (Inl e, clear_build_data s))
   \<and> ((bd_artifacts bd = [] \<or> from_lines w (bd_artifacts bd) = Inr spec)
       \<and> normalize_inclusion_map w (bd_force_include bd) (root s) = Inr m
      \<longrightarrow> set_build_data w bd body s
            = (fst (body (overlay_state bd m s)),
               clear_build_data (snd (body (overlay_state bd m s)))))
   \<and> (bd_artifacts bd \<noteq> [] \<and> match_file w (bd_artifacts bd) p
      \<longrightarrow> include_path w p is_package (overlay_state bd m s)
            = (Inr True, overlay_state bd m s))
   \<and> (fst (force_include w (overlay_state bd m s)) = Inr fi
       \<and> distinct (map fst (build_force_include s))
      \<longrightarrow> (\<exists>r. fst (get_force_include w (overlay_state bd m s)) = Inr r
               \<and> (\<forall>k. k \<in> fst ` set m \<longrightarrow> map_of r k = map_of (rev m) k)))
   \<and> (consistent w s \<and> build_artifact_spec s = None \<and> build_force_include s = []
       \<and> (\<forall>s1. consistent w s1 \<and> fresh s1 = fresh s
               \<longrightarrow> consistent w (snd (body s1)) \<and> fresh (snd (body s1)) = fresh s)
      \<longrightarrow> fst (include_path w p is_package (snd (set_build_data w bd body s)))
            = fst (include_path w p is_package s)
          \<and> fst (get_force_include w (snd (set_build_data w bd body s)))
            = fst (get_force_include w s)
          \<and> fst (get_force_include w s) = fst (force_include w s))"
proof (intro conjI impI)
  let ?t = "snd (set_build_data w bd body s)"
  show r1: "build_artifact_spec ?t = None"
    by (simp add: set_build_data_def clear_build_data_def case_prod_unfold split: sum.splits)
  show r2: "build_force_include ?t = []"
    by (simp add: set_build_data_def clear_build_data_def case_prod_unfold split: sum.splits)
  show "set_build_data w bd body s = (Inl e, clear_build_data s)"
    if "bd_artifacts bd \<noteq> [] \<and> from_lines w (bd_artifacts bd) = Inl e"
    using that by (simp add: set_build_data_def enter_build_data_eq)
  show "set_build_data w bd body s = (Inl e, clear_build_data s)"
    if "(bd_artifacts bd = [] \<or> from_lines w (bd_artifacts bd) = Inr spec)
        \<and> normalize_inclusion_map w (bd_force_include bd) (root s) = Inl e"
    using that by (auto simp: set_build_data_def enter_build_data_eq)
  show "set_build_data w bd body s
            = (fst (body (overlay_state bd m s)),
               clear_build_data (snd (body (overlay_state bd m s))))"
    if "(bd_artifacts bd = [] \<or> from_lines w (bd_artifacts bd) = Inr spec)
        \<and> normalize_inclusion_map w (bd_force_include bd) (root s) = Inr m"
    using that by (auto simp: set_build_data_def enter_build_data_eq case_prod_unfold)
  show "include_path w p is_package (overlay_state bd m s) = (Inr True, overlay_state bd m s)"
    if "bd_artifacts bd \<noteq> [] \<and> match_file w (bd_artifacts bd) p"
    using that by (simp add: include_path_def path_is_build_artifact_def overlay_state_def)
  show "\<exists>r. fst (get_force_include w (overlay_state bd m s)) = Inr r
                      \<and> (\<forall>k. k \<in> fst ` set m \<longrightarrow> map_of r k = map_of (rev m) k)"
    if "fst (force_include w (overlay_state bd m s)) = Inr fi
          \<and> distinct (map fst (build_force_include s))"
    using that by (simp add: get_force_include_eq overlay_state_def overlay_lookup)
  assume h: "consistent w s \<and> build_artifact_spec s = None \<and> build_force_include s = []
       \<and> (\<forall>s1. consistent w s1 \<and> fresh s1 = fresh s
               \<longrightarrow> consistent w (snd (body s1)) \<and> fresh (snd (body s1)) = fresh s)"
  have t: "consistent w ?t \<and> fresh ?t = fresh s"
  proof (cases "bd_artifacts bd \<noteq> [] \<and> isl (from_lines w (bd_artifacts bd))")
    case True
    then show ?thesis using h by (simp add: set_build_data_def enter_build_data_eq)
  next
    case False
    show ?thesis
    proof (cases "normalize_inclusion_map w (bd_force_include bd) (root s)")
      case (Inl e)
      then show ?thesis using h False by (auto simp: set_build_data_def enter_build_data_eq)
    next
      case (Inr m)
      have "consistent w (overlay_state bd m s) \<and> fresh (overlay_state bd m s) = fresh s"
        using h by (simp add: overlay_state_def)
      then have "consistent w (snd (body (overlay_state bd m s)))
                 \<and> fresh (snd (body (overlay_state bd m s))) = fresh s"
        using h by blast
      then show ?thesis
        using Inr False by (auto simp: set_build_data_def enter_build_data_eq case_prod_unfold)
    qed
  qed
  show "fst (include_path w p is_package ?t) = fst (include_path w p is_package s)"
    using include_path_value_cong [of w s ?t] t h r1 by simp
  show "fst (get_force_include w ?t) = fst (get_force_include w s)"
    using get_force_include_value_cong [of w s ?t] t h r2 by simp
  show "fst (get_force_include w s) = fst (force_include w s)"
    using h by (simp add: get_force_include_eq split: sum.splits)
qed


definition excluding_example :: BuilderConfig where
  "excluding_example =
     init wheel_builder ''/p'' ''wheel'' [(''exclude'', PList [PStr ''built.so''])] []"

definition hook_build_data :: build_data where
  "hook_build_data =
     \<lparr> bd_artifacts = [''built.so''], bd_force_include = [(''a.txt'', ''pkg/a.txt'')] \<rparr>"

definition failing_body :: "unit run" where
  "failing_body s = (Inl (ValueError ''hook failed''), s)"

text \<open>A world whose pattern compiler refuses the line \<^verbatim>\<open>!\<close>, a negation of nothing, and
  build data with that line.\<close>

definition strict_world :: world where
  "strict_world =
     plain_world\<lparr> pattern_error :=
       (\<lambda>lines. if ''!'' \<in> set lines then Some (ValueError ''Invalid git pattern: !'')
                else None) \<rparr>"

definition refused_build_data :: build_data where
  "refused_build_data = \<lparr> bd_artifacts = [''!''], bd_force_include = [(''a.txt'', ''pkg/a.txt'')] \<rparr>"

lemma excluding_example_include_path:
  "fst (include_path plain_world ''built.so'' True excluding_example) = Inr False"
proof -
  have c: "consistent plain_world excluding_example"
    by (simp add: excluding_example_def consistent_init)
  have a: "fst (artifact_spec plain_world excluding_example) = Inr None"
    by (simp add: excluding_example_def init_def artifact_spec_def artifact_patterns_option_def
          option_config_def dict_contains_def dict_get_def global_location_def string_array_def
          Let_def)
  have op: "fst (only_packages excluding_example) = Inr False"
    by (simp add: excluding_example_def init_def only_packages_def boolean_option_def
          dict_get_def)
  have i: "fst (include_spec plain_world excluding_example) = Inr None"
    by (simp add: excluding_example_def init_def include_spec_def include_patterns_option_def
          option_config_def dict_contains_def dict_get_def global_location_def string_array_def
          default_include_def packages_def packages_option_def default_packages_def Let_def)
  have x: "fst (exclude_spec plain_world excluding_example)
             = Inr (Some (PathSpec [''.git'', ''__pycache__'', ''*.py[cod]'', ''built.so'']))"
    by (simp add: excluding_example_def init_def exclude_spec_def exclude_patterns_option_def
          option_config_def dict_contains_def dict_get_def global_location_def string_array_def
          ignore_vcs_def boolean_option_def default_global_exclude_def
          load_vcs_ignore_patterns_def plain_world_def compile_patterns_def from_lines_def Let_def)
  have b: "\<not> path_is_build_artifact plain_world ''built.so'' excluding_example"
    by (simp add: excluding_example_def init_def path_is_build_artifact_def)
  have m: "match_file plain_world lines q = (q \<in> set lines)" for lines q
    by (simp add: plain_world_def)
  show ?thesis
    using include_path_run(1) [OF c, of "''built.so''" True] a op i x b
    by (simp add: include_path_lazy_def matches_def m)
qed

theorem build_data_overlay_scoped_witness:
  "fst (set_build_data plain_world hook_build_data failing_body excluding_example)
     = Inl (ValueError ''hook failed'')
   \<and> build_artifact_spec
        (snd (set_build_data plain_world hook_build_data failing_body excluding_example)) = None
   \<and> build_force_include
        (snd (set_build_data plain_world hook_build_data failing_body excluding_example)) = []
   \<and> fst (include_path plain_world ''built.so'' True
            (overlay_state hook_build_data [(''a.txt'', ''pkg/a.txt'')] excluding_example))
       = Inr True
   \<and> fst (include_path plain_world ''built.so'' True excluding_example) = Inr False
   \<and> fst (include_path plain_world ''built.so'' True
            (snd (set_build_data plain_world hook_build_data failing_body excluding_example)))
       = Inr False
   \<and> set_build_data strict_world refused_build_data failing_body excluding_example
       = (Inl (ValueError ''Invalid git pattern: !''), excluding_example)"
proof -
  have n: "normalize_inclusion_map plain_world (bd_force_include hook_build_data)
             (root excluding_example) = Inr [(''a.txt'', ''pkg/a.txt'')]"
    by (simp add: plain_world_def hook_build_data_def)
  have f: "from_lines plain_world (bd_artifacts hook_build_data) = Inr (PathSpec [''built.so''])"
    by (simp add: plain_world_def hook_build_data_def from_lines_def)
  have a: "bd_artifacts hook_build_data \<noteq> []
           \<and> match_file plain_world (bd_artifacts hook_build_data) ''built.so''"
    by (simp add: plain_world_def hook_build_data_def)
  have h: "consistent plain_world excluding_example
           \<and> build_artifact_spec excluding_example = None
           \<and> build_force_include excluding_example = []
           \<and> (\<forall>s1. consistent plain_world s1 \<and> fresh s1 = fresh excluding_example
                 \<longrightarrow> consistent plain_world (snd (failing_body s1))
                     \<and> fresh (snd (failing_body s1)) = fresh excluding_example)"
    by (simp add: excluding_example_def consistent_init failing_body_def, simp add: init_def)
  have r: "bd_artifacts refused_build_data \<noteq> []
           \<and> from_lines strict_world (bd_artifacts refused_build_data)
               = Inl (ValueError ''Invalid git pattern: !'')"
    by (simp add: strict_world_def refused_build_data_def from_lines_def)
  have e: "clear_build_data excluding_example = excluding_example"
    by (simp add: clear_build_data_def excluding_example_def init_def)
  note th = build_data_overlay_scoped [of plain_world hook_build_data failing_body
      excluding_example _ "PathSpec [''built.so'']" "[(''a.txt'', ''pkg/a.txt'')]" "''built.so''" True]
  have 1: "set_build_data plain_world hook_build_data failing_body excluding_example
            = (fst (failing_body
                      (overlay_state hook_build_data [(''a.txt'', ''pkg/a.txt'')] excluding_example)),
               clear_build_data (snd (failing_body
                      (overlay_state hook_build_data [(''a.txt'', ''pkg/a.txt'')] excluding_example))))"
    using th n f by blast
  have 2: "include_path plain_world ''built.so'' True
            (overlay_state hook_build_data [(''a.txt'', ''pkg/a.txt'')] excluding_example)
           = (Inr True, overlay_state hook_build_data [(''a.txt'', ''pkg/a.txt'')] excluding_example)"
    using th a by blast
  have 3: "fst (include_path plain_world ''built.so'' True
            (snd (set_build_data plain_world hook_build_data failing_body excluding_example)))
           = fst (include_path plain_world ''built.so'' True excluding_example)"
    using th h by blast
  have 4: "build_artifact_spec
        (snd (set_build_data plain_world hook_build_data failing_body excluding_example)) = None
   \<and> build_force_include
        (snd (set_build_data plain_world hook_build_data failing_body excluding_example)) = []"
    using th by blast
  have 5: "set_build_data strict_world refused_build_data failing_body excluding_example
            = (Inl (ValueError ''Invalid git pattern: !''), clear_build_data excluding_example)"
    using build_data_overlay_scoped [of strict_world refused_build_data failing_body
        excluding_example "ValueError ''Invalid git pattern: !''"] r by blast
  show ?thesis
    using 1 2 3 4 5 e excluding_example_include_path by (simp add: failing_body_def)
qed


section \<open>Invalid pattern lists\<close>

lemma check_strings_not_string:
  "i < length xs \<Longrightarrow> (\<forall>j<i. \<exists>str. xs ! j = PStr str \<and> str \<noteq> []) \<Longrightarrow>
   (\<forall>str. xs ! i \<noteq> PStr str) \<Longrightarrow>
   check_strings kind loc n xs = Inl (must_be_string kind (n + i) loc)"
proof (induction xs arbitrary: i n)
  case Nil
  then show ?case by simp
next
  case (Cons x xs)
  show ?case
  proof (cases i)
    case 0
    then show ?thesis using Cons.prems by (cases x) auto
  next
    case (Suc k)
    have "\<exists>str. x = PStr str \<and> str \<noteq> []"
      using Cons.prems(2) Suc by (metis nth_Cons_0 zero_less_Suc)
    moreover have "check_strings kind loc (Suc n) xs = Inl (must_be_string kind (Suc n + k) loc)"
      using Cons.prems Suc by (intro Cons.IH) auto
    ultimately show ?thesis using Suc by auto
  qed
qed

lemma check_strings_empty:
  "i < length xs \<Longrightarrow> (\<forall>j<i. \<exists>str. xs ! j = PStr str \<and> str \<noteq> []) \<Longrightarrow>
   xs ! i = PStr [] \<Longrightarrow>
   check_strings kind loc n xs = Inl (cannot_be_empty kind (n + i) loc)"
proof (induction xs arbitrary: i n)
  case Nil
  then show ?case by simp
next
  case (Cons x xs)
  show ?case
  proof (cases i)
    case 0
    then show ?thesis using Cons.prems by auto
  next
    case (Suc k)
    have "\<exists>str. x = PStr str \<and> str \<noteq> []"
      using Cons.prems(2) Suc by (metis nth_Cons_0 zero_less_Suc)
    moreover have "check_strings kind loc (Suc n) xs = Inl (cannot_be_empty kind (Suc n + k) loc)"
      using Cons.prems Suc by (intro Cons.IH) auto
    ultimately show ?thesis using Suc by auto
  qed
qed

text \<open>The three pattern options, the property of each, and the backing field that tells
  whether the property has been computed.\<close>

datatype pattern_option = Include | Exclude | Artifacts

fun pattern_key :: "pattern_option \<Rightarrow> string" where
  "pattern_key Include = ''include''"
| "pattern_key Exclude = ''exclude''"
| "pattern_key Artifacts = ''artifacts''"

fun pattern_spec :: "world \<Rightarrow> pattern_option \<Rightarrow> PathSpec option run" where
  "pattern_spec w Include = include_spec w"
| "pattern_spec w Exclude = exclude_spec w"
| "pattern_spec w Artifacts = artifact_spec w"

fun pattern_cache :: "pattern_option \<Rightarrow> BuilderConfig \<Rightarrow> string list option" where
  "pattern_cache Include = c_include_patterns"
| "pattern_cache Exclude = c_exclude_patterns"
| "pattern_cache Artifacts = c_artifact_patterns"

text \<open>The configured value of an option (\<open>PList []\<close> when it is configured nowhere) and
  the key path that the messages name.\<close>

definition configured_value :: "string \<Rightarrow> BuilderConfig \<Rightarrow> pyval" where
  "configured_value key s =
     (case map_of (target_config s) key of
        Some v \<Rightarrow> v
      | None \<Rightarrow> (case map_of (build_config s) key of Some v \<Rightarrow> v | None \<Rightarrow> PList []))"

definition key_path :: "string \<Rightarrow> BuilderConfig \<Rightarrow> string" where
  "key_path key s =
     (if map_of (target_config s) key \<noteq> None
      then ''tool.hatch.build.targets.'' @ plugin_name s @ ''.'' @ key
      else ''tool.hatch.build.'' @ key)"

lemma pattern_spec_invalid:
  assumes "pattern_cache k s = None"
    and "string_array ''Pattern'' (key_path (pattern_key k) s)
           (configured_value (pattern_key k) s) = Inl e"
  shows "pattern_spec w k s = (Inl e, s)"
proof -
  have "snd (option_config key s) = key_path key s" for key
    by (simp add: option_config_def key_path_def dict_contains_def target_location_def
          global_location_def)
  moreover have "dict_get (fst (option_config key s)) key (PList []) = configured_value key s"
    for key
    by (auto simp: option_config_def configured_value_def dict_contains_def dict_get_def
          split: option.splits)
  ultimately show ?thesis
    using assms
    by (cases k)
      (simp_all add: include_spec_def exclude_spec_def artifact_spec_def
        include_patterns_option_def exclude_patterns_option_def artifact_patterns_option_def
        default_include_def default_exclude_def case_prod_unfold)
qed

text \<open>
  Claim C7. On first access of the include, exclude or artifact specification: a configured
  value that is not a list raises the type error naming the key path of the option; a list
  whose first invalid element, at 0-based position \<open>i\<close>, is not a string raises the type
  error, and one whose first invalid element is the empty string raises the value error,
  both naming the index \<open>i + 1\<close> and the key path. In each case the object is left as it
  was: no specification is compiled and nothing is cached.
\<close>

theorem pattern_list_errors:
  assumes "pattern_cache k s = None"
  shows
    "((\<forall>xs. configured_value (pattern_key k) s \<noteq> PList xs)
       \<longrightarrow> pattern_spec w k s =
             (Inl (TypeError (''Field `'' @ key_path (pattern_key k) s
                                @ ''` must be an array of strings'')), s))
     \<and> (configured_value (pattern_key k) s = PList xs \<and> i < length xs
          \<and> (\<forall>j<i. \<exists>str. xs ! j = PStr str \<and> str \<noteq> [])
          \<and> (\<forall>str. xs ! i \<noteq> PStr str)
       \<longrightarrow> pattern_spec w k s =
             (Inl (TypeError (''Pattern #'' @ str_nat (i + 1) @ '' in field `''
                                @ key_path (pattern_key k) s @ ''` must be a string'')), s))
     \<and> (configured_value (pattern_key k) s = PList xs \<and> i < length xs
          \<and> (\<forall>j<i. \<exists>str. xs ! j = PStr str \<and> str \<noteq> [])
          \<and> xs ! i = PStr []
       \<longrightarrow> pattern_spec w k s =
             (Inl (ValueError (''Pattern #'' @ str_nat (i + 1) @ '' in field `''
                                 @ key_path (pattern_key k) s
                                 @ ''` cannot be an empty string'')), s))"
proof (intro conjI impI)
  assume "\<forall>xs. configured_value (pattern_key k) s \<noteq> PList xs"
  then have "string_array ''Pattern'' (key_path (pattern_key k) s)
               (configured_value (pattern_key k) s)
             = Inl (must_be_array_of_strings (key_path (pattern_key k) s))"
    by (cases "configured_value (pattern_key k) s") (simp_all add: string_array_def)
  then show "pattern_spec w k s =
             (Inl (TypeError (''Field `'' @ key_path (pattern_key k) s
                                @ ''` must be an array of strings'')), s)"
    using pattern_spec_invalid [OF assms] by (simp add: must_be_array_of_strings_def)
next
  assume "configured_value (pattern_key k) s = PList xs \<and> i < length xs
          \<and> (\<forall>j<i. \<exists>str. xs ! j = PStr str \<and> str \<noteq> [])
          \<and> (\<forall>str. xs ! i \<noteq> PStr str)"
  then have "string_array ''Pattern'' (key_path (pattern_key k) s)
               (configured_value (pattern_key k) s)
             = Inl (must_be_string ''Pattern'' (1 + i) (key_path (pattern_key k) s))"
    by (simp add: string_array_def check_strings_not_string [where i = i])
  then show "pattern_spec w k s =
             (Inl (TypeError (''Pattern #'' @ str_nat (i + 1) @ '' in field `''
                                @ key_path (pattern_key k) s @ ''` must be a string'')), s)"
    using pattern_spec_invalid [OF assms] by (simp add: must_be_string_def)
next
  assume "configured_value (pattern_key k) s = PList xs \<and> i < length xs
          \<and> (\<forall>j<i. \<exists>str. xs ! j = PStr str \<and> str \<noteq> [])
          \<and> xs ! i = PStr []"
  then have "string_array ''Pattern'' (key_path (pattern_key k) s)
               (configured_value (pattern_key k) s)
             = Inl (cannot_be_empty ''Pattern'' (1 + i) (key_path (pattern_key k) s))"
    by (simp add: string_array_def check_strings_empty [where i = i])
  then show "pattern_spec w k s =
             (Inl (ValueError (''Pattern #'' @ str_nat (i + 1) @ '' in field `''
                                 @ key_path (pattern_key k) s
                                 @ ''` cannot be an empty string'')), s)"
    using pattern_spec_invalid [OF assms] by (simp add: cannot_be_empty_def)
qed

definition bad_patterns_example :: BuilderConfig where
  "bad_patterns_example =
     init wheel_builder ''/p'' ''wheel''
       [(''include'', PStr ''src''), (''artifacts'', PList [PStr ''*.so'', PStr ''''])]
       [(''exclude'', PList [PStr ''a'', PStr ''b'', PInt 3])]"


lemma str_nat_digits:
  "str_nat (Suc 0) = ''1''" "str_nat (Suc (Suc 0)) = ''2''" "str_nat 2 = ''2''" "str_nat 3 = ''3''"
  by code_simp+

theorem pattern_list_errors_witness:
  "include_spec plain_world bad_patterns_example
     = (Inl (TypeError ''Field `tool.hatch.build.include` must be an array of strings''),
        bad_patterns_example)
   \<and> exclude_spec plain_world bad_patterns_example
     = (Inl (TypeError
          ''Pattern #3 in field `tool.hatch.build.targets.wheel.exclude` must be a string''),
        bad_patterns_example)
   \<and> artifact_spec plain_world bad_patterns_example
     = (Inl (ValueError
          ''Pattern #2 in field `tool.hatch.build.artifacts` cannot be an empty string''),
        bad_patterns_example)"
proof -
  have c: "pattern_cache k bad_patterns_example = None" for k
    by (cases k) (simp_all add: bad_patterns_example_def init_def)
  have v: "configured_value ''include'' bad_patterns_example = PStr ''src''"
    "configured_value ''exclude'' bad_patterns_example = PList [PStr ''a'', PStr ''b'', PInt 3]"
    "configured_value ''artifacts'' bad_patterns_example = PList [PStr ''*.so'', PStr '''']"
    by (simp_all add: configured_value_def bad_patterns_example_def init_def)
  have p: "key_path ''include'' bad_patterns_example = ''tool.hatch.build.include''"
    "key_path ''exclude'' bad_patterns_example = ''tool.hatch.build.targets.wheel.exclude''"
    "key_path ''artifacts'' bad_patterns_example = ''tool.hatch.build.artifacts''"
    by (simp_all add: key_path_def bad_patterns_example_def init_def)
  have 1: "\<forall>j<2. \<exists>str. [PStr ''a'', PStr ''b'', PInt 3] ! j = PStr str \<and> str \<noteq> []"
    by (simp add: less_Suc_eq numeral_2_eq_2)
  have 2: "\<forall>j<1. \<exists>str. [PStr ''*.so'', PStr ''''] ! j = PStr str \<and> str \<noteq> []"
    by simp
  show ?thesis
    using pattern_list_errors [OF c, where k = Include and w = plain_world]
      pattern_list_errors [OF c, where k = Exclude and w = plain_world and i = 2
        and xs = "[PStr ''a'', PStr ''b'', PInt 3]"]
      pattern_list_errors [OF c, where k = Artifacts and w = plain_world and i = 1
        and xs = "[PStr ''*.so'', PStr '''']"]
      1 2
    by (simp add: v p str_nat_digits)
qed


section \<open>Merging and enabling build hooks\<close>

lemma check_tables_valid:
  "check_tables loc (map (\<lambda>(n, c). (n, PDict c)) hooks) = Inr hooks"
  by (induction hooks) auto

lemma update_new_key: "k \<notin> fst ` set d \<Longrightarrow> AList.update k v d = d @ [(k, v)]"
  by (induction d) auto

lemma dict_update_distinct:
  "distinct (map fst (d @ e)) \<Longrightarrow> dict_update d e = d @ e"
  unfolding dict_update_def
proof (induction e arbitrary: d)
  case Nil
  then show ?case by simp
next
  case (Cons x e)
  obtain k v where x: "x = (k, v)" by (cases x)
  have "k \<notin> fst ` set d" using Cons.prems x by auto
  then have "AList.update k v d = d @ [(k, v)]" by (rule update_new_key)
  moreover have "distinct (map fst ((d @ [(k, v)]) @ e))" using Cons.prems x by simp
  ultimately show ?case using Cons.IH [of "d @ [(k, v)]"] x by simp
qed

lemma setdefault_fold:
  "distinct (map fst e) \<Longrightarrow>
   fold (\<lambda>(n, c). dict_setdefault n c) e d = d @ filter (\<lambda>(n, c). n \<notin> fst ` set d) e"
proof (induction e arbitrary: d)
  case Nil
  then show ?case by simp
next
  case (Cons x e)
  obtain k v where x: "x = (k, v)" by (cases x)
  have k: "k \<notin> fst ` set e" using Cons.prems x by auto
  have d: "distinct (map fst e)" using Cons.prems by simp
  show ?case
  proof (cases "k \<in> fst ` set d")
    case True
    then have "dict_setdefault k v d = d"
      by (auto simp: dict_setdefault_def dict_contains_def map_of_eq_None_iff)
    then show ?thesis using Cons.IH [OF d, of d] x True by simp
  next
    case False
    then have s: "dict_setdefault k v d = d @ [(k, v)]"
      by (auto simp: dict_setdefault_def dict_contains_def map_of_eq_None_iff)
    have "filter (\<lambda>(n, c). n \<notin> fst ` set (d @ [(k, v)])) e
            = filter (\<lambda>(n, c). n \<notin> fst ` set d) e"
      using k by (intro filter_cong) (auto simp: image_iff)
    then show ?thesis using Cons.IH [OF d, of "d @ [(k, v)]"] x False s by simp
  qed
qed

lemma enabled_fold:
  "distinct (map fst (acc @ hooks)) \<Longrightarrow>
   fold (\<lambda>(n, c) final. if P n c then AList.update n c final else final) hooks acc
     = acc @ filter (\<lambda>(n, c). P n c) hooks"
proof (induction hooks arbitrary: acc)
  case Nil
  then show ?case by simp
next
  case (Cons x hooks)
  obtain k v where x: "x = (k, v)" by (cases x)
  have "k \<notin> fst ` set acc" using Cons.prems x by auto
  then have u: "AList.update k v acc = acc @ [(k, v)]" by (rule update_new_key)
  have 1: "distinct (map fst ((acc @ [(k, v)]) @ hooks))" using Cons.prems x by simp
  have 2: "distinct (map fst (acc @ hooks))" using Cons.prems x by simp
  show ?case
    using Cons.IH [OF 1] Cons.IH [OF 2] x u by simp
qed

text \<open>The merged hook table of the claim: the target-level entries, then the global-level
  entries whose names are not target-level.\<close>

definition merged_hooks ::
  "(string \<times> pydict) list \<Rightarrow> (string \<times> pydict) list \<Rightarrow> (string \<times> pydict) list" where
  "merged_hooks target_hooks global_hooks =
     target_hooks @ filter (\<lambda>(n, c). n \<notin> fst ` set target_hooks) global_hooks"

lemma distinct_merged_hooks:
  "distinct (map fst th) \<Longrightarrow> distinct (map fst gh) \<Longrightarrow> distinct (map fst (merged_hooks th gh))"
  by (auto simp: merged_hooks_def distinct_map_filter image_iff)

text \<open>
  Claim C5. On first access of \<^verbatim>\<open>hook_config\<close>, with well-formed hook tables (every
  hook's options a table, names pairwise distinct within a table): the result is empty
  when the disable-all switch is active; otherwise it is the merged table (target-level
  entries in their order, then the global-level entries whose names are not target-level,
  in their order) restricted to the hooks for which the force-enable-all switch is active,
  or the per-hook switch \<^verbatim>\<open>HOOK_ENABLE_PREFIX + name.upper()\<close> is active, or the option
  \<^verbatim>\<open>enable-by-default\<close> (true when absent) has a true truth value. A switch is active when
  its environment variable is \<^verbatim>\<open>1\<close> or \<^verbatim>\<open>true\<close>. The other hooks are absent from the
  result.
\<close>

theorem hook_config_merged_and_enabled:
  assumes "c_hook_config s = None"
    and "dict_get (target_config s) ''hooks'' (PDict []) = PDict (map (\<lambda>(n, c). (n, PDict c)) th)"
    and "dict_get (build_config s) ''hooks'' (PDict []) = PDict (map (\<lambda>(n, c). (n, PDict c)) gh)"
    and "distinct (map fst th)" and "distinct (map fst gh)"
  shows "fst (hook_config w s) =
           Inr (if env_var_enabled w (NO_HOOKS w) False then []
                else filter (\<lambda>(hook_name, config).
                         env_var_enabled w (HOOKS_ENABLE w) False
                         \<or> env_var_enabled w (HOOK_ENABLE_PREFIX w @ str_upper w hook_name) False
                         \<or> truthy (dict_get config ''enable-by-default'' (PBool True)))
                       (merged_hooks th gh))"
proof -
  have m: "fold (\<lambda>(hook_name, config). dict_setdefault hook_name config) gh (dict_update [] th)
             = merged_hooks th gh"
    using assms(4,5) by (simp add: dict_update_distinct setdefault_fold merged_hooks_def)
  have d: "distinct (map fst ([] @ merged_hooks th gh))"
    using assms(4,5) by (simp add: distinct_merged_hooks)
  have "hook_config_option w s = Inr (final_hook_config w (merged_hooks th gh))"
    using assms(2,3) by (simp add: hook_config_option_def check_tables_valid m)
  then show ?thesis
    using assms(1) enabled_fold [OF d]
    by (auto simp: hook_config_def final_hook_config_def hook_enabled_def Let_def
          intro!: filter_cong)
qed

definition hooks_example :: BuilderConfig where
  "hooks_example =
     init wheel_builder ''/p'' ''wheel''
       [(''hooks'', PDict [(''custom'', PDict [(''path'', PStr ''global.py'')]),
                           (''OFF'', PDict [(''enable-by-default'', PBool False)]),
                           (''FORCED'', PDict [(''enable-by-default'', PBool False)])])]
       [(''hooks'', PDict [(''custom'', PDict [])])]"

definition forcing_world :: world where
  "forcing_world = plain_world\<lparr>os_environ := [''HATCH_BUILD_HOOK_ENABLE_FORCED'' \<mapsto> ''1'']\<rparr>"

definition no_hooks_world :: world where
  "no_hooks_world = plain_world\<lparr>os_environ := [''HATCH_BUILD_NO_HOOKS'' \<mapsto> ''true'',
                                                  ''HATCH_BUILD_HOOKS_ENABLE'' \<mapsto> ''1'']\<rparr>"


theorem hook_config_merged_and_enabled_witness:
  "fst (hook_config forcing_world hooks_example)
     = Inr [(''custom'', []), (''FORCED'', [(''enable-by-default'', PBool False)])]
   \<and> fst (hook_config no_hooks_world hooks_example) = Inr []"
proof -
  let ?th = "[(''custom'', [])]"
  let ?gh = "[(''custom'', [(''path'', PStr ''global.py'')]),
              (''OFF'', [(''enable-by-default'', PBool False)]),
              (''FORCED'', [(''enable-by-default'', PBool False)])]"
  have 1: "c_hook_config hooks_example = None"
    by (simp add: hooks_example_def init_def)
  have 2: "dict_get (target_config hooks_example) ''hooks'' (PDict [])
             = PDict (map (\<lambda>(n, c). (n, PDict c)) ?th)"
    by (simp add: hooks_example_def init_def dict_get_def)
  have 3: "dict_get (build_config hooks_example) ''hooks'' (PDict [])
             = PDict (map (\<lambda>(n, c). (n, PDict c)) ?gh)"
    by (simp add: hooks_example_def init_def dict_get_def)
  have 4: "distinct (map fst ?th)" by simp
  have 5: "distinct (map fst ?gh)" by simp
  show ?thesis
    using hook_config_merged_and_enabled [OF 1 2 3 4 5, of forcing_world]
      hook_config_merged_and_enabled [OF 1 2 3 4 5, of no_hooks_world]
    by (simp add: forcing_world_def no_hooks_world_def plain_world_def env_var_enabled_def
          merged_hooks_def dict_get_def)
qed


section \<open>The source map and distribution paths\<close>

lemma replace_first_prefix:
  "prefix old str \<Longrightarrow> replace_first old new str = new @ drop (length old) str"
  by (cases str) auto

lemma distribution_path_find:
  "distribution_path srcs p =
     (case find (\<lambda>(source, replacement). prefix source p) srcs of
        None \<Rightarrow> p
      | Some (source, replacement) \<Rightarrow> replacement @ drop (length source) p)"
  by (induction srcs) (auto simp: replace_first_prefix)

lemma distinct_fold_update:
  "distinct (map fst acc) \<Longrightarrow>
   distinct (map fst (fold (\<lambda>x. AList.update (f x) (g x)) xs acc))"
  by (induction xs arbitrary: acc) (auto simp: distinct_update)

lemma distinct_mapping_sources:
  "distinct (map fst acc) \<Longrightarrow> mapping_sources w loc i d acc = Inr r \<Longrightarrow> distinct (map fst r)"
proof (induction d arbitrary: acc i)
  case Nil
  then show ?case by simp
next
  case (Cons x d)
  obtain source path where x: "x = (source, path)" by (cases x)
  show ?case
    using Cons.prems x
    by (cases path) (auto simp: Let_def distinct_update split: if_splits dest: Cons.IH [rotated])
qed

lemma distinct_explicit_sources:
  "explicit_sources w loc raw = Inr r \<Longrightarrow> distinct (map fst r)"
  using distinct_fold_update [of "[]" "normalize_relative_directory w" "\<lambda>x. []"]
    distinct_mapping_sources [of "[]" w loc 1]
  by (cases raw) (auto simp: explicit_sources_def split: sum.splits)

lemma distinct_add_package_source:
  "distinct (map fst srcs) \<Longrightarrow> distinct (map fst (add_package_source w rp srcs))"
  by (auto simp: add_package_source_def distinct_update split: prod.splits)

lemma distinct_package_sources:
  "distinct (map fst srcs) \<Longrightarrow> distinct (map fst (package_sources w pkgs srcs))"
  unfolding package_sources_def
  by (induction pkgs arbitrary: srcs) (auto simp: distinct_add_package_source)

lemma sorted_keys_sort:
  fixes xs :: "(string \<times> string) list"
  shows "sorted (map fst (sort xs))"
proof -
  have "sorted_wrt (\<le>) (sort xs)" by simp
  then have "sorted_wrt (\<lambda>x y. fst x \<le> fst y) (sort xs)"
    by (rule sorted_wrt_mono_rel [rotated]) (auto simp: less_eq_prod_def)
  then show ?thesis by (simp add: sorted_map)
qed

lemma distinct_keys_sort:
  fixes xs :: "(string \<times> string) list"
  shows "distinct (map fst xs) \<Longrightarrow> distinct (map fst (sort xs))"
  by (simp add: distinct_map)

lemma sources_value_sorted:
  assumes "sources_value w s = Inr srcs"
  shows "sorted (map fst srcs) \<and> distinct (map fst srcs)"
proof -
  obtain src0 pkgs where e: "sources_option w s = Inr src0"
      and r: "srcs = sort (package_sources w pkgs src0)"
    using assms by (auto simp: sources_value_def split: sum.splits)
  have "distinct (map fst src0)"
    using e distinct_explicit_sources
    by (auto simp: sources_option_def case_prod_unfold Let_def)
  then show ?thesis
    using r by (simp add: sorted_keys_sort distinct_keys_sort distinct_package_sources)
qed

text \<open>
  Claim C6. When \<^verbatim>\<open>sources\<close> returns the map \<open>srcs\<close>, \<^verbatim>\<open>get_distribution_path(p)\<close>
  returns \<open>p\<close> with the first source of \<open>srcs\<close> that \<open>p\<close> starts with replaced, at the start
  of \<open>p\<close> and only there, by its replacement, and \<open>p\<close> itself when \<open>p\<close> starts with no
  source. In a consistent state the map is in ascending order of its keys, which are
  pairwise distinct, so "first" is first in the order sorted by key.
\<close>

theorem get_distribution_path_first_match:
  "(fst (sources w s) = Inr srcs
      \<longrightarrow> fst (get_distribution_path w p s) =
            Inr (case find (\<lambda>(source, replacement). prefix source p) srcs of
                   None \<Rightarrow> p
                 | Some (source, replacement) \<Rightarrow> replacement @ drop (length source) p))
   \<and> (consistent w s \<and> fst (sources w s) = Inr srcs
      \<longrightarrow> sorted (map fst srcs) \<and> distinct (map fst srcs))"
proof (intro conjI impI)
  assume "fst (sources w s) = Inr srcs"
  then show "fst (get_distribution_path w p s) =
            Inr (case find (\<lambda>(source, replacement). prefix source p) srcs of
                   None \<Rightarrow> p
                 | Some (source, replacement) \<Rightarrow> replacement @ drop (length source) p)"
    by (simp add: get_distribution_path_def case_prod_unfold distribution_path_find)
next
  assume a: "consistent w s \<and> fst (sources w s) = Inr srcs"
  then have "sources_value w s = Inr srcs"
    using sources_run_value [of w s] by simp
  then have "sorted (map fst srcs) \<and> distinct (map fst srcs)"
    by (rule sources_value_sorted)
  then show "sorted (map fst srcs)" and "distinct (map fst srcs)" by simp_all
qed

definition src_layout_example :: BuilderConfig where
  "src_layout_example =
     init wheel_builder ''/p'' ''wheel''
       [(''sources'', PDict [(''src'', PStr '''')]), (''packages'', PList [PStr ''src/pkg''])] []"



lemmas example_defs =
  init_def plain_world_def wheel_builder_def dict_get_def dict_contains_def option_config_def
  target_location_def global_location_def string_array_def compile_patterns_def from_lines_def
  Let_def

lemma src_layout_example_sources:
  "fst (sources plain_world src_layout_example) = Inr [(''src/'', [])]"
  by (simp add: src_layout_example_def example_defs sources_def sources_option_def
        explicit_sources_def packages_def packages_option_def default_packages_def
        package_sources_def add_package_source_def)

theorem get_distribution_path_first_match_witness:
  "fst (sources plain_world src_layout_example) = Inr [(''src/'', [])]
   \<and> fst (get_distribution_path plain_world ''src/pkg/mod.py'' src_layout_example)
       = Inr ''pkg/mod.py''
   \<and> fst (get_distribution_path plain_world ''docs/index.md'' src_layout_example)
       = Inr ''docs/index.md''
   \<and> sorted (map fst [(''src/'', [])]) \<and> distinct (map fst [(''src/'', [])])"
proof -
  have c: "consistent plain_world src_layout_example"
    by (simp add: src_layout_example_def consistent_init)
  show ?thesis
    using get_distribution_path_first_match [of plain_world src_layout_example
        "[(''src/'', [])]" "''src/pkg/mod.py''"]
      get_distribution_path_first_match [of plain_world src_layout_example
        "[(''src/'', [])]" "''docs/index.md''"]
      src_layout_example_sources c
    by simp
qed


section \<open>Implicit sources of declared packages\<close>

definition overwritten_example :: BuilderConfig where
  "overwritten_example =
     init wheel_builder ''/p'' ''wheel''
       [(''sources'', PDict [(''src'', PStr ''lib'')]), (''packages'', PList [PStr ''src/pkg''])]
       []"

text \<open>
  Claim C4 says that the parent directory of a declared package is registered unless that
  directory is already in the map, so that an explicit replacement for it is never
  overwritten. The guard of the loop tests the package's own directory, not its parent:
  with \<^verbatim>\<open>sources = {"src": "lib"}\<close> and \<^verbatim>\<open>packages = ["src/pkg"]\<close> the explicit entry
  \<^verbatim>\<open>src/\<close> \<open>\<mapsto>\<close> \<^verbatim>\<open>lib/\<close> is replaced by \<^verbatim>\<open>src/\<close> \<open>\<mapsto>\<close> the empty string.
\<close>

theorem implicit_source_overwrites_counterexample:
  "sources_option plain_world overwritten_example = Inr [(''src/'', ''lib/'')]
   \<and> fst (packages plain_world overwritten_example) = Inr [''src/pkg'']
   \<and> fst (sources plain_world overwritten_example) = Inr [(''src/'', [])]
   \<and> map_of [(''src/'', [])] ''src/'' \<noteq> Some ''lib/''"
  by (simp add: overwritten_example_def example_defs sources_def sources_option_def
        explicit_sources_def packages_def packages_option_def default_packages_def
        package_sources_def add_package_source_def)

text \<open>
  Claim C4, as amended. After the explicit entries are registered the declared packages are
  visited in sorted order: the list the loop runs over is the sorted list of the normalized
  configured packages, whatever the order of the configuration. A package whose relative
  path has a directory component and whose own normalized directory is not yet a key of the
  map registers its parent directory with the empty replacement, replacing whatever
  replacement the map held for that directory; a package whose own directory is a key, or
  whose path has no directory component, registers nothing. The source map is the result
  of these visits, sorted by key.
\<close>

theorem implicit_source_registered:
  "(fst (os_path_split w relative_path) \<noteq> []
       \<and> map_of srcs (normalize_relative_directory w relative_path) = None
      \<longrightarrow> map_of (add_package_source w relative_path srcs)
            = (map_of srcs)
                (normalize_relative_directory w (fst (os_path_split w relative_path)) \<mapsto> []))
   \<and> (fst (os_path_split w relative_path) = []
       \<or> map_of srcs (normalize_relative_directory w relative_path) \<noteq> None
      \<longrightarrow> add_package_source w relative_path srcs = srcs)
   \<and> (consistent w s
       \<and> string_array ''Package'' (snd (option_config ''packages'' s))
            (dict_get (fst (option_config ''packages'' s)) ''packages'' (PList default_packages))
           = Inr configured
      \<longrightarrow> fst (packages w s) = Inr (sort (map (normalize_relative_path w) configured))
          \<and> (\<forall>pkgs. fst (packages w s) = Inr pkgs \<longrightarrow> sorted pkgs)
          \<and> (sources_option w s = Inr src0
             \<longrightarrow> fst (sources w s)
                   = Inr (sort (fold (add_package_source w)
                                  (sort (map (normalize_relative_path w) configured)) src0))))"
proof (intro conjI impI)
  show "map_of (add_package_source w relative_path srcs)
            = (map_of srcs)
                (normalize_relative_directory w (fst (os_path_split w relative_path)) \<mapsto> [])"
    if "fst (os_path_split w relative_path) \<noteq> []
       \<and> map_of srcs (normalize_relative_directory w relative_path) = None"
    using that
    by (auto simp: add_package_source_def dict_contains_def update_conv' case_prod_unfold)
  show "add_package_source w relative_path srcs = srcs"
    if "fst (os_path_split w relative_path) = []
       \<or> map_of srcs (normalize_relative_directory w relative_path) \<noteq> None"
    using that by (auto simp: add_package_source_def dict_contains_def case_prod_unfold)
  assume h: "consistent w s
       \<and> string_array ''Package'' (snd (option_config ''packages'' s))
            (dict_get (fst (option_config ''packages'' s)) ''packages'' (PList default_packages))
           = Inr configured"
  have o: "packages_option w s = Inr (sort (map (normalize_relative_path w) configured))"
    using h by (simp add: packages_option_def case_prod_unfold)
  show p: "fst (packages w s) = Inr (sort (map (normalize_relative_path w) configured))"
    using h o by (simp add: packages_value)
  show "\<forall>pkgs. fst (packages w s) = Inr pkgs \<longrightarrow> sorted pkgs"
    using p by simp
  show "fst (sources w s)
          = Inr (sort (fold (add_package_source w)
                         (sort (map (normalize_relative_path w) configured)) src0))"
    if "sources_option w s = Inr src0"
    using that h o by (simp add: sources_run_value sources_value_def package_sources_def)
qed

text \<open>With \<^verbatim>\<open>packages = ["a/b/c", "a/b"]\<close> the order of the visits decides the map: in sorted
  order \<^verbatim>\<open>a/b\<close> registers \<^verbatim>\<open>a/\<close> and then \<^verbatim>\<open>a/b/c\<close> registers \<^verbatim>\<open>a/b/\<close>; in the configured
  order \<^verbatim>\<open>a/b/c\<close> would register \<^verbatim>\<open>a/b/\<close>, after which \<^verbatim>\<open>a/b\<close> registers nothing.\<close>

definition nested_packages_example :: BuilderConfig where
  "nested_packages_example =
     init wheel_builder ''/p'' ''wheel''
       [(''packages'', PList [PStr ''a/b/c'', PStr ''a/b''])] []"

lemma sort_nested_packages: "sort [''a/b/c'', ''a/b''] = [''a/b'', ''a/b/c'']"
  by code_simp

theorem implicit_source_registered_witness:
  "map_of (add_package_source plain_world ''src/pkg'' [(''src/'', ''lib/'')]) ''src/'' = Some []
   \<and> add_package_source plain_world ''src/pkg'' [(''src/pkg/'', ''foo/'')]
       = [(''src/pkg/'', ''foo/'')]
   \<and> consistent plain_world nested_packages_example
   \<and> fst (packages plain_world nested_packages_example) = Inr [''a/b'', ''a/b/c'']
   \<and> sorted [''a/b'', ''a/b/c'']
   \<and> fst (sources plain_world nested_packages_example) = Inr [(''a/'', []), (''a/b/'', [])]
   \<and> fold (add_package_source plain_world) [''a/b/c'', ''a/b''] [] = [(''a/b/'', [])]"
proof -
  have sp: "os_path_split plain_world ''src/pkg'' = (''src'', ''pkg'')"
    "os_path_split plain_world ''a/b'' = (''a'', ''b'')"
    "os_path_split plain_world ''a/b/c'' = (''a/b'', ''c'')"
    by (simp_all add: plain_world_def)
  have nd: "normalize_relative_directory plain_world x = x @ ''/''" for x
    by (simp add: plain_world_def)
  have np: "normalize_relative_path plain_world x = x" for x
    by (simp add: plain_world_def)
  have c: "consistent plain_world nested_packages_example"
    by (simp add: nested_packages_example_def consistent_init)
  have a: "string_array ''Package'' (snd (option_config ''packages'' nested_packages_example))
             (dict_get (fst (option_config ''packages'' nested_packages_example)) ''packages''
                (PList default_packages))
           = Inr [''a/b/c'', ''a/b'']"
    by (simp add: nested_packages_example_def example_defs)
  have o: "sources_option plain_world nested_packages_example = Inr []"
    by (simp add: nested_packages_example_def example_defs sources_option_def
          explicit_sources_def)
  have f: "add_package_source plain_world ''a/b/c'' (add_package_source plain_world ''a/b'' [])
             = [(''a/'', []), (''a/b/'', [])]"
    by (simp add: add_package_source_def sp nd dict_contains_def)
  have g: "fold (add_package_source plain_world) [''a/b/c'', ''a/b''] [] = [(''a/b/'', [])]"
    by (simp add: add_package_source_def sp nd dict_contains_def)
  have s: "sort [(''a/'', []::string), (''a/b/'', [])] = [(''a/'', []), (''a/b/'', [])]"
    by code_simp
  note th = implicit_source_registered [of plain_world _ _ nested_packages_example
      "[''a/b/c'', ''a/b'']" "[]"]
  have 1: "fst (packages plain_world nested_packages_example) = Inr [''a/b'', ''a/b/c'']"
    using th c a by (simp add: np sort_nested_packages)
  have 2: "sorted [''a/b'', ''a/b/c'']"
    using th c a 1 by blast
  have 3: "fst (sources plain_world nested_packages_example)
             = Inr [(''a/'', []), (''a/b/'', [])]"
    using th c a o by (simp add: np sort_nested_packages f s)
  show ?thesis
    using implicit_source_registered [of plain_world "''src/pkg''" "[(''src/pkg/'', ''foo/'')]"]
      implicit_source_registered [of plain_world "''src/pkg''" "[(''src/'', ''lib/'')]"]
      1 2 3 c g
    by (simp add: sp nd)
qed


section \<open>Declared packages are included\<close>

text \<open>
  Modelled from the spec: the matcher of the \<^verbatim>\<open>pathspec\<close> library, which \<^verbatim>\<open>config.py\<close>
  imports and the repository does not contain. Section 4.1 of the specification: the
  matcher's "semantics follow gitignore precedence: later patterns in the list can
  re-include paths excluded by earlier ones (negation)". \<open>verdict line path\<close> is what one
  pattern says of a path: nothing, include (\<open>Some True\<close>) or, for a negated pattern,
  exclude (\<open>Some False\<close>); the last pattern that says something decides, and a path of
  which no pattern says anything does not match.
\<close>

definition gitignore_step :: "(string \<Rightarrow> string \<Rightarrow> bool option) \<Rightarrow> string \<Rightarrow> string \<Rightarrow> bool \<Rightarrow> bool" where
  "gitignore_step verdict path line matched =
     (case verdict line path of None \<Rightarrow> matched | Some include \<Rightarrow> include)"

definition gitignore_match :: "(string \<Rightarrow> string \<Rightarrow> bool option) \<Rightarrow> string list \<Rightarrow> string \<Rightarrow> bool" where
  "gitignore_match verdict lines path = fold (gitignore_step verdict path) lines False"

text \<open>Modelled from the spec: the matcher is given the path with \<^verbatim>\<open>os.path.sep\<close> replaced
  by a forward slash, and the characters that a gitignore pattern does not read literally
  are \<^verbatim>\<open>*\<close>, \<^verbatim>\<open>?\<close>, \<^verbatim>\<open>[\<close> and the backslash.\<close>

definition posix :: "world \<Rightarrow> string \<Rightarrow> string" where
  "posix w path = map (\<lambda>c. if c = os_path_sep w then CHR ''/'' else c) path"

definition glob_free :: "string \<Rightarrow> bool" where
  "glob_free d = (list_all (\<lambda>c. c \<noteq> CHR ''*'' \<and> c \<noteq> CHR ''?'' \<and> c \<noteq> CHR ''['' \<and> c \<noteq> CHR 0x5C) d)"

text \<open>A small matcher with gitignore precedence for the examples, for the patterns that
  gitignore anchors at the root (those with a slash before their last character).
  \<open>glob_prefix pat path\<close>: a prefix of \<open>path\<close> matches the glob \<open>pat\<close>, in which \<^verbatim>\<open>*\<close> stands
  for any characters but the slash, \<^verbatim>\<open>?\<close> for one of them, \<^verbatim>\<open>[...]\<close> for one of the listed
  characters and a backslash makes the next character literal. A pattern that ends with a
  slash matches everything below the directory; another one matches the path itself and
  everything below it; after \<^verbatim>\<open>!\<close> the pattern excludes.\<close>

fun glob_prefix :: "string \<Rightarrow> string \<Rightarrow> bool" where
  "glob_prefix [] path = True"
| "glob_prefix (c # pat) [] = (if c = CHR ''*'' then glob_prefix pat [] else False)"
| "glob_prefix (c # pat) (x # xs) =
     (if c = CHR ''*'' then
        (if glob_prefix pat (x # xs) then True
         else x \<noteq> CHR ''/'' \<and> glob_prefix (c # pat) xs)
      else if c = CHR ''?'' then x \<noteq> CHR ''/'' \<and> glob_prefix pat xs
      else if c = CHR ''['' \<and> CHR '']'' \<in> set pat then
        x \<in> set (takeWhile (\<lambda>y. y \<noteq> CHR '']'') pat)
        \<and> glob_prefix (tl (dropWhile (\<lambda>y. y \<noteq> CHR '']'') pat)) xs
      else if c = CHR 0x5C \<and> pat \<noteq> [] then x = hd pat \<and> glob_prefix (tl pat) xs
      else x = c \<and> glob_prefix pat xs)"

definition glob_verdict :: "string \<Rightarrow> string \<Rightarrow> bool option" where
  "glob_verdict line path =
     (let negated = (line \<noteq> [] \<and> hd line = CHR ''!'');
          body = (if negated then tl line else line);
          anchored = (if body \<noteq> [] \<and> hd body = CHR ''/'' then tl body else body);
          hit = (if anchored \<noteq> [] \<and> last anchored = CHR ''/'' then glob_prefix anchored path
                 else glob_prefix (anchored @ ''/'') (path @ ''/''))
      in if anchored = [] then None else if hit then Some (\<not> negated) else None)"

definition glob_world :: world where
  "glob_world = plain_world\<lparr>match_file := gitignore_match glob_verdict\<rparr>"

definition package_example :: BuilderConfig where
  "package_example =
     init wheel_builder ''/p'' ''wheel''
       [(''include'', PList [PStr ''!pkg/mod.py'']), (''packages'', PList [PStr ''pkg''])] []"

definition bracket_package_example :: BuilderConfig where
  "bracket_package_example =
     init wheel_builder ''/p'' ''wheel'' [(''packages'', PList [PStr ''my[pkg]''])] []"

lemma gitignore_fold_positive:
  "\<forall>q \<in> set qs. verdict q p \<noteq> Some False \<Longrightarrow> fold (gitignore_step verdict p) qs True"
proof (induction qs)
  case Nil
  then show ?case by simp
next
  case (Cons q qs)
  have "gitignore_step verdict p q True"
    using Cons.prems by (cases "verdict q p") (auto simp: gitignore_step_def)
  then show ?case using Cons by simp
qed

lemma gitignore_fold_hit:
  "\<forall>q \<in> set qs. verdict q p \<noteq> Some False \<Longrightarrow> \<exists>q \<in> set qs. verdict q p = Some True \<Longrightarrow>
   fold (gitignore_step verdict p) qs acc"
proof (induction qs arbitrary: acc)
  case Nil
  then show ?case by simp
next
  case (Cons q qs)
  show ?case
  proof (cases "verdict q p = Some True")
    case True
    then have "gitignore_step verdict p q a = True" for a by (simp add: gitignore_step_def)
    then show ?thesis using Cons.prems(1) by (simp add: gitignore_fold_positive)
  next
    case False
    then have "\<exists>q \<in> set qs. verdict q p = Some True" using Cons.prems(2) by auto
    then show ?thesis using Cons.IH Cons.prems(1) by simp
  qed
qed

lemma package_pattern_posix: "package_pattern w pkg = ''/'' @ posix w pkg @ ''/''"
  by (simp add: package_pattern_def posix_def)

lemma posix_under:
  "prefix (pkg @ [os_path_sep w]) p \<Longrightarrow> prefix (posix w pkg @ ''/'') (posix w p)"
  by (auto simp: posix_def prefix_def)

lemma include_spec_compiled:
  assumes "consistent w s" and "include_patterns_option s = Inr pats"
    and "fst (packages w s) = Inr pkgs"
    and "pattern_error w (pats @ map (package_pattern w) pkgs) = None"
  shows "fst (include_spec w s) =
           Inr (if pats = [] \<and> pkgs = [] then None
                else Some (PathSpec (pats @ map (package_pattern w) pkgs)))"
proof -
  have p: "packages_option w s = Inr pkgs"
    using assms(1,3) by (simp add: packages_value)
  have v: "include_patterns_value w s = Inr (pats @ map (package_pattern w) pkgs)"
    using assms(2) p by (simp add: include_patterns_value_def)
  have c: "compile_patterns w (pats @ map (package_pattern w) pkgs)
             = Inr (spec_of (pats @ map (package_pattern w) pkgs))"
    using assms(4) by (simp add: compile_patterns_def from_lines_def spec_of_def)
  show ?thesis
    using include_spec_value [OF assms(1)] v c by (simp add: spec_of_def)
qed

text \<open>
  Claim C9 says that any path under a declared package satisfies the include condition.
  The package's path is pasted into the pattern as it is, and a gitignore pattern reads
  brackets as a character class: with \<^verbatim>\<open>packages = ["my[pkg]"]\<close> the include lines are
  \<^verbatim>\<open>/my[pkg]/\<close>, which matches the directories \<^verbatim>\<open>myp\<close>, \<^verbatim>\<open>myk\<close> and \<^verbatim>\<open>myg\<close> and not the
  declared one, so that \<^verbatim>\<open>my[pkg]/mod.py\<close> is not included.
\<close>

theorem unescaped_package_pattern_counterexample:
  "fst (packages glob_world bracket_package_example) = Inr [''my[pkg]'']
   \<and> prefix (''my[pkg]'' @ [os_path_sep glob_world]) ''my[pkg]/mod.py''
   \<and> fst (include_spec glob_world bracket_package_example)
       = Inr (Some (PathSpec [''/my[pkg]/'']))
   \<and> fst (path_is_included glob_world ''my[pkg]/mod.py'' bracket_package_example) = Inr False
   \<and> fst (include_path glob_world ''my[pkg]/mod.py'' True bracket_package_example) = Inr False
   \<and> fst (path_is_included glob_world ''myp/mod.py'' bracket_package_example) = Inr True"
proof -
  have v: "glob_verdict ''/my[pkg]/'' ''my[pkg]/mod.py'' = None"
    "glob_verdict ''/my[pkg]/'' ''myp/mod.py'' = Some True"
    by (simp_all add: glob_verdict_def)
  have i: "include_spec glob_world bracket_package_example
             = (Inr (Some (PathSpec [''/my[pkg]/''])),
                bracket_package_example
                  \<lparr>c_packages := Some [''my[pkg]''],
                   c_include_spec := Some (PathSpec [''/my[pkg]/'']),
                   c_include_patterns := Some [''/my[pkg]/'']\<rparr>)"
    by (simp add: bracket_package_example_def glob_world_def example_defs include_spec_def
          include_patterns_option_def default_include_def packages_def packages_option_def
          package_pattern_def)
  have m: "match_file glob_world = gitignore_match glob_verdict"
    by (simp add: glob_world_def)
  have a: "fst (artifact_spec glob_world bracket_package_example) = Inr None"
    by (simp add: bracket_package_example_def glob_world_def example_defs artifact_spec_def
          artifact_patterns_option_def)
  have op: "fst (only_packages bracket_package_example) = Inr False"
    by (simp add: bracket_package_example_def init_def only_packages_def boolean_option_def
          dict_get_def)
  have b: "\<not> path_is_build_artifact glob_world ''my[pkg]/mod.py'' bracket_package_example"
    by (simp add: bracket_package_example_def init_def path_is_build_artifact_def)
  have c: "consistent glob_world bracket_package_example"
    by (simp add: bracket_package_example_def consistent_init)
  have 1: "fst (packages glob_world bracket_package_example) = Inr [''my[pkg]'']"
    by (simp add: bracket_package_example_def glob_world_def example_defs packages_def
          packages_option_def)
  have 2: "prefix (''my[pkg]'' @ [os_path_sep glob_world]) ''my[pkg]/mod.py''"
    by (simp add: glob_world_def plain_world_def)
  have 3: "fst (path_is_included glob_world ''my[pkg]/mod.py'' bracket_package_example)
             = Inr False"
    by (simp add: path_is_included_def i m gitignore_match_def gitignore_step_def v)
  have 4: "fst (path_is_included glob_world ''myp/mod.py'' bracket_package_example) = Inr True"
    by (simp add: path_is_included_def i m gitignore_match_def gitignore_step_def v)
  have 5: "fst (include_path glob_world ''my[pkg]/mod.py'' True bracket_package_example)
             = Inr False"
    using include_path_run(1) [OF c, of "''my[pkg]/mod.py''" True] a op b i
    by (simp add: include_path_lazy_def matches_def m gitignore_match_def gitignore_step_def v)
  show ?thesis
    using 1 2 3 4 5 i by simp
qed

text \<open>
  Claim C9, as amended. In every consistent state with valid include patterns \<open>pats\<close> and
  packages \<open>pkgs\<close> whose lines the pattern compiler accepts: the compiled lines are \<open>pats\<close>
  followed by one pattern for each declared package, so the specification is present and
  holds the pattern of every declared package, also when no include pattern is configured;
  the pattern holds no \<^verbatim>\<open>os.path.sep\<close> other than the forward slash. The package's path is
  not escaped. Hence, for a matcher with gitignore precedence that is given the path with
  forward slashes, in which a pattern that starts with a slash never excludes and the
  pattern of a directory written without \<^verbatim>\<open>*\<close>, \<^verbatim>\<open>?\<close>, \<^verbatim>\<open>[\<close> and backslash matches every path
  below that directory: every path \<open>p\<close> under a declared package \<open>pkg\<close> whose path has none
  of these characters satisfies \<^verbatim>\<open>path_is_included\<close>, whatever the configured include
  patterns say.
\<close>

theorem package_patterns_included:
  assumes "consistent w s"
    and "include_patterns_option s = Inr pats" and "fst (packages w s) = Inr pkgs"
    and "pattern_error w (pats @ map (package_pattern w) pkgs) = None"
  shows
    "fst (include_spec w s) =
       Inr (if pats = [] \<and> pkgs = [] then None
            else Some (PathSpec (pats @ map (package_pattern w) pkgs)))
     \<and> (os_path_sep w \<noteq> CHR ''/'' \<longrightarrow> os_path_sep w \<notin> set (package_pattern w pkg))
     \<and> (pkg \<in> set pkgs
        \<longrightarrow> (\<exists>lines. fst (include_spec w s) = Inr (Some (PathSpec lines))
                    \<and> package_pattern w pkg \<in> set lines))
     \<and> (pkg \<in> set pkgs \<and> glob_free (posix w pkg) \<and> prefix (pkg @ [os_path_sep w]) p
         \<and> (\<forall>lines q. match_file w lines q = gitignore_match verdict lines (posix w q))
         \<and> (\<forall>line q. verdict (CHR ''/'' # line) q \<noteq> Some False)
         \<and> (\<forall>d q. glob_free d \<and> prefix (d @ ''/'') q
                   \<longrightarrow> verdict (''/'' @ d @ ''/'') q = Some True)
        \<longrightarrow> fst (path_is_included w p s) = Inr True)"
proof (intro conjI impI)
  show 1: "fst (include_spec w s) =
       Inr (if pats = [] \<and> pkgs = [] then None
            else Some (PathSpec (pats @ map (package_pattern w) pkgs)))"
    using assms by (rule include_spec_compiled)
  show "os_path_sep w \<notin> set (package_pattern w pkg)" if "os_path_sep w \<noteq> CHR ''/''"
    using that by (auto simp: package_pattern_def)
  show "\<exists>lines. fst (include_spec w s) = Inr (Some (PathSpec lines))
                    \<and> package_pattern w pkg \<in> set lines"
    if "pkg \<in> set pkgs"
    using that 1 by auto
  show "fst (path_is_included w p s) = Inr True"
    if h: "pkg \<in> set pkgs \<and> glob_free (posix w pkg) \<and> prefix (pkg @ [os_path_sep w]) p
         \<and> (\<forall>lines q. match_file w lines q = gitignore_match verdict lines (posix w q))
         \<and> (\<forall>line q. verdict (CHR ''/'' # line) q \<noteq> Some False)
         \<and> (\<forall>d q. glob_free d \<and> prefix (d @ ''/'') q
                   \<longrightarrow> verdict (''/'' @ d @ ''/'') q = Some True)"
  proof -
    have u: "prefix (posix w pkg @ ''/'') (posix w p)"
      using h by (simp add: posix_under)
    have hit: "verdict (package_pattern w pkg) (posix w p) = Some True"
      unfolding package_pattern_posix using h u by blast
    have pos: "\<forall>q \<in> set (map (package_pattern w) pkgs). verdict q (posix w p) \<noteq> Some False"
      using h by (auto simp: package_pattern_posix)
    have "\<exists>q \<in> set (map (package_pattern w) pkgs). verdict q (posix w p) = Some True"
      using h hit by auto
    then have "gitignore_match verdict (pats @ map (package_pattern w) pkgs) (posix w p)"
      unfolding gitignore_match_def fold_append comp_def
      using pos by (intro gitignore_fold_hit)
    then show ?thesis
      using h 1 by (auto simp: path_is_included_eq matches_def)
  qed
qed

lemma glob_prefix_literal:
  "glob_free d \<Longrightarrow> glob_prefix (d @ pat) (d @ path) = glob_prefix pat path"
  by (induction d) (simp_all add: glob_free_def)

lemma glob_verdict_literal:
  assumes "glob_free d" "prefix (d @ ''/'') q"
  shows "glob_verdict (''/'' @ d @ ''/'') q = Some True"
proof -
  obtain r where q: "q = d @ ''/'' @ r"
    using assms(2) by (auto simp: prefix_def)
  have "glob_prefix (d @ ''/'') (d @ ''/'' @ r)"
    using assms(1) by (simp add: glob_prefix_literal)
  then show ?thesis
    by (simp add: glob_verdict_def q)
qed

lemma glob_verdict_anchored: "glob_verdict (CHR ''/'' # line) q \<noteq> Some False"
  by (simp add: glob_verdict_def Let_def)

lemma posix_glob_world [simp]: "posix glob_world q = q"
  by (simp add: posix_def glob_world_def plain_world_def map_idI)

theorem package_patterns_included_witness:
  "consistent glob_world package_example
   \<and> fst (include_spec glob_world package_example)
       = Inr (Some (PathSpec [''!pkg/mod.py'', ''/pkg/'']))
   \<and> glob_verdict ''!pkg/mod.py'' ''pkg/mod.py'' = Some False
   \<and> fst (path_is_included glob_world ''pkg/mod.py'' package_example) = Inr True"
proof -
  have 1: "consistent glob_world package_example"
    by (simp add: package_example_def consistent_init)
  have 2: "include_patterns_option package_example = Inr [''!pkg/mod.py'']"
    by (simp add: package_example_def example_defs include_patterns_option_def)
  have 3: "fst (packages glob_world package_example) = Inr [''pkg'']"
    by (simp add: package_example_def glob_world_def example_defs packages_def
          packages_option_def)
  have 4: "pattern_error glob_world ([''!pkg/mod.py''] @ map (package_pattern glob_world) [''pkg''])
             = None"
    by (simp add: glob_world_def plain_world_def)
  have 5: "package_pattern glob_world ''pkg'' = ''/pkg/''"
    by (simp add: package_pattern_def glob_world_def plain_world_def)
  have "os_path_sep glob_world = CHR ''/''"
    by (simp add: glob_world_def plain_world_def)
  then have 6: "glob_free (posix glob_world ''pkg'')
           \<and> prefix (''pkg'' @ [os_path_sep glob_world]) ''pkg/mod.py''"
    by (simp add: glob_free_def)
  have "match_file glob_world = gitignore_match glob_verdict"
    by (simp add: glob_world_def)
  then have 7: "\<forall>lines q. match_file glob_world lines q
             = gitignore_match glob_verdict lines (posix glob_world q)"
    by simp
  have 8: "\<forall>line q. glob_verdict (CHR ''/'' # line) q \<noteq> Some False"
    by (simp add: glob_verdict_anchored)
  have 9: "\<forall>d q. glob_free d \<and> prefix (d @ ''/'') q
             \<longrightarrow> glob_verdict (''/'' @ d @ ''/'') q = Some True"
    using glob_verdict_literal by blast
  have 10: "glob_verdict ''!pkg/mod.py'' ''pkg/mod.py'' = Some False"
    by (simp add: glob_verdict_def)
  note th = package_patterns_included [OF 1 2 3 4, of "''pkg''" "''pkg/mod.py''" glob_verdict]
  have "fst (path_is_included glob_world ''pkg/mod.py'' package_example) = Inr True"
    using th 6 7 8 9 by simp
  then show ?thesis
    using th 1 5 10 by simp
qed


section \<open>Target-level, global-level, default\<close>

definition global_versions_example :: BuilderConfig where
  "global_versions_example =
     init wheel_builder ''/p'' ''wheel''
       [(''versions'', PList [PStr ''editable'']), (''dependencies'', PList [PStr ''b''])]
       [(''dependencies'', PList [PStr ''a''])]"


text \<open>
  Claim C3 lists \<^verbatim>\<open>versions\<close> and \<^verbatim>\<open>dependencies\<close> among the options that fall back
  from the target-level to the global-level table. \<^verbatim>\<open>versions\<close> reads the target-level
  table only: with no target-level \<^verbatim>\<open>versions\<close> and a global-level
  \<^verbatim>\<open>versions = ["editable"]\<close> the result is the builder's default, \<^verbatim>\<open>["standard"]\<close>.
  \<^verbatim>\<open>dependencies\<close> adds the global-level list to the target-level one: with \<^verbatim>\<open>["a"]\<close>
  at target level and \<^verbatim>\<open>["b"]\<close> at global level the result is \<^verbatim>\<open>["a", "b"]\<close>.
\<close>

theorem global_versions_ignored_counterexample:
  "map_of (target_config global_versions_example) ''versions'' = None
   \<and> map_of (build_config global_versions_example) ''versions'' = Some (PList [PStr ''editable''])
   \<and> fst (versions global_versions_example) = Inr [''standard'']
   \<and> map_of (target_config global_versions_example) ''dependencies'' = Some (PList [PStr ''a''])
   \<and> fst (dependencies plain_world global_versions_example) = Inr [''a'', ''b'']"
  by (simp add: global_versions_example_def example_defs versions_def versions_option_def
        ordered_set_extend_def ordered_set_add_def
        dependencies_def configured_dependencies_def dependency_array_def
        require_runtime_dependencies_def boolean_option_def hook_config_def
        hook_config_option_def final_hook_config_def env_var_enabled_def dict_update_def
        all_dependencies_def)

text \<open>The layered lookup of the claim: the target-level value when the key is there, else
  the global-level value, else the default.\<close>

definition layered_value :: "string \<Rightarrow> pyval \<Rightarrow> BuilderConfig \<Rightarrow> pyval" where
  "layered_value key dflt s =
     (case map_of (target_config s) key of
        Some v \<Rightarrow> v
      | None \<Rightarrow> (case map_of (build_config s) key of Some v \<Rightarrow> v | None \<Rightarrow> dflt))"

definition layered_boolean :: "string \<Rightarrow> bool \<Rightarrow> BuilderConfig \<Rightarrow> error + bool" where
  "layered_boolean key dflt s =
     (case layered_value key (PBool dflt) s of
        PBool b \<Rightarrow> Inr b
      | _ \<Rightarrow> Inl (TypeError (''Field `'' @ key_path key s @ ''` must be a boolean'')))"

lemma boolean_option_layered: "boolean_option key dflt s = layered_boolean key dflt s"
  by (auto simp: boolean_option_def layered_boolean_def layered_value_def key_path_def
        dict_get_def must_be_boolean_def target_location_def global_location_def
        split: option.splits pyval.splits)

lemma directory_option_layered:
  "directory_option w s =
     (case layered_value ''directory'' (PStr (DEFAULT_BUILD_DIRECTORY w)) s of
        PStr d \<Rightarrow> Inr (normalize_build_directory w d s)
      | _ \<Rightarrow> Inl (TypeError (''Field `'' @ key_path ''directory'' s @ ''` must be a string'')))"
  by (auto simp: directory_option_def configured_directory_def layered_value_def key_path_def
        dict_get_def must_be_a_string_def target_location_def global_location_def
        split: option.splits pyval.splits)

lemma dev_mode_dirs_option_layered:
  "dev_mode_dirs_option s =
     string_array ''Directory'' (key_path ''dev-mode-dirs'' s)
       (layered_value ''dev-mode-dirs'' (PList []) s)"
  by (auto simp: dev_mode_dirs_option_def option_config_def layered_value_def key_path_def
        dict_get_def dict_contains_def target_location_def global_location_def
        split: option.splits)

lemma check_dependencies_valid:
  "check_dependencies place i (map PStr ds) = Inr ds"
  by (induction ds arbitrary: i) auto


lemma versions_option_global:
  "versions_option (init (builder s) (root s) (plugin_name s) bc (target_config s))
     = versions_option s"
  unfolding versions_option_def target_location_def init_def BuilderConfig.simps
  by (rule refl)

text \<open>The union of the claim, in its own words: a list without its duplicates, each element
  at its first position; the dependencies a valid hook table lists, whether it requires the
  runtime dependencies, and what makes it valid for \<^verbatim>\<open>dependencies\<close>.\<close>

definition first_seen :: "'a list \<Rightarrow> 'a list" where
  "first_seen xs = rev (remdups (rev xs))"

definition listed_strings :: "pyval list \<Rightarrow> string list" where
  "listed_strings xs = concat (map (\<lambda>x. case x of PStr d \<Rightarrow> [d] | _ \<Rightarrow> []) xs)"

definition hook_listed_dependencies :: "string \<times> pydict \<Rightarrow> string list" where
  "hook_listed_dependencies hook =
     (case dict_get (snd hook) ''dependencies'' (PList []) of
        PList xs \<Rightarrow> listed_strings xs
      | _ \<Rightarrow> [])"

definition hook_requires_runtime :: "string \<times> pydict \<Rightarrow> bool" where
  "hook_requires_runtime hook =
     (dict_get (snd hook) ''require-runtime-dependencies'' (PBool False) = PBool True)"

definition valid_hook :: "string \<times> pydict \<Rightarrow> bool" where
  "valid_hook hook =
     ((case dict_get (snd hook) ''require-runtime-dependencies'' (PBool False) of
         PBool b \<Rightarrow> True
       | _ \<Rightarrow> False)
      \<and> (case dict_get (snd hook) ''dependencies'' (PList []) of
            PList xs \<Rightarrow> list_all (\<lambda>x. case x of PStr d \<Rightarrow> True | _ \<Rightarrow> False) xs
          | _ \<Rightarrow> False))"

lemma ordered_set_extend_append:
  "ordered_set_extend (ordered_set_extend xs ys) zs = ordered_set_extend xs (ys @ zs)"
  by (simp add: ordered_set_extend_def)

lemma remdups_rev_member:
  "y \<in> set xs \<Longrightarrow> remdups (rev ys @ y # rev xs) = remdups (rev ys @ rev xs)"
proof -
  assume "y \<in> set xs"
  then have "remdups (y # rev xs) = remdups (rev xs)" by simp
  then have "remdups (rev ys @ remdups (y # rev xs)) = remdups (rev ys @ remdups (rev xs))"
    by simp
  then show ?thesis by (simp only: remdups_append2)
qed

lemma ordered_set_extend_first_seen:
  "distinct xs \<Longrightarrow> ordered_set_extend xs ys = first_seen (xs @ ys)"
proof (induction ys arbitrary: xs)
  case Nil
  then show ?case by (simp add: first_seen_def distinct_remdups_id)
next
  case (Cons y ys)
  show ?case
  proof (cases "y \<in> set xs")
    case True
    have "ordered_set_extend xs (y # ys) = ordered_set_extend xs ys"
      using True by (simp add: ordered_set_extend_def ordered_set_add_def)
    also have "\<dots> = first_seen (xs @ ys)"
      using Cons by simp
    also have "\<dots> = first_seen (xs @ y # ys)"
      using True by (simp add: first_seen_def remdups_rev_member)
    finally show ?thesis .
  next
    case False
    have "ordered_set_extend xs (y # ys) = ordered_set_extend (xs @ [y]) ys"
      using False by (simp add: ordered_set_extend_def ordered_set_add_def)
    also have "\<dots> = first_seen ((xs @ [y]) @ ys)"
      using False Cons.prems by (intro Cons.IH) simp
    finally show ?thesis by simp
  qed
qed

lemma check_dependencies_listed:
  "list_all (\<lambda>x. case x of PStr d \<Rightarrow> True | _ \<Rightarrow> False) xs \<Longrightarrow>
   check_dependencies place i xs = Inr (listed_strings xs)"
  by (induction xs arbitrary: i) (auto simp: listed_strings_def split: pyval.splits)

lemma hook_dependencies_valid:
  "list_all valid_hook hooks \<Longrightarrow>
   hook_dependencies hooks (rrd, deps) =
     Inr (rrd \<or> list_ex hook_requires_runtime hooks,
          ordered_set_extend deps (concat (map hook_listed_dependencies hooks)))"
proof (induction hooks arbitrary: rrd deps)
  case Nil
  then show ?case by simp
next
  case (Cons hook hooks)
  obtain hook_name config where hook: "hook = (hook_name, config)" by (cases hook)
  obtain b xs where
    b: "dict_get config ''require-runtime-dependencies'' (PBool False) = PBool b"
    and xs: "dict_get config ''dependencies'' (PList []) = PList xs"
    and ok: "list_all (\<lambda>x. case x of PStr d \<Rightarrow> True | _ \<Rightarrow> False) xs"
    using Cons.prems by (auto simp: valid_hook_def hook split: pyval.splits)
  have r: "hook_requires_runtime hook = b"
    using b by (simp add: hook_requires_runtime_def hook)
  have l: "hook_listed_dependencies hook = listed_strings xs"
    using xs by (simp add: hook_listed_dependencies_def hook)
  have "hook_dependencies (hook # hooks) (rrd, deps) =
          hook_dependencies hooks (rrd \<or> b, ordered_set_extend deps (listed_strings xs))"
    using b xs ok by (simp add: hook check_dependencies_listed)
  also have "\<dots> = Inr ((rrd \<or> b) \<or> list_ex hook_requires_runtime hooks,
                        ordered_set_extend (ordered_set_extend deps (listed_strings xs))
                          (concat (map hook_listed_dependencies hooks)))"
    using Cons.prems by (intro Cons.IH) simp
  finally show ?case
    by (simp add: r l ordered_set_extend_append)
qed

lemma all_dependencies_valid:
  "list_all valid_hook hooks \<Longrightarrow>
   all_dependencies b hooks rrd deps =
     Inr (ordered_set_extend deps
            (concat (map hook_listed_dependencies hooks)
             @ (if rrd \<or> list_ex hook_requires_runtime hooks then metadata_core_dependencies b
                else [])))"
  by (simp add: all_dependencies_def hook_dependencies_valid ordered_set_extend_append)


text \<open>
  Claim C3, as amended. In every consistent state: each of \<^verbatim>\<open>ignore-vcs\<close>,
  \<^verbatim>\<open>require-runtime-dependencies\<close>, \<^verbatim>\<open>only-packages\<close>, \<^verbatim>\<open>reproducible\<close>,
  \<^verbatim>\<open>dev-mode-exact\<close>, \<^verbatim>\<open>directory\<close> and \<^verbatim>\<open>dev-mode-dirs\<close> is resolved from the
  target-level value when the key is there, else from the global-level value, else from its
  default (false, false, false, true, false, the default build directory, the empty list),
  with one validation whose message names the key path of the table the value came from.
  \<^verbatim>\<open>versions\<close> does not depend on the global-level table. \<^verbatim>\<open>dependencies\<close> is, for valid
  lists, the result of the loop over the enabled hooks and of the runtime dependencies on
  the target-level list followed by the global-level list; when the tables of the enabled
  hooks are valid it is the target-level list, then the global-level list, then the
  dependencies of every enabled hook in the order of the hooks, then, when the option or an
  enabled hook requires them, the runtime dependencies of the project, without duplicates,
  each element at its first position.
\<close>

theorem option_resolution:
  assumes "consistent w s"
  shows
    "fst (ignore_vcs s) = layered_boolean ''ignore-vcs'' False s
     \<and> fst (require_runtime_dependencies s)
         = layered_boolean ''require-runtime-dependencies'' False s
     \<and> fst (only_packages s) = layered_boolean ''only-packages'' False s
     \<and> fst (reproducible s) = layered_boolean ''reproducible'' True s
     \<and> fst (dev_mode_exact s) = layered_boolean ''dev-mode-exact'' False s
     \<and> fst (directory w s) =
          (case layered_value ''directory'' (PStr (DEFAULT_BUILD_DIRECTORY w)) s of
             PStr d \<Rightarrow> Inr (normalize_build_directory w d s)
           | _ \<Rightarrow> Inl (TypeError (''Field `'' @ key_path ''directory'' s
                                    @ ''` must be a string'')))
     \<and> fst (dev_mode_dirs s) =
          string_array ''Directory'' (key_path ''dev-mode-dirs'' s)
            (layered_value ''dev-mode-dirs'' (PList []) s)
     \<and> fst (versions s) =
          fst (versions (init (builder s) (root s) (plugin_name s) bc (target_config s)))
     \<and> (dict_get (target_config s) ''dependencies'' (PList []) = PList (map PStr td)
         \<and> dict_get (build_config s) ''dependencies'' (PList []) = PList (map PStr gd)
         \<and> fst (require_runtime_dependencies s) = Inr rrd
         \<and> fst (hook_config w s) = Inr hooks
        \<longrightarrow> fst (dependencies w s) =
              all_dependencies (builder s) hooks rrd
                (ordered_set_extend (ordered_set_extend [] td) gd)
            \<and> set (ordered_set_extend (ordered_set_extend [] td) gd) = set td \<union> set gd
            \<and> (hooks = [] \<and> \<not> rrd
               \<longrightarrow> fst (dependencies w s)
                     = Inr (ordered_set_extend (ordered_set_extend [] td) gd))
            \<and> (list_all valid_hook hooks
               \<longrightarrow> fst (dependencies w s)
                     = Inr (first_seen
                              (td @ gd @ concat (map hook_listed_dependencies hooks)
                               @ (if rrd \<or> list_ex hook_requires_runtime hooks
                                  then metadata_core_dependencies (builder s) else [])))))"
proof (intro conjI impI)
  show "fst (ignore_vcs s) = layered_boolean ''ignore-vcs'' False s"
    using ignore_vcs_value [OF assms] by (simp add: boolean_option_layered)
  show "fst (require_runtime_dependencies s)
         = layered_boolean ''require-runtime-dependencies'' False s"
    using require_runtime_dependencies_value [OF assms] by (simp add: boolean_option_layered)
  show "fst (only_packages s) = layered_boolean ''only-packages'' False s"
    using only_packages_value [OF assms] by (simp add: boolean_option_layered)
  show "fst (reproducible s) = layered_boolean ''reproducible'' True s"
    using reproducible_value [OF assms] by (simp add: boolean_option_layered)
  show "fst (dev_mode_exact s) = layered_boolean ''dev-mode-exact'' False s"
    using dev_mode_exact_value [OF assms] by (simp add: boolean_option_layered)
  show "fst (directory w s) =
          (case layered_value ''directory'' (PStr (DEFAULT_BUILD_DIRECTORY w)) s of
             PStr d \<Rightarrow> Inr (normalize_build_directory w d s)
           | _ \<Rightarrow> Inl (TypeError (''Field `'' @ key_path ''directory'' s
                                    @ ''` must be a string'')))"
    using directory_value [OF assms] by (simp add: directory_option_layered)
  show "fst (dev_mode_dirs s) =
          string_array ''Directory'' (key_path ''dev-mode-dirs'' s)
            (layered_value ''dev-mode-dirs'' (PList []) s)"
    using dev_mode_dirs_value [OF assms] by (simp add: dev_mode_dirs_option_layered)
  have "consistent w (init (builder s) (root s) (plugin_name s) bc (target_config s))"
    by (rule consistent_init)
  then show "fst (versions s) =
          fst (versions (init (builder s) (root s) (plugin_name s) bc (target_config s)))"
    using versions_value [OF assms] versions_value [of w "init (builder s) (root s) (plugin_name s) bc (target_config s)"]
    by (simp add: versions_option_global)
next
  assume h: "dict_get (target_config s) ''dependencies'' (PList []) = PList (map PStr td)
         \<and> dict_get (build_config s) ''dependencies'' (PList []) = PList (map PStr gd)
         \<and> fst (require_runtime_dependencies s) = Inr rrd
         \<and> fst (hook_config w s) = Inr hooks"
  have c: "configured_dependencies s = Inr (ordered_set_extend (ordered_set_extend [] td) gd)"
    using h by (simp add: configured_dependencies_def dependency_array_def
          check_dependencies_valid)
  have d: "fst (dependencies w s) =
              all_dependencies (builder s) hooks rrd
                (ordered_set_extend (ordered_set_extend [] td) gd)"
    using dependencies_run [OF assms] h c require_runtime_dependencies_value [OF assms]
      hook_config_value [OF assms]
    by (simp add: dependencies_value_def)
  show "fst (dependencies w s) =
              all_dependencies (builder s) hooks rrd
                (ordered_set_extend (ordered_set_extend [] td) gd)"
    by (rule d)
  show "set (ordered_set_extend (ordered_set_extend [] td) gd) = set td \<union> set gd"
    by simp
  show "fst (dependencies w s) = Inr (ordered_set_extend (ordered_set_extend [] td) gd)"
    if "hooks = [] \<and> \<not> rrd"
    using that d by (simp add: all_dependencies_def)
  show "fst (dependencies w s)
          = Inr (first_seen
                   (td @ gd @ concat (map hook_listed_dependencies hooks)
                    @ (if rrd \<or> list_ex hook_requires_runtime hooks
                       then metadata_core_dependencies (builder s) else [])))"
    if "list_all valid_hook hooks"
  proof -
    have "ordered_set_extend (ordered_set_extend (ordered_set_extend [] td) gd) rest
            = ordered_set_extend [] (td @ gd @ rest)" for rest
      by (simp add: ordered_set_extend_append)
    then have "ordered_set_extend (ordered_set_extend (ordered_set_extend [] td) gd) rest
            = first_seen (td @ gd @ rest)" for rest
      using ordered_set_extend_first_seen [of "[]" "td @ gd @ rest"] by simp
    then show ?thesis
      using that d by (simp add: all_dependencies_valid)
  qed
qed

definition layered_example :: BuilderConfig where
  "layered_example =
     init wheel_builder ''/p'' ''wheel''
       [(''ignore-vcs'', PBool False), (''reproducible'', PBool False),
        (''only-packages'', PBool True), (''directory'', PStr ''/out''),
        (''dependencies'', PList [PStr ''b'', PStr ''a'']),
        (''require-runtime-dependencies'', PBool True),
        (''hooks'', PDict [(''custom'', PDict [(''dependencies'', PList [PStr ''c'', PStr ''a''])])])]
       [(''ignore-vcs'', PBool True), (''dev-mode-dirs'', PList [PStr ''src'']),
        (''dependencies'', PList [PStr ''a''])]"

theorem option_resolution_witness:
  "consistent plain_world layered_example
   \<and> fst (ignore_vcs layered_example) = Inr True
   \<and> fst (require_runtime_dependencies layered_example) = Inr True
   \<and> fst (only_packages layered_example) = Inr True
   \<and> fst (reproducible layered_example) = Inr False
   \<and> fst (dev_mode_exact layered_example) = Inr False
   \<and> fst (directory plain_world layered_example) = Inr ''/out''
   \<and> fst (dev_mode_dirs layered_example) = Inr [''src'']
   \<and> fst (hook_config plain_world layered_example)
       = Inr [(''custom'', [(''dependencies'', PList [PStr ''c'', PStr ''a''])])]
   \<and> fst (dependencies plain_world layered_example) = Inr [''a'', ''b'', ''c'', ''requests'']"
proof -
  let ?hooks = "[(''custom'', [(''dependencies'', PList [PStr ''c'', PStr ''a''])])]"
  have c: "consistent plain_world layered_example"
    by (simp add: layered_example_def consistent_init)
  have t: "dict_get (target_config layered_example) ''dependencies'' (PList [])
             = PList (map PStr [''a''])"
    and g: "dict_get (build_config layered_example) ''dependencies'' (PList [])
             = PList (map PStr [''b'', ''a''])"
    and b: "metadata_core_dependencies (builder layered_example) = [''requests'']"
    by (simp_all add: layered_example_def init_def dict_get_def wheel_builder_def)
  have h: "fst (hook_config plain_world layered_example) = Inr ?hooks"
    by (simp add: layered_example_def example_defs hook_config_def hook_config_option_def
          final_hook_config_def hook_enabled_def env_var_enabled_def dict_update_def
          dict_setdefault_def)
  have v: "list_all valid_hook ?hooks"
    by (simp add: valid_hook_def dict_get_def)
  have l: "hook_listed_dependencies (''custom'', [(''dependencies'', PList [PStr ''c'', PStr ''a''])])
             = [''c'', ''a'']"
    by (simp add: hook_listed_dependencies_def listed_strings_def dict_get_def)
  note th = option_resolution [OF c, of "[]" "[''a'']" "[''b'', ''a'']" True ?hooks]
  have r: "fst (require_runtime_dependencies layered_example) = Inr True"
    using th by (simp add: layered_boolean_def layered_value_def layered_example_def init_def)
  have "fst (dependencies plain_world layered_example)
          = Inr (first_seen ([''a''] @ [''b'', ''a''] @ concat (map hook_listed_dependencies ?hooks)
                   @ (if True \<or> list_ex hook_requires_runtime ?hooks
                      then metadata_core_dependencies (builder layered_example) else [])))"
    using th t g h r v by blast
  then have d: "fst (dependencies plain_world layered_example)
                  = Inr [''a'', ''b'', ''c'', ''requests'']"
    by (simp add: l b first_seen_def)
  show ?thesis
    using th c d h
    by (simp add: layered_boolean_def layered_value_def layered_example_def init_def
          normalize_build_directory_def plain_world_def string_array_def)
qed


section \<open>Errors and the cache\<close>

text \<open>The memoized properties, an access of one of them with its value forgotten, the
  backing fields of each, and the object with the backing fields forgotten of the
  properties that a property reads before it can raise.\<close>

datatype property =
  Ignore_vcs | Require_runtime_dependencies | Only_packages | Reproducible | Dev_mode_exact
  | Directory | Dev_mode_dirs | Versions | Hook_config | Dependencies | Sources | Packages
  | Force_include | Include_spec | Exclude_spec | Artifact_spec

definition outcome :: "(error + 'a) \<times> BuilderConfig \<Rightarrow> (error + unit) \<times> BuilderConfig" where
  "outcome r = (case fst r of Inl e \<Rightarrow> (Inl e, snd r) | Inr v \<Rightarrow> (Inr (), snd r))"

fun access :: "world \<Rightarrow> property \<Rightarrow> unit run" where
  "access w Ignore_vcs s = outcome (ignore_vcs s)"
| "access w Require_runtime_dependencies s = outcome (require_runtime_dependencies s)"
| "access w Only_packages s = outcome (only_packages s)"
| "access w Reproducible s = outcome (reproducible s)"
| "access w Dev_mode_exact s = outcome (dev_mode_exact s)"
| "access w Directory s = outcome (directory w s)"
| "access w Dev_mode_dirs s = outcome (dev_mode_dirs s)"
| "access w Versions s = outcome (versions s)"
| "access w Hook_config s = outcome (hook_config w s)"
| "access w Dependencies s = outcome (dependencies w s)"
| "access w Sources s = outcome (sources w s)"
| "access w Packages s = outcome (packages w s)"
| "access w Force_include s = outcome (force_include w s)"
| "access w Include_spec s = outcome (include_spec w s)"
| "access w Exclude_spec s = outcome (exclude_spec w s)"
| "access w Artifact_spec s = outcome (artifact_spec w s)"

fun cached :: "property \<Rightarrow> BuilderConfig \<Rightarrow> bool" where
  "cached Ignore_vcs s = (c_ignore_vcs s \<noteq> None)"
| "cached Require_runtime_dependencies s = (c_require_runtime_dependencies s \<noteq> None)"
| "cached Only_packages s = (c_only_packages s \<noteq> None)"
| "cached Reproducible s = (c_reproducible s \<noteq> None)"
| "cached Dev_mode_exact s = (c_dev_mode_exact s \<noteq> None)"
| "cached Directory s = (c_directory s \<noteq> None)"
| "cached Dev_mode_dirs s = (c_dev_mode_dirs s \<noteq> None)"
| "cached Versions s = (c_versions s \<noteq> None)"
| "cached Hook_config s = (c_hook_config s \<noteq> None)"
| "cached Dependencies s = (c_dependencies s \<noteq> None)"
| "cached Sources s = (c_sources s \<noteq> None)"
| "cached Packages s = (c_packages s \<noteq> None)"
| "cached Force_include s = (c_force_include s \<noteq> None)"
| "cached Include_spec s = (c_include_patterns s \<noteq> None \<or> c_include_spec s \<noteq> None)"
| "cached Exclude_spec s = (c_exclude_patterns s \<noteq> None \<or> c_exclude_spec s \<noteq> None)"
| "cached Artifact_spec s = (c_artifact_patterns s \<noteq> None \<or> c_artifact_spec s \<noteq> None)"

fun forget_read :: "property \<Rightarrow> BuilderConfig \<Rightarrow> BuilderConfig" where
  "forget_read Dependencies s = s\<lparr>c_hook_config := None, c_require_runtime_dependencies := None\<rparr>"
| "forget_read Include_spec s = s\<lparr>c_packages := None\<rparr>"
| "forget_read Exclude_spec s = s\<lparr>c_ignore_vcs := None\<rparr>"
| "forget_read p s = s"

definition hook_error_example :: BuilderConfig where
  "hook_error_example =
     init wheel_builder ''/p'' ''wheel''
       [(''hooks'', PDict [(''custom'', PDict [(''dependencies'', PStr ''x'')])])] []"

lemma outcome_simps [simp]:
  "(fst (outcome r) = Inl e) = (fst r = Inl e)" "snd (outcome r) = snd r"
  "outcome (Inl e, s) = (Inl e, s)"
  by (simp_all add: outcome_def split: sum.splits)

lemma ignore_vcs_access:
  "c_ignore_vcs s = Some v \<Longrightarrow> ignore_vcs s = (Inr v, s)"
  "fst (ignore_vcs s) = Inl e \<Longrightarrow> ignore_vcs s = (Inl e, s) \<and> c_ignore_vcs s = None"
  "fst (ignore_vcs s) = Inr v \<Longrightarrow>
     c_ignore_vcs (snd (ignore_vcs s)) = Some v
     \<and> (snd (ignore_vcs s) = s \<or> snd (ignore_vcs s) = s\<lparr>c_ignore_vcs := Some v\<rparr>)"
  by (cases "c_ignore_vcs s"; cases "boolean_option ''ignore-vcs'' False s";
      simp add: ignore_vcs_def)+

lemma require_runtime_dependencies_access:
  "c_require_runtime_dependencies s = Some v \<Longrightarrow> require_runtime_dependencies s = (Inr v, s)"
  "fst (require_runtime_dependencies s) = Inl e \<Longrightarrow>
     require_runtime_dependencies s = (Inl e, s) \<and> c_require_runtime_dependencies s = None"
  "fst (require_runtime_dependencies s) = Inr v \<Longrightarrow>
     c_require_runtime_dependencies (snd (require_runtime_dependencies s)) = Some v
     \<and> (snd (require_runtime_dependencies s) = s
        \<or> snd (require_runtime_dependencies s) = s\<lparr>c_require_runtime_dependencies := Some v\<rparr>)"
  by (cases "c_require_runtime_dependencies s";
      cases "boolean_option ''require-runtime-dependencies'' False s";
      simp add: require_runtime_dependencies_def)+

lemma hook_config_access:
  "c_hook_config s = Some v \<Longrightarrow> hook_config w s = (Inr v, s)"
  "fst (hook_config w s) = Inl e \<Longrightarrow> hook_config w s = (Inl e, s) \<and> c_hook_config s = None"
  "fst (hook_config w s) = Inr v \<Longrightarrow>
     c_hook_config (snd (hook_config w s)) = Some v
     \<and> (snd (hook_config w s) = s \<or> snd (hook_config w s) = s\<lparr>c_hook_config := Some v\<rparr>)"
  by (cases "c_hook_config s"; cases "hook_config_option w s"; simp add: hook_config_def)+

lemma packages_access:
  "c_packages s = Some v \<Longrightarrow> packages w s = (Inr v, s)"
  "fst (packages w s) = Inl e \<Longrightarrow> packages w s = (Inl e, s) \<and> c_packages s = None"
  "fst (packages w s) = Inr v \<Longrightarrow>
     c_packages (snd (packages w s)) = Some v
     \<and> (snd (packages w s) = s \<or> snd (packages w s) = s\<lparr>c_packages := Some v\<rparr>)"
  by (cases "c_packages s"; cases "packages_option w s"; simp add: packages_def)+

lemma only_packages_raises:
  "fst (only_packages s) = Inl e \<Longrightarrow> only_packages s = (Inl e, s) \<and> c_only_packages s = None"
  by (cases "c_only_packages s"; cases "boolean_option ''only-packages'' False s")
    (simp_all add: only_packages_def)

lemma reproducible_raises:
  "fst (reproducible s) = Inl e \<Longrightarrow> reproducible s = (Inl e, s) \<and> c_reproducible s = None"
  by (cases "c_reproducible s"; cases "boolean_option ''reproducible'' True s")
    (simp_all add: reproducible_def)

lemma dev_mode_exact_raises:
  "fst (dev_mode_exact s) = Inl e \<Longrightarrow> dev_mode_exact s = (Inl e, s) \<and> c_dev_mode_exact s = None"
  by (cases "c_dev_mode_exact s"; cases "boolean_option ''dev-mode-exact'' False s")
    (simp_all add: dev_mode_exact_def)

lemma directory_raises:
  "fst (directory w s) = Inl e \<Longrightarrow> directory w s = (Inl e, s) \<and> c_directory s = None"
  by (cases "c_directory s"; cases "directory_option w s") (simp_all add: directory_def)

lemma dev_mode_dirs_raises:
  "fst (dev_mode_dirs s) = Inl e \<Longrightarrow> dev_mode_dirs s = (Inl e, s) \<and> c_dev_mode_dirs s = None"
  by (cases "c_dev_mode_dirs s"; cases "dev_mode_dirs_option s") (simp_all add: dev_mode_dirs_def)

lemma versions_raises:
  "fst (versions s) = Inl e \<Longrightarrow> versions s = (Inl e, s) \<and> c_versions s = None"
  by (cases "c_versions s"; cases "versions_option s") (simp_all add: versions_def)

lemma force_include_raises:
  "fst (force_include w s) = Inl e \<Longrightarrow>
   force_include w s = (Inl e, s) \<and> c_force_include s = None"
  by (cases "c_force_include s"; cases "force_include_option w s")
    (simp_all add: force_include_def)

lemma artifact_spec_raises:
  assumes "fst (artifact_spec w s) = Inl e"
  shows "artifact_spec w s = (Inl e, s) \<and> c_artifact_patterns s = None"
proof (cases "artifact_patterns_option s")
  case (Inl a)
  then show ?thesis using assms by (auto simp: artifact_spec_def split: if_splits)
next
  case (Inr pats)
  then show ?thesis using assms
    by (cases "compile_patterns w pats") (auto simp: artifact_spec_def Let_def split: if_splits)
qed

lemma sources_raises:
  assumes "fst (sources w s) = Inl e"
  shows "sources w s = (Inl e, s) \<and> c_sources s = None"
proof (cases "c_sources s")
  case (Some a)
  then show ?thesis using assms by (simp add: sources_def)
next
  case None
  show ?thesis
  proof (cases "sources_option w s")
    case (Inl a)
    then show ?thesis using assms None by (simp add: sources_def)
  next
    case (Inr srcs)
    show ?thesis
    proof (cases "fst (packages w s)")
      case (Inl a)
      then show ?thesis
        using assms None Inr packages_access(2) [OF Inl] by (simp add: sources_def)
    next
      case p: (Inr pkgs)
      then show ?thesis
        using assms None Inr by (simp add: sources_def case_prod_unfold Let_def)
    qed
  qed
qed


lemma include_spec_raises:
  assumes "fst (include_spec w s) = Inl e"
  shows "c_include_patterns (snd (include_spec w s)) = None
         \<and> include_spec w (snd (include_spec w s)) = (Inl e, snd (include_spec w s))
         \<and> (snd (include_spec w s))\<lparr>c_packages := None\<rparr> = s\<lparr>c_packages := None\<rparr>"
proof -
  have n: "c_include_patterns s = None"
    using assms by (cases "c_include_patterns s") (simp_all add: include_spec_def)
  show ?thesis
  proof (cases "include_patterns_option s")
    case (Inl a)
    then have "include_spec w s = (Inl e, s)"
      using assms n by (simp add: include_spec_def)
    then show ?thesis using n by simp
  next
    case (Inr pats)
    show ?thesis
    proof (cases "fst (packages w s)")
      case (Inl a)
      then have "include_spec w s = (Inl e, s)"
        using assms n Inr packages_access(2) [OF Inl] by (simp add: include_spec_def)
      then show ?thesis using n by simp
    next
      case p: (Inr pkgs)
      define t where "t = snd (packages w s)"
      note a = packages_access(3) [OF p, folded t_def]
      have pt: "packages w t = (Inr pkgs, t)"
        using a by (simp add: packages_access(1))
      have ps: "packages w s = (Inr pkgs, t)"
        using p by (simp add: t_def prod_eq_iff)
      have nt: "c_include_patterns t = None"
        using n by (simp add: t_def)
      have it: "include_patterns_option t = Inr pats"
        using Inr by (simp add: t_def on_cfg)
      obtain e' where c: "compile_patterns w (pats @ map (package_pattern w) pkgs) = Inl e'"
        using assms n Inr ps
        by (cases "compile_patterns w (pats @ map (package_pattern w) pkgs)")
          (simp_all add: include_spec_def Let_def)
      have 1: "include_spec w s = (Inl e', t)"
        using n Inr ps c by (simp add: include_spec_def Let_def)
      have 2: "include_spec w t = (Inl e', t)"
        using nt it pt c by (simp add: include_spec_def Let_def)
      have 3: "t\<lparr>c_packages := None\<rparr> = s\<lparr>c_packages := None\<rparr>"
        using a by auto
      show ?thesis
        using assms 1 2 3 nt by simp
    qed
  qed
qed

lemma exclude_spec_raises:
  assumes "fst (exclude_spec w s) = Inl e"
  shows "c_exclude_patterns (snd (exclude_spec w s)) = None
         \<and> exclude_spec w (snd (exclude_spec w s)) = (Inl e, snd (exclude_spec w s))
         \<and> (snd (exclude_spec w s))\<lparr>c_ignore_vcs := None\<rparr> = s\<lparr>c_ignore_vcs := None\<rparr>"
proof -
  have n: "c_exclude_patterns s = None"
    using assms by (cases "c_exclude_patterns s") (simp_all add: exclude_spec_def)
  show ?thesis
  proof (cases "exclude_patterns_option s")
    case (Inl a)
    then have "exclude_spec w s = (Inl e, s)"
      using assms n by (simp add: exclude_spec_def)
    then show ?thesis using n by simp
  next
    case (Inr pats)
    show ?thesis
    proof (cases "fst (ignore_vcs s)")
      case (Inl a)
      then have "exclude_spec w s = (Inl e, s)"
        using assms n Inr ignore_vcs_access(2) [OF Inl] by (simp add: exclude_spec_def)
      then show ?thesis using n by simp
    next
      case p: (Inr no_vcs)
      define t where "t = snd (ignore_vcs s)"
      define all where "all = default_global_exclude @ pats
                          @ (if \<not> no_vcs then load_vcs_ignore_patterns w s else [])"
      note a = ignore_vcs_access(3) [OF p, folded t_def]
      have pt: "ignore_vcs t = (Inr no_vcs, t)"
        using a by (simp add: ignore_vcs_access(1))
      have ps: "ignore_vcs s = (Inr no_vcs, t)"
        using p by (simp add: t_def prod_eq_iff)
      have nt: "c_exclude_patterns t = None"
        using n by (simp add: t_def)
      have it: "exclude_patterns_option t = Inr pats"
        using Inr by (simp add: t_def on_cfg)
      have l: "load_vcs_ignore_patterns w t = load_vcs_ignore_patterns w s"
        by (simp add: t_def on_cfg)
      obtain e' where c: "compile_patterns w all = Inl e'"
        using assms n Inr ps l
        by (cases "compile_patterns w all"; cases no_vcs)
          (simp_all add: exclude_spec_def Let_def all_def)
      have 1: "exclude_spec w s = (Inl e', t)"
        using n Inr ps c l by (cases no_vcs) (simp_all add: exclude_spec_def Let_def all_def)
      have 2: "exclude_spec w t = (Inl e', t)"
        using nt it pt c l by (cases no_vcs) (simp_all add: exclude_spec_def Let_def all_def)
      have 3: "t\<lparr>c_ignore_vcs := None\<rparr> = s\<lparr>c_ignore_vcs := None\<rparr>"
        using a by auto
      show ?thesis
        using assms 1 2 3 nt by simp
    qed
  qed
qed

lemma dependencies_raises:
  assumes "fst (dependencies w s) = Inl e"
  shows "c_dependencies (snd (dependencies w s)) = None
         \<and> dependencies w (snd (dependencies w s)) = (Inl e, snd (dependencies w s))
         \<and> (snd (dependencies w s))\<lparr>c_hook_config := None, c_require_runtime_dependencies := None\<rparr>
             = s\<lparr>c_hook_config := None, c_require_runtime_dependencies := None\<rparr>"
proof -
  have n: "c_dependencies s = None"
    using assms by (cases "c_dependencies s") (simp_all add: dependencies_def)
  show ?thesis
  proof (cases "configured_dependencies s")
    case (Inl a)
    then have "dependencies w s = (Inl e, s)"
      using assms n by (simp add: dependencies_def)
    then show ?thesis using n by simp
  next
    case (Inr deps)
    show ?thesis
    proof (cases "fst (require_runtime_dependencies s)")
      case (Inl a)
      then have "dependencies w s = (Inl e, s)"
        using assms n Inr require_runtime_dependencies_access(2) [OF Inl]
        by (simp add: dependencies_def)
      then show ?thesis using n by simp
    next
      case r: (Inr rrd)
      define t where "t = snd (require_runtime_dependencies s)"
      note a = require_runtime_dependencies_access(3) [OF r, folded t_def]
      have rs: "require_runtime_dependencies s = (Inr rrd, t)"
        using r by (simp add: t_def prod_eq_iff)
      have rt: "require_runtime_dependencies t = (Inr rrd, t)"
        using a by (simp add: require_runtime_dependencies_access(1))
      have nt: "c_dependencies t = None"
        using a n by auto
      have ct: "configured_dependencies t = Inr deps"
        using Inr by (simp add: t_def on_cfg)
      have ft: "t\<lparr>c_hook_config := None, c_require_runtime_dependencies := None\<rparr>
                  = s\<lparr>c_hook_config := None, c_require_runtime_dependencies := None\<rparr>"
        using a by auto
      show ?thesis
      proof (cases "fst (hook_config w t)")
        case (Inl a')
        note hk = hook_config_access(2) [OF Inl]
        have 1: "dependencies w s = (Inl a', t)"
          using n Inr rs hk by (simp add: dependencies_def)
        have 2: "dependencies w t = (Inl a', t)"
          using nt ct rt hk by (simp add: dependencies_def)
        show ?thesis using assms 1 2 nt ft by simp
      next
        case h: (Inr hooks)
        define u where "u = snd (hook_config w t)"
        note b = hook_config_access(3) [OF h, folded u_def]
        have hs: "hook_config w t = (Inr hooks, u)"
          using h by (simp add: u_def prod_eq_iff)
        have hu: "hook_config w u = (Inr hooks, u)"
          using b by (simp add: hook_config_access(1))
        have ru: "require_runtime_dependencies u = (Inr rrd, u)"
          using a b by (intro require_runtime_dependencies_access(1)) auto
        have nu: "c_dependencies u = None"
          using b nt by auto
        have cu: "configured_dependencies u = Inr deps"
          using ct by (simp add: u_def on_cfg)
        have bu: "builder u = builder s"
          by (simp add: u_def t_def)
        have fu: "u\<lparr>c_hook_config := None, c_require_runtime_dependencies := None\<rparr>
                  = s\<lparr>c_hook_config := None, c_require_runtime_dependencies := None\<rparr>"
          using b ft by auto
        obtain e' where c: "all_dependencies (builder u) hooks rrd deps = Inl e'"
          using assms n Inr rs hs
          by (cases "all_dependencies (builder u) hooks rrd deps") (simp_all add: dependencies_def)
        have 1: "dependencies w s = (Inl e', u)"
          using n Inr rs hs c by (simp add: dependencies_def)
        have 2: "dependencies w u = (Inl e', u)"
          using nu cu ru hu c by (simp add: dependencies_def)
        show ?thesis using assms 1 2 nu fu by simp
      qed
    qed
  qed
qed


text \<open>
  Claim C10 says that a memoized property that raises leaves the cached backing fields of
  the object unchanged. \<^verbatim>\<open>dependencies\<close> reads \<^verbatim>\<open>require_runtime_dependencies\<close> and
  \<^verbatim>\<open>hook_config\<close>, which cache their values, before its loop over the hooks validates
  their tables: with a hook whose \<^verbatim>\<open>dependencies\<close> is the string \<^verbatim>\<open>x\<close> the access raises
  a type error and the backing fields of these two properties, unset before, are set.
\<close>

theorem dependencies_caches_before_raising_counterexample:
  "fst (dependencies plain_world hook_error_example)
     = Inl (TypeError ''Option `dependencies` of build hook `custom` must be an array'')
   \<and> c_require_runtime_dependencies hook_error_example = None
   \<and> c_hook_config hook_error_example = None
   \<and> c_require_runtime_dependencies (snd (dependencies plain_world hook_error_example))
       = Some False
   \<and> c_hook_config (snd (dependencies plain_world hook_error_example))
       = Some [(''custom'', [(''dependencies'', PStr ''x'')])]
   \<and> snd (dependencies plain_world hook_error_example) \<noteq> hook_error_example"
proof -
  have d: "dependencies plain_world hook_error_example =
             (Inl (TypeError ''Option `dependencies` of build hook `custom` must be an array''),
              hook_error_example
                \<lparr>c_hook_config := Some [(''custom'', [(''dependencies'', PStr ''x'')])],
                 c_require_runtime_dependencies := Some False\<rparr>)"
    by (simp add: hook_error_example_def example_defs dependencies_def
          configured_dependencies_def dependency_array_def require_runtime_dependencies_def
          boolean_option_def hook_config_def hook_config_option_def final_hook_config_def
          hook_enabled_def env_var_enabled_def dict_update_def dict_setdefault_def
          all_dependencies_def ordered_set_extend_def)
  have n: "c_require_runtime_dependencies hook_error_example = None"
    "c_hook_config hook_error_example = None"
    by (simp_all add: hook_error_example_def init_def)
  have "c_hook_config (snd (dependencies plain_world hook_error_example))
          \<noteq> c_hook_config hook_error_example"
    using n by (simp add: d)
  then have "snd (dependencies plain_world hook_error_example) \<noteq> hook_error_example"
    by auto
  then show ?thesis
    using n by (simp add: d)
qed

text \<open>
  Claim C10, as amended. If the access of a memoized property raises, then a second access
  of the same property raises the same error and leaves the object as the first access
  left it; the object after the first access is the object before it, except for the
  backing fields of the properties that the raising property reads before the point where
  it raises (\<^verbatim>\<open>require_runtime_dependencies\<close> and \<^verbatim>\<open>hook_config\<close> for \<^verbatim>\<open>dependencies\<close>,
  \<^verbatim>\<open>packages\<close> for \<^verbatim>\<open>include_spec\<close>, \<^verbatim>\<open>ignore_vcs\<close> for \<^verbatim>\<open>exclude_spec\<close>; none for the
  other properties, which leave the object unchanged); and in a consistent object the
  backing fields of the raising property itself are still unset and the object stays
  consistent, so that what was cached on the way is what an access of its own would have
  cached.
\<close>

theorem memoized_error_leaves_own_cache_unset:
  "fst (access w P s) = Inl e \<longrightarrow>
     access w P (snd (access w P s)) = (Inl e, snd (access w P s))
     \<and> forget_read P (snd (access w P s)) = forget_read P s
     \<and> (P \<noteq> Dependencies \<and> P \<noteq> Include_spec \<and> P \<noteq> Exclude_spec
        \<longrightarrow> snd (access w P s) = s)
     \<and> (consistent w s
        \<longrightarrow> \<not> cached P (snd (access w P s)) \<and> consistent w (snd (access w P s)))"
proof (intro impI)
  assume f: "fst (access w P s) = Inl e"
  show "access w P (snd (access w P s)) = (Inl e, snd (access w P s))
     \<and> forget_read P (snd (access w P s)) = forget_read P s
     \<and> (P \<noteq> Dependencies \<and> P \<noteq> Include_spec \<and> P \<noteq> Exclude_spec
        \<longrightarrow> snd (access w P s) = s)
     \<and> (consistent w s
        \<longrightarrow> \<not> cached P (snd (access w P s)) \<and> consistent w (snd (access w P s)))"
  proof (cases P)
    case Ignore_vcs
    then show ?thesis using f ignore_vcs_access(2) [of s e] by simp
  next
    case Require_runtime_dependencies
    then show ?thesis using f require_runtime_dependencies_access(2) [of s e] by simp
  next
    case Only_packages
    then show ?thesis using f only_packages_raises [of s e] by simp
  next
    case Reproducible
    then show ?thesis using f reproducible_raises [of s e] by simp
  next
    case Dev_mode_exact
    then show ?thesis using f dev_mode_exact_raises [of s e] by simp
  next
    case Directory
    then show ?thesis using f directory_raises [of w s e] by simp
  next
    case Dev_mode_dirs
    then show ?thesis using f dev_mode_dirs_raises [of s e] by simp
  next
    case Versions
    then show ?thesis using f versions_raises [of s e] by simp
  next
    case Hook_config
    then show ?thesis using f hook_config_access(2) [of w s e] by simp
  next
    case Dependencies
    have r: "fst (dependencies w s) = Inl e" using f Dependencies by simp
    note d = dependencies_raises [OF r]
    have "consistent w (snd (dependencies w s))" if "consistent w s"
      using dependencies_run [OF that] by simp
    then show ?thesis using Dependencies d by simp
  next
    case Sources
    then show ?thesis using f sources_raises [of w s e] by simp
  next
    case Packages
    then show ?thesis using f packages_access(2) [of w s e] by simp
  next
    case Force_include
    then show ?thesis using f force_include_raises [of w s e] by simp
  next
    case Include_spec
    have r: "fst (include_spec w s) = Inl e" using f Include_spec by simp
    note d = include_spec_raises [OF r]
    have c: "consistent w (snd (include_spec w s))" if "consistent w s"
      using that by (rule include_spec_inv)
    have "c_include_spec (snd (include_spec w s)) = None" if "consistent w s"
      using consistentD(8) [OF c [OF that]] d by simp
    then show ?thesis using Include_spec d c by simp
  next
    case Exclude_spec
    have r: "fst (exclude_spec w s) = Inl e" using f Exclude_spec by simp
    note d = exclude_spec_raises [OF r]
    have c: "consistent w (snd (exclude_spec w s))" if "consistent w s"
      using that by (rule exclude_spec_inv)
    have "c_exclude_spec (snd (exclude_spec w s)) = None" if "consistent w s"
      using consistentD(10) [OF c [OF that]] d by simp
    then show ?thesis using Exclude_spec d c by simp
  next
    case Artifact_spec
    have r: "fst (artifact_spec w s) = Inl e" using f Artifact_spec by simp
    note d = artifact_spec_raises [OF r]
    have "c_artifact_spec s = None" if "consistent w s"
      using consistentD(12) [OF that] d by simp
    then show ?thesis using Artifact_spec d by simp
  qed
qed

definition bad_versions_example :: BuilderConfig where
  "bad_versions_example =
     init wheel_builder ''/p'' ''wheel'' [] [(''versions'', PStr ''standard'')]"

theorem memoized_error_leaves_own_cache_unset_witness:
  "fst (access plain_world Dependencies hook_error_example)
     = Inl (TypeError ''Option `dependencies` of build hook `custom` must be an array'')
   \<and> access plain_world Dependencies (snd (access plain_world Dependencies hook_error_example))
       = (Inl (TypeError ''Option `dependencies` of build hook `custom` must be an array''),
          snd (access plain_world Dependencies hook_error_example))
   \<and> c_dependencies (snd (access plain_world Dependencies hook_error_example)) = None
   \<and> (snd (access plain_world Dependencies hook_error_example))
        \<lparr>c_hook_config := None, c_require_runtime_dependencies := None\<rparr> = hook_error_example
   \<and> fst (access plain_world Versions bad_versions_example)
       = Inl (TypeError ''Field `tool.hatch.build.targets.wheel.versions` must be an array of strings'')
   \<and> snd (access plain_world Versions bad_versions_example) = bad_versions_example"
proof -
  let ?e = "TypeError ''Option `dependencies` of build hook `custom` must be an array''"
  let ?v = "TypeError ''Field `tool.hatch.build.targets.wheel.versions` must be an array of strings''"
  have d: "fst (access plain_world Dependencies hook_error_example) = Inl ?e"
    by (simp add: hook_error_example_def example_defs dependencies_def
          configured_dependencies_def dependency_array_def require_runtime_dependencies_def
          boolean_option_def hook_config_def hook_config_option_def final_hook_config_def
          hook_enabled_def env_var_enabled_def dict_update_def dict_setdefault_def
          all_dependencies_def ordered_set_extend_def)
  have c: "consistent plain_world hook_error_example"
    by (simp add: hook_error_example_def consistent_init)
  have n: "hook_error_example\<lparr>c_hook_config := None, c_require_runtime_dependencies := None\<rparr>
             = hook_error_example"
    by (simp add: hook_error_example_def init_def)
  have v: "fst (access plain_world Versions bad_versions_example) = Inl ?v"
    by (simp add: bad_versions_example_def example_defs versions_def versions_option_def
          must_be_array_of_strings_def)
  show ?thesis
    using memoized_error_leaves_own_cache_unset [of plain_world Dependencies hook_error_example ?e]
      memoized_error_leaves_own_cache_unset [of plain_world Versions bad_versions_example ?v]
      d c n v
    by simp
qed

end
